(* ===== verification/Py_Strings.thy ===== *)
theory Py_Strings
  imports Py_Prelude
begin

text \<open>
  The operations of Python's \<open>str\<close> and \<open>int\<close> that the code calls, on text whose characters are the
  code points below 256 (one \<open>char\<close> each): the character classes, \<open>strip\<close>, \<open>lower\<close>, \<open>upper\<close>, the
  \<open>split\<close> family, \<open>join\<close>, \<open>splitlines\<close>, \<open>int(s)\<close>, \<open>str(n)\<close>, \<open>replace\<close>, and UTF-8.
  The facts below are the round trips and normal forms the components' proofs use.
\<close>

section \<open>Character classes\<close>

definition code :: "char \<Rightarrow> nat" where
  "code c = of_char c"

definition is_space :: "char \<Rightarrow> bool" where
  "is_space c = (let n = code c in (9 \<le> n \<and> n \<le> 13) \<or> (28 \<le> n \<and> n \<le> 32) \<or> n = 133 \<or> n = 160)"

definition is_digit :: "char \<Rightarrow> bool" where
  "is_digit c = (48 \<le> code c \<and> code c \<le> 57)"

definition is_alpha :: "char \<Rightarrow> bool" where
  "is_alpha c = ((65 \<le> code c \<and> code c \<le> 90) \<or> (97 \<le> code c \<and> code c \<le> 122))"

text \<open>The class \<open>\w\<close>: letters, digits, other numeric characters and the underscore.\<close>

definition is_word :: "char \<Rightarrow> bool" where
  "is_word c = (let n = code c in is_alpha c \<or> is_digit c \<or> n = 95 \<or> n \<in> {170, 178, 179, 181, 185, 186, 188, 189, 190}
     \<or> (192 \<le> n \<and> n \<noteq> 215 \<and> n \<noteq> 247))"

lemmas char_class_defs = code_def is_space_def is_digit_def is_alpha_def is_word_def Let_def

abbreviation "CR \<equiv> CHR 0x0D"
abbreviation "LF \<equiv> CHR 0x0A"
abbreviation "CRLF \<equiv> [CR, LF]"
abbreviation "DQ \<equiv> CHR 0x22"

lemma is_space_literals [simp]:
  "is_space (CHR '' '')" "is_space CR" "is_space LF" "is_space (CHR 0x09)"
  by (simp_all add: char_class_defs)

lemma digit_not_space: "is_digit c \<Longrightarrow> \<not> is_space c"
  by (auto simp: char_class_defs)

lemma word_not_space: "is_word c \<Longrightarrow> \<not> is_space c"
  by (auto simp: char_class_defs)

section \<open>Case mapping\<close>

definition is_upper :: "char \<Rightarrow> bool" where
  "is_upper c = (let n = code c in (65 \<le> n \<and> n \<le> 90) \<or> (192 \<le> n \<and> n \<le> 222 \<and> n \<noteq> 215))"

definition lower_char :: "char \<Rightarrow> char" where
  "lower_char c = (if is_upper c then char_of (code c + 32) else c)"

definition lower :: "string \<Rightarrow> string" where
  "lower s = map lower_char s"

text \<open>
  \<open>upper\<close>: the sharp s becomes two letters; the micro sign and y with diaeresis, whose capitals lie
  above code point 255, are left as they are.
\<close>

definition upper_char :: "char \<Rightarrow> string" where
  "upper_char c = (let n = code c in
     if (97 \<le> n \<and> n \<le> 122) \<or> (224 \<le> n \<and> n \<le> 254 \<and> n \<noteq> 247) then [char_of (n - 32)]
     else if n = 223 then ''SS'' else [c])"

definition upper :: "string \<Rightarrow> string" where
  "upper s = concat (map upper_char s)"

lemma code_char_of: "n < 256 \<Longrightarrow> code (char_of n) = n"
  by (simp add: code_def of_char_of take_bit_eq_mod)

lemma lower_char_not_upper [simp]: "\<not> is_upper (lower_char c)"
  by (auto simp: lower_char_def is_upper_def code_char_of Let_def)

lemma lower_char_id: "\<not> is_upper c \<Longrightarrow> lower_char c = c"
  by (simp add: lower_char_def)

lemma lower_char_idem [simp]: "lower_char (lower_char c) = lower_char c"
  by (rule lower_char_id) simp

lemma lower_idem [simp]: "lower (lower s) = lower s"
  by (simp add: lower_def)

lemma lower_Nil [simp]: "lower [] = []"
  by (simp add: lower_def)

lemma lower_Cons [simp]: "lower (c # s) = lower_char c # lower s"
  by (simp add: lower_def)

lemma lower_append [simp]: "lower (s @ t) = lower s @ lower t"
  by (simp add: lower_def)

lemma lower_eq_Nil [simp]: "lower s = [] \<longleftrightarrow> s = []"
  by (simp add: lower_def)

lemma lower_char_letters [simp]:
  "lower_char (CHR ''A'') = CHR ''a''" "lower_char (CHR ''B'') = CHR ''b''"
  "lower_char (CHR ''C'') = CHR ''c''" "lower_char (CHR ''D'') = CHR ''d''"
  "lower_char (CHR ''E'') = CHR ''e''" "lower_char (CHR ''F'') = CHR ''f''"
  "lower_char (CHR ''G'') = CHR ''g''" "lower_char (CHR ''H'') = CHR ''h''"
  "lower_char (CHR ''I'') = CHR ''i''" "lower_char (CHR ''J'') = CHR ''j''"
  "lower_char (CHR ''K'') = CHR ''k''" "lower_char (CHR ''L'') = CHR ''l''"
  "lower_char (CHR ''M'') = CHR ''m''" "lower_char (CHR ''N'') = CHR ''n''"
  "lower_char (CHR ''O'') = CHR ''o''" "lower_char (CHR ''P'') = CHR ''p''"
  "lower_char (CHR ''Q'') = CHR ''q''" "lower_char (CHR ''R'') = CHR ''r''"
  "lower_char (CHR ''S'') = CHR ''s''" "lower_char (CHR ''T'') = CHR ''t''"
  "lower_char (CHR ''U'') = CHR ''u''" "lower_char (CHR ''V'') = CHR ''v''"
  "lower_char (CHR ''W'') = CHR ''w''" "lower_char (CHR ''X'') = CHR ''x''"
  "lower_char (CHR ''Y'') = CHR ''y''" "lower_char (CHR ''Z'') = CHR ''z''"
  by (simp_all add: lower_char_def is_upper_def code_def char_of_def bit_0)

lemma lower_char_small [simp]:
  "lower_char (CHR ''a'') = CHR ''a''" "lower_char (CHR ''b'') = CHR ''b''"
  "lower_char (CHR ''c'') = CHR ''c''" "lower_char (CHR ''d'') = CHR ''d''"
  "lower_char (CHR ''e'') = CHR ''e''" "lower_char (CHR ''f'') = CHR ''f''"
  "lower_char (CHR ''g'') = CHR ''g''" "lower_char (CHR ''h'') = CHR ''h''"
  "lower_char (CHR ''i'') = CHR ''i''" "lower_char (CHR ''j'') = CHR ''j''"
  "lower_char (CHR ''k'') = CHR ''k''" "lower_char (CHR ''l'') = CHR ''l''"
  "lower_char (CHR ''m'') = CHR ''m''" "lower_char (CHR ''n'') = CHR ''n''"
  "lower_char (CHR ''o'') = CHR ''o''" "lower_char (CHR ''p'') = CHR ''p''"
  "lower_char (CHR ''q'') = CHR ''q''" "lower_char (CHR ''r'') = CHR ''r''"
  "lower_char (CHR ''s'') = CHR ''s''" "lower_char (CHR ''t'') = CHR ''t''"
  "lower_char (CHR ''u'') = CHR ''u''" "lower_char (CHR ''v'') = CHR ''v''"
  "lower_char (CHR ''w'') = CHR ''w''" "lower_char (CHR ''x'') = CHR ''x''"
  "lower_char (CHR ''y'') = CHR ''y''" "lower_char (CHR ''z'') = CHR ''z''"
  "lower_char (CHR ''-'') = CHR ''-''" "lower_char (CHR '':'') = CHR '':''"
  by (simp_all add: lower_char_def is_upper_def code_def)

section \<open>Stripping\<close>

definition lstrip :: "string \<Rightarrow> string" where
  "lstrip s = dropWhile is_space s"

definition rstrip :: "string \<Rightarrow> string" where
  "rstrip s = rev (dropWhile is_space (rev s))"

definition strip :: "string \<Rightarrow> string" where
  "strip s = rstrip (lstrip s)"

text \<open>\<open>s.strip(chars)\<close>\<close>

definition strip_chars :: "string \<Rightarrow> string \<Rightarrow> string" where
  "strip_chars cs s = rev (dropWhile (\<lambda>c. c \<in> set cs) (rev (dropWhile (\<lambda>c. c \<in> set cs) s)))"

definition stripped :: "string \<Rightarrow> bool" where
  "stripped s = (s = [] \<or> (\<not> is_space (hd s) \<and> \<not> is_space (last s)))"

lemma rstrip_id: "s = [] \<or> \<not> is_space (last s) \<Longrightarrow> rstrip s = s"
  by (cases "s = []") (auto simp: rstrip_def dropWhile_hd_not hd_rev)

lemma lstrip_id: "s = [] \<or> \<not> is_space (hd s) \<Longrightarrow> lstrip s = s"
  by (cases s) (auto simp: lstrip_def)

lemma strip_id: "stripped s \<Longrightarrow> strip s = s"
  by (auto simp: strip_def stripped_def lstrip_id rstrip_id)

lemma rstrip_prefix: "\<exists>t. s = rstrip s @ t \<and> (\<forall>c \<in> set t. is_space c)"
proof -
  have "rev s = takeWhile is_space (rev s) @ dropWhile is_space (rev s)" by simp
  then have "s = rev (dropWhile is_space (rev s)) @ rev (takeWhile is_space (rev s))"
    by (metis rev_append rev_rev_ident)
  then show ?thesis unfolding rstrip_def
    by (metis set_rev set_takeWhileD)
qed

lemma rstrip_last: "rstrip s \<noteq> [] \<Longrightarrow> \<not> is_space (last (rstrip s))"
  unfolding rstrip_def by (metis dropWhile_eq_Nil_conv hd_dropWhile last_rev rev_is_Nil_conv dropWhile_eq_Nil_conv)

lemma hd_rstrip: "rstrip s \<noteq> [] \<Longrightarrow> hd (rstrip s) = hd s"
  by (metis rstrip_prefix hd_append2)

lemma stripped_strip [simp]: "stripped (strip s)"
proof (cases "strip s = []")
  case False
  then have r: "rstrip (lstrip s) \<noteq> []" by (simp add: strip_def)
  then have "lstrip s \<noteq> []" by (auto simp: rstrip_def)
  then have "\<not> is_space (hd (lstrip s))"
    unfolding lstrip_def by (metis dropWhile_eq_Nil_conv hd_dropWhile)
  then show ?thesis
    using r rstrip_last[OF r] hd_rstrip[OF r] by (simp add: stripped_def strip_def)
qed (simp add: stripped_def)

lemma strip_strip [simp]: "strip (strip s) = strip s"
  by (rule strip_id) simp

lemma strip_Nil [simp]: "strip [] = []"
  by (simp add: strip_def lstrip_def rstrip_def)

lemma lstrip_Cons [simp]: "lstrip (c # s) = (if is_space c then lstrip s else c # s)"
  by (simp add: lstrip_def)

lemma rstrip_snoc [simp]: "rstrip (s @ [c]) = (if is_space c then rstrip s else s @ [c])"
  by (simp add: rstrip_def)

lemma rstrip_append_nonspace: "t \<noteq> [] \<Longrightarrow> \<not> is_space (last t) \<Longrightarrow> rstrip (s @ t) = s @ t"
  by (rule rstrip_id) simp

lemma rstrip_append: "rstrip (s @ t) = (if rstrip t = [] then rstrip s else s @ rstrip t)"
  by (induction t rule: rev_induct) (auto simp: rstrip_def dropWhile_append)

lemma rstrip_Nil [simp]: "rstrip [] = []"
  by (simp add: rstrip_def)

lemma rstrip_all_space: "\<forall>c \<in> set t. is_space c \<Longrightarrow> rstrip t = []"
  by (simp add: rstrip_def)

lemma set_rstrip: "set (rstrip s) \<subseteq> set s"
  unfolding rstrip_def by (metis set_dropWhileD set_rev subsetI)

lemma set_strip: "set (strip s) \<subseteq> set s"
  unfolding strip_def lstrip_def using set_rstrip set_dropWhileD by fastforce

lemma strip_lead_space: "is_space c \<Longrightarrow> strip (c # s) = strip s"
  by (simp add: strip_def)

lemma strip_snoc_space: "is_space c \<Longrightarrow> strip (s @ [c]) = strip s"
proof (cases "\<forall>x \<in> set s. is_space x")
  case True
  moreover assume "is_space c"
  ultimately have "lstrip (s @ [c]) = []" and "lstrip s = []" by (auto simp: lstrip_def)
  then show ?thesis by (simp add: strip_def)
next
  case False
  assume "is_space c"
  with False show ?thesis by (auto simp: strip_def lstrip_def dropWhile_append)
qed

lemma strip_append_spaces: "\<forall>c \<in> set t. is_space c \<Longrightarrow> strip (s @ t) = strip s"
proof (induction t rule: rev_induct)
  case (snoc c t)
  then have "strip ((s @ t) @ [c]) = strip (s @ t)" by (intro strip_snoc_space) simp
  with snoc show ?case by simp
qed simp

lemma strip_eq_Nil: "strip s = [] \<longleftrightarrow> (\<forall>c \<in> set s. is_space c)"
proof
  assume "strip s = []"
  then have all: "\<forall>c \<in> set (lstrip s). is_space c" by (simp add: strip_def rstrip_def)
  show "\<forall>c \<in> set s. is_space c"
  proof (cases "lstrip s = []")
    case False
    then have "\<not> is_space (hd (lstrip s))" unfolding lstrip_def using hd_dropWhile[of is_space s] by (simp del: dropWhile_eq_Nil_conv)
    with False all show ?thesis by simp
  qed (simp add: lstrip_def)
next
  assume "\<forall>c \<in> set s. is_space c"
  then show "strip s = []" using strip_append_spaces[of s "[]"] by simp
qed

definition rstripped :: "string \<Rightarrow> bool" where
  "rstripped s = (s = [] \<or> \<not> is_space (last s))"

section \<open>Prefixes and substrings\<close>

fun starts_with :: "string \<Rightarrow> string \<Rightarrow> bool" where
  "starts_with s [] = True"
| "starts_with [] (p # ps) = False"
| "starts_with (c # s) (p # ps) = (c = p \<and> starts_with s ps)"

lemma starts_with_iff: "starts_with s p \<longleftrightarrow> (\<exists>t. s = p @ t)"
  by (induction s p rule: starts_with.induct) auto

lemma starts_with_append [simp]: "starts_with (p @ t) p"
  by (auto simp: starts_with_iff)

definition ends_with :: "string \<Rightarrow> string \<Rightarrow> bool" where
  "ends_with s p = starts_with (rev s) (rev p)"

lemma ends_with_iff: "ends_with s p \<longleftrightarrow> (\<exists>t. s = t @ p)"
  by (auto simp: ends_with_def starts_with_iff) (metis rev_append rev_rev_ident)

text \<open>The text before and after the first occurrence of a separator.\<close>

fun partition_at :: "string \<Rightarrow> string \<Rightarrow> (string \<times> string) option" where
  "partition_at sep [] = (if sep = [] then Some ([], []) else None)"
| "partition_at sep (c # s) =
     (if starts_with (c # s) sep then Some ([], drop (length sep) (c # s))
      else map_option (\<lambda>(a, b). (c # a, b)) (partition_at sep s))"

definition contains :: "string \<Rightarrow> string \<Rightarrow> bool" where
  "contains sub s = (partition_at sub s \<noteq> None)"

lemma partition_at_eq: "partition_at sep s = Some (a, b) \<Longrightarrow> s = a @ sep @ b"
  by (induction sep s arbitrary: a rule: partition_at.induct)
    (auto simp: starts_with_iff split: if_splits)

lemma partition_at_None: "partition_at sep s = None \<Longrightarrow> s \<noteq> a @ sep @ b"
proof (induction sep s arbitrary: a rule: partition_at.induct)
  case (2 sep c s)
  then have ns: "\<not> starts_with (c # s) sep" and n: "partition_at sep s = None"
    by (auto split: if_splits)
  show ?case
  proof
    assume eq: "c # s = a @ sep @ b"
    show False
    proof (cases a)
      case Nil
      with eq ns show False by (metis append_Nil starts_with_append)
    next
      case (Cons x a')
      with eq have "s = a' @ sep @ b" by simp
      with "2.IH"[OF ns n] show False by blast
    qed
  qed
qed (auto split: if_splits)

lemma contains_iff: "contains sub s \<longleftrightarrow> (\<exists>a b. s = a @ sub @ b)"
  unfolding contains_def
  by (metis not_None_eq old.prod.exhaust partition_at_None partition_at_eq)

lemma contains_append: "contains sub s \<Longrightarrow> contains sub (s @ t)"
  by (auto simp: contains_iff) (metis append_assoc)

lemma contains_append2: "contains sub t \<Longrightarrow> contains sub (s @ t)"
  by (auto simp: contains_iff) (metis append_assoc)

lemma partition_at_length: "partition_at sep s = Some (a, b) \<Longrightarrow> sep \<noteq> [] \<Longrightarrow> length b < length s"
  by (auto dest!: partition_at_eq simp flip: length_greater_0_conv)

text \<open>For a one-character separator the first occurrence is where \<open>takeWhile\<close> stops.\<close>

lemma partition_at_char: "x \<notin> set a \<Longrightarrow> partition_at [x] (a @ x # b) = Some (a, b)"
  by (induction a) auto

lemma partition_at_char_None: "partition_at [x] s = None \<longleftrightarrow> x \<notin> set s"
  by (induction s) auto

lemma partition_at_char_Some:
  "partition_at [x] s = Some (a, b) \<longleftrightarrow> s = a @ x # b \<and> x \<notin> set a"
proof
  show "partition_at [x] s = Some (a, b) \<Longrightarrow> s = a @ x # b \<and> x \<notin> set a"
    by (induction s arbitrary: a) (auto split: if_splits)
qed (auto simp: partition_at_char)

lemma contains_char [simp]: "contains [x] s \<longleftrightarrow> x \<in> set s"
  by (simp add: contains_def partition_at_char_None)

lemma starts_with_pair: "starts_with s [x, y] \<longleftrightarrow> (\<exists>t. s = x # y # t)"
  by (simp add: starts_with_iff)

text \<open>Two different separator characters cannot overlap themselves.\<close>

lemma partition_at_pair:
  assumes "x \<noteq> y"
  shows "\<not> contains [x, y] a \<Longrightarrow> partition_at [x, y] (a @ x # y # b) = Some (a, b)"
proof (induction a)
  case (Cons c a)
  then have "\<not> contains [x, y] a"
    using contains_append2[of "[x, y]" a "[c]"] by auto
  moreover have "\<not> starts_with ((c # a) @ x # y # b) [x, y]"
  proof
    assume "starts_with ((c # a) @ x # y # b) [x, y]"
    then obtain a' where "c = x" "a = y # a'"
      using assms by (cases a) (auto simp: starts_with_pair)
    with Cons.prems show False
      by (simp add: contains_def)
  qed
  ultimately show ?case using Cons.IH by simp
qed simp

section \<open>Splitting and joining\<close>

function split_on :: "string \<Rightarrow> string \<Rightarrow> string list" where
  "split_on sep s =
     (if sep = [] then [s]
      else (case partition_at sep s of None \<Rightarrow> [s] | Some (a, b) \<Rightarrow> a # split_on sep b))"
  by pat_completeness auto
termination
  by (relation "measure (\<lambda>(sep, s). length s)") (auto dest: partition_at_length)

declare split_on.simps [simp del]

lemma split_on_None: "partition_at sep s = None \<Longrightarrow> split_on sep s = [s]"
  by (subst split_on.simps) simp

lemma split_on_Some: "sep \<noteq> [] \<Longrightarrow> partition_at sep s = Some (a, b) \<Longrightarrow> split_on sep s = a # split_on sep b"
  by (subst split_on.simps) simp

lemma split_on_nonempty [simp]: "split_on sep s \<noteq> []"
  by (subst split_on.simps) (auto split: option.splits)

text \<open>\<open>s.split(sep, n)\<close>: at most \<open>n\<close> cuts.\<close>

fun split_max :: "nat \<Rightarrow> string \<Rightarrow> string \<Rightarrow> string list" where
  "split_max 0 sep s = [s]"
| "split_max (Suc n) sep s =
     (case partition_at sep s of None \<Rightarrow> [s] | Some (a, b) \<Rightarrow> a # split_max n sep b)"

text \<open>\<open>s.rsplit(c, 1)\<close> for a one-character separator.\<close>

definition rpartition_char :: "char \<Rightarrow> string \<Rightarrow> (string \<times> string) option" where
  "rpartition_char c s =
     map_option (\<lambda>(a, b). (rev b, rev a)) (partition_at [c] (rev s))"

lemma rpartition_char_Some:
  "rpartition_char c s = Some (a, b) \<longleftrightarrow> s = a @ c # b \<and> c \<notin> set b"
proof -
  have "rpartition_char c s = Some (a, b) \<longleftrightarrow> partition_at [c] (rev s) = Some (rev b, rev a)"
    unfolding rpartition_char_def by (auto simp: rev_swap)
  also have "\<dots> \<longleftrightarrow> rev s = rev b @ c # rev a \<and> c \<notin> set b"
    by (simp add: partition_at_char_Some)
  also have "rev s = rev b @ c # rev a \<longleftrightarrow> s = a @ c # b"
    by (metis (no_types, lifting) append.assoc append_Cons append_Nil rev.simps(2) rev_append rev_rev_ident)
  finally show ?thesis .
qed

lemma rpartition_char_None: "rpartition_char c s = None \<longleftrightarrow> c \<notin> set s"
  by (simp add: rpartition_char_def partition_at_char_None)

text \<open>\<open>s.split()\<close>: the maximal runs of characters that are not white space.\<close>

function words :: "string \<Rightarrow> string list" where
  "words s =
     (let t = dropWhile is_space s
      in if t = [] then [] else takeWhile (\<lambda>c. \<not> is_space c) t # words (dropWhile (\<lambda>c. \<not> is_space c) t))"
  by pat_completeness auto
termination
proof (relation "measure length")
  fix s t :: string
  assume t: "t = dropWhile is_space s" and ne: "t \<noteq> []"
  then have "\<not> is_space (hd t)" by (metis dropWhile_eq_Nil_conv hd_dropWhile)
  with ne have "length (dropWhile (\<lambda>c. \<not> is_space c) t) < length t"
    by (rule length_dropWhile_less)
  with t show "(dropWhile (\<lambda>c. \<not> is_space c) t, s) \<in> measure length"
    using length_dropWhile_le[of is_space s] by auto
qed simp

declare words.simps [simp del]

definition word_ok :: "string \<Rightarrow> bool" where
  "word_ok w = (w \<noteq> [] \<and> (\<forall>c \<in> set w. \<not> is_space c))"

lemma words_Nil [simp]: "words [] = []"
  by (subst words.simps) simp

lemma words_space: "is_space c \<Longrightarrow> words (c # s) = words s"
  by (subst words.simps, subst (2) words.simps) simp

lemma words_word:
  assumes "word_ok w"
  shows "words w = [w]"
proof -
  from assms have "dropWhile is_space w = w" and "takeWhile (\<lambda>c. \<not> is_space c) w = w"
    and "dropWhile (\<lambda>c. \<not> is_space c) w = []"
    by (cases w; auto simp: word_ok_def)+
  with assms show ?thesis by (subst words.simps) (simp add: word_ok_def del: dropWhile_eq_Nil_conv)
qed

lemma words_word_space:
  assumes "word_ok w" and "is_space c"
  shows "words (w @ c # s) = w # words s"
proof -
  from assms have "dropWhile is_space (w @ c # s) = w @ c # s"
    and "takeWhile (\<lambda>c. \<not> is_space c) (w @ c # s) = w"
    and "dropWhile (\<lambda>c. \<not> is_space c) (w @ c # s) = c # s"
    by (cases w; auto simp: word_ok_def takeWhile_append_stop dropWhile_append_stop)+
  with assms show ?thesis
    by (subst words.simps) (simp add: words_space)
qed

fun join :: "string \<Rightarrow> string list \<Rightarrow> string" where
  "join sep [] = []"
| "join sep [x] = x"
| "join sep (x # y # ys) = x @ sep @ join sep (y # ys)"

lemma join_Cons: "ys \<noteq> [] \<Longrightarrow> join sep (x # ys) = x @ sep @ join sep ys"
  by (cases ys) auto

lemma join_append: "xs \<noteq> [] \<Longrightarrow> ys \<noteq> [] \<Longrightarrow> join sep (xs @ ys) = join sep xs @ sep @ join sep ys"
  by (induction sep xs rule: join.induct) (auto simp: join_Cons)

lemma hd_join: "x \<noteq> [] \<Longrightarrow> hd (join sep (x # xs)) = hd x"
  by (cases xs) auto

lemma last_join: "xs \<noteq> [] \<Longrightarrow> last xs \<noteq> [] \<Longrightarrow> last (join sep xs) = last (last xs) \<and> join sep xs \<noteq> []"
  by (induction sep xs rule: join.induct) auto

lemma stripped_join:
  assumes "ls \<noteq> []" and "\<And>l. l \<in> set ls \<Longrightarrow> l \<noteq> [] \<and> stripped l"
  shows "stripped (join sep ls) \<and> join sep ls \<noteq> []"
proof -
  obtain l k where l: "ls = l # k" using assms(1) by (cases ls) auto
  have "l \<noteq> []" "stripped l" "last ls \<noteq> []" "stripped (last ls)" using assms by (auto simp: l)
  then show ?thesis
    using last_join[of ls sep] hd_join[of l sep k] assms(1) by (auto simp: stripped_def l)
qed

lemma join_concat:
  assumes "xs \<noteq> []"
  shows "(\<And>ys. ys \<in> set yss \<Longrightarrow> ys \<noteq> []) \<Longrightarrow> join sep (xs @ map (join sep) yss) = join sep (xs @ concat yss)"
  using assms
proof (induction yss arbitrary: xs)
  case (Cons ys yss)
  have ne: "ys \<noteq> []" using Cons.prems by simp
  have "join sep (xs @ map (join sep) (ys # yss)) = join sep ((xs @ [join sep ys]) @ map (join sep) yss)"
    by simp
  also have "\<dots> = join sep ((xs @ [join sep ys]) @ concat yss)"
    using Cons.prems by (intro Cons.IH) auto
  also have "\<dots> = join sep ((xs @ ys) @ concat yss)"
    using ne Cons.prems(2) join_append[of "xs @ [join sep ys]" "concat yss" sep]
      join_append[of "xs @ ys" "concat yss" sep] join_append[of xs ys sep] join_append[of xs "[join sep ys]" sep]
    by (cases "concat yss = []") (simp_all del: append_assoc concat_eq_Nil_conv)
  finally show ?case by simp
qed simp

lemma words_join: "(\<And>w. w \<in> set ws \<Longrightarrow> word_ok w) \<Longrightarrow> words (join '' '' ws) = ws"
proof (induction "'' ''" ws rule: join.induct)
  case (3 x y ys)
  then show ?case by (simp add: words_word_space)
qed (auto simp: words_word)

lemma split_on_join_pair:
  assumes "x \<noteq> y"
  shows "ls \<noteq> [] \<Longrightarrow> (\<And>l. l \<in> set ls \<Longrightarrow> \<not> contains [x, y] l) \<Longrightarrow> split_on [x, y] (join [x, y] ls) = ls"
proof (induction "[x, y]" ls rule: join.induct)
  case (2 l)
  then have "partition_at [x, y] l = None" by (simp add: contains_def del: not_Some_eq not_None_eq)
  then show ?case by (simp add: split_on_None)
next
  case (3 l k ls)
  then have "partition_at [x, y] (l @ x # y # join [x, y] (k # ls)) = Some (l, join [x, y] (k # ls))"
    using assms by (intro partition_at_pair) auto
  with 3 show ?case by (simp add: split_on_Some)
qed simp

lemma split_on_char: "x \<notin> set a \<Longrightarrow> split_on [x] (a @ x # b) = a # split_on [x] b"
  by (simp add: partition_at_char split_on_Some)

lemma split_on_char_none: "x \<notin> set a \<Longrightarrow> split_on [x] a = [a]"
  by (intro split_on_None) (simp add: partition_at_char_None)

lemma split_on_join_char:
  "ls \<noteq> [] \<Longrightarrow> (\<And>l. l \<in> set ls \<Longrightarrow> x \<notin> set l) \<Longrightarrow> split_on [x] (join [x] ls) = ls"
  by (induction "[x]" ls rule: join.induct) (auto simp: split_on_char split_on_char_none)

lemma split_LF_join_CRLF:
  assumes "ls \<noteq> []" and "\<And>l. l \<in> set ls \<Longrightarrow> LF \<notin> set l"
  shows "split_on [LF] (join CRLF ls) = map (\<lambda>l. l @ [CR]) (butlast ls) @ [last ls]"
  using assms
proof (induction CRLF ls rule: join.induct)
  case (3 l k ls)
  then have "split_on [LF] ((l @ [CR]) @ LF # join CRLF (k # ls)) = (l @ [CR]) # split_on [LF] (join CRLF (k # ls))"
    by (intro split_on_char) auto
  with 3 show ?case by simp
qed (auto simp: split_on_char_none)

lemma contains_set: "contains sub s \<Longrightarrow> set sub \<subseteq> set s"
  by (auto simp: contains_iff)

lemma split_on_join_rest:
  assumes "ls \<noteq> []" and "\<And>l. l \<in> set ls \<Longrightarrow> CR \<notin> set l"
  shows "split_on CRLF (join CRLF ls @ CRLF @ t) = ls @ split_on CRLF t"
  using assms
proof (induction CRLF ls rule: join.induct)
  case (2 l)
  then have "partition_at CRLF (l @ CR # LF # t) = Some (l, t)"
    using contains_set[of CRLF l] by (intro partition_at_pair) auto
  then show ?case by (simp add: split_on_Some)
next
  case (3 l k ls)
  then have "partition_at CRLF (l @ CR # LF # join CRLF (k # ls) @ CR # LF # t) = Some (l, join CRLF (k # ls) @ CR # LF # t)"
    using contains_set[of CRLF l] by (intro partition_at_pair) auto
  with 3 show ?case by (simp add: split_on_Some)
qed simp

lemma join_split_on: "sep \<noteq> [] \<Longrightarrow> join sep (split_on sep s) = s"
proof (induction sep s rule: split_on.induct)
  case (1 sep s)
  then show ?case
    by (subst split_on.simps) (auto simp: join_Cons dest: partition_at_eq split: option.splits)
qed

text \<open>\<open>s.splitlines()\<close>\<close>

definition is_linebreak :: "char \<Rightarrow> bool" where
  "is_linebreak c = (let n = code c in (10 \<le> n \<and> n \<le> 13) \<or> (28 \<le> n \<and> n \<le> 30) \<or> n = 133)"

function splitlines_from :: "string \<Rightarrow> string \<Rightarrow> string list" where
  "splitlines_from acc [] = (if acc = [] then [] else [rev acc])"
| "splitlines_from acc (c # s) =
     (if is_linebreak c
      then rev acc # splitlines_from [] (if c = CR \<and> s \<noteq> [] \<and> hd s = LF then tl s else s)
      else splitlines_from (c # acc) s)"
  by pat_completeness auto
termination
  by (relation "measure (\<lambda>(acc, s). length s)") auto

definition splitlines :: "string \<Rightarrow> string list" where
  "splitlines s = splitlines_from [] s"

lemma splitlines_from_line:
  "(\<forall>c \<in> set l. \<not> is_linebreak c) \<Longrightarrow> splitlines_from acc (l @ s) = splitlines_from (rev l @ acc) s"
  by (induction l arbitrary: acc) auto

lemma splitlines_join_CRLF:
  assumes "\<And>l. l \<in> set ls \<Longrightarrow> l \<noteq> [] \<and> (\<forall>c \<in> set l. \<not> is_linebreak c)"
  shows "splitlines (join CRLF ls) = ls"
  using assms
proof (induction CRLF ls rule: join.induct)
  case (2 l)
  then show ?case using splitlines_from_line[of l "[]" "[]"] by (simp add: splitlines_def)
next
  case (3 l k ls)
  have "splitlines (join CRLF (k # ls)) = k # ls"
    using "3.prems" by (intro "3.hyps") auto
  moreover have "is_linebreak CR" by (simp add: is_linebreak_def code_def)
  moreover have "\<forall>c \<in> set l. \<not> is_linebreak c" using "3.prems"[of l] by simp
  ultimately show ?case
    using splitlines_from_line[of l "[]" "CRLF @ join CRLF (k # ls)"]
    by (simp add: splitlines_def)
qed (simp add: splitlines_def)

text \<open>\<open>s.replace(old, new)\<close>\<close>

definition replace :: "string \<Rightarrow> string \<Rightarrow> string \<Rightarrow> string" where
  "replace old new s = join new (split_on old s)"

section \<open>Decimal numbers\<close>

definition digit_char :: "nat \<Rightarrow> char" where
  "digit_char n = ''0123456789abcdef'' ! n"

definition digit_val :: "char \<Rightarrow> nat" where
  "digit_val c = code c - 48"

fun nat_str_base :: "nat \<Rightarrow> nat \<Rightarrow> string" where
  "nat_str_base b n =
     (if b < 2 \<or> n < b then [digit_char n] else nat_str_base b (n div b) @ [digit_char (n mod b)])"

declare nat_str_base.simps [simp del]

definition nat_str :: "nat \<Rightarrow> string" where
  "nat_str n = nat_str_base 10 n"

definition int_str :: "int \<Rightarrow> string" where
  "int_str i = (if i < 0 then CHR ''-'' # nat_str (nat (- i)) else nat_str (nat i))"

text \<open>\<open>f"{n:08x}"\<close>\<close>

definition hex08 :: "int \<Rightarrow> string" where
  "hex08 i = (let s = nat_str_base 16 (nat i) in replicate (8 - length s) (CHR ''0'') @ s)"

text \<open>\<open>int(s)\<close>: surrounding white space, a sign, digits with single underscores between them.\<close>

fun int_digits :: "nat \<Rightarrow> bool \<Rightarrow> string \<Rightarrow> nat option" where
  "int_digits acc prev [] = (if prev then Some acc else None)"
| "int_digits acc prev (c # s) =
     (if is_digit c then int_digits (10 * acc + digit_val c) True s
      else if c = CHR ''_'' \<and> prev then int_digits acc False s
      else None)"

definition int_of_str :: "string \<Rightarrow> int option" where
  "int_of_str s =
     (case strip s of
        [] \<Rightarrow> None
      | c # t \<Rightarrow>
          if c = CHR ''-'' then map_option (\<lambda>n. - int n) (int_digits 0 False t)
          else if c = CHR ''+'' then map_option int (int_digits 0 False t)
          else map_option int (int_digits 0 False (c # t)))"

abbreviation parse_int :: "string \<Rightarrow> int res" where
  "parse_int s \<equiv> raise_if_none ValueError (int_of_str s)"

lemma digit_char_digit: "n < 10 \<Longrightarrow> is_digit (digit_char n) \<and> digit_val (digit_char n) = n"
proof -
  have "list_all (\<lambda>k. is_digit (digit_char k) \<and> digit_val (digit_char k) = k) [0..<10]"
    by code_simp
  then show "n < 10 \<Longrightarrow> ?thesis" by (auto simp: list_all_iff)
qed

lemma nat_str_rec: "nat_str n = (if n < 10 then [digit_char n] else nat_str (n div 10) @ [digit_char (n mod 10)])"
  unfolding nat_str_def by (subst nat_str_base.simps) simp

lemma nat_str_induct [case_names less]:
  assumes step: "\<And>n. (\<not> n < 10 \<Longrightarrow> P (n div 10)) \<Longrightarrow> P n"
  shows "P (n::nat)"
proof (induction n rule: less_induct)
  case (less n)
  show ?case
  proof (rule step)
    assume "\<not> n < 10"
    then have "n div 10 < n" by simp
    then show "P (n div 10)" by (rule less)
  qed
qed

lemma nat_str_digits: "\<forall>c \<in> set (nat_str n). is_digit c"
proof (induction n rule: nat_str_induct)
  case (less n)
  then show ?case
    by (cases "n < 10") (auto simp: nat_str_rec[of n] digit_char_digit)
qed

lemma nat_str_nonempty [simp]: "nat_str n \<noteq> []"
  by (subst nat_str_rec) simp

text \<open>On digits alone \<open>int(s)\<close> is the usual positional value.\<close>

definition dec_value :: "nat \<Rightarrow> string \<Rightarrow> nat" where
  "dec_value acc s = fold (\<lambda>c a. 10 * a + digit_val c) s acc"

lemma int_digits_all:
  "\<forall>c \<in> set s. is_digit c \<Longrightarrow> s \<noteq> [] \<or> prev \<Longrightarrow> int_digits acc prev s = Some (dec_value acc s)"
  by (induction s arbitrary: acc prev) (auto simp: dec_value_def)

lemma dec_value_nat_str: "dec_value 0 (nat_str n) = n"
proof (induction n rule: nat_str_induct)
  case (less n)
  then show ?case
    by (cases "n < 10") (auto simp: nat_str_rec[of n] dec_value_def digit_char_digit)
qed

lemma nat_str_stripped: "stripped (nat_str n)"
  using nat_str_digits[of n] by (auto simp: stripped_def digit_not_space)

lemma digit_not_sign: "is_digit c \<Longrightarrow> c \<noteq> CHR ''-'' \<and> c \<noteq> CHR ''+''"
  by (auto simp: char_class_defs)

lemma int_of_digits:
  assumes "s \<noteq> []" and "\<forall>c \<in> set s. is_digit c"
  shows "int_of_str s = Some (int (dec_value 0 s))"
proof -
  obtain c t where s: "s = c # t" using assms(1) by (cases s) auto
  have "stripped s" using assms by (auto simp: stripped_def digit_not_space)
  then have "strip s = c # t" by (simp add: strip_id s)
  moreover have "c \<noteq> CHR ''-''" and "c \<noteq> CHR ''+''"
    using assms(2) digit_not_sign[of c] by (simp_all add: s)
  moreover have "int_digits 0 False (c # t) = Some (dec_value 0 s)"
    using int_digits_all[of s False 0] assms by (simp add: s)
  ultimately show ?thesis by (simp add: int_of_str_def)
qed

lemma int_of_nat_str [simp]: "int_of_str (nat_str n) = Some (int n)"
  by (simp add: int_of_digits nat_str_digits dec_value_nat_str)

text \<open>\<open>int(str(i)) == i\<close>\<close>

lemma int_of_int_str [simp]: "int_of_str (int_str i) = Some i"
proof (cases "i < 0")
  case True
  have "stripped (CHR ''-'' # nat_str (nat (- i)))"
    using nat_str_digits[of "nat (- i)"] digit_not_space[of "last (nat_str (nat (- i)))"]
    by (simp add: stripped_def is_space_def code_def)
  then have "strip (CHR ''-'' # nat_str (nat (- i))) = CHR ''-'' # nat_str (nat (- i))"
    by (rule strip_id)
  with True show ?thesis
    by (simp add: int_str_def int_of_str_def int_digits_all nat_str_digits dec_value_nat_str)
qed (simp add: int_str_def)

lemma int_str_word: "word_ok (int_str i)"
proof -
  have "\<not> is_space (CHR ''-'')" by (simp add: char_class_defs)
  then show ?thesis
    using nat_str_digits by (auto simp: word_ok_def int_str_def digit_not_space)
qed

lemma int_str_nonempty [simp]: "int_str i \<noteq> []"
  using int_str_word[of i] by (simp add: word_ok_def)

lemma int_str_nat: "0 \<le> i \<Longrightarrow> int_str i = nat_str (nat i)"
  by (simp add: int_str_def)

lemma nat_str_inj: "nat_str m = nat_str n \<Longrightarrow> m = n"
  by (metis dec_value_nat_str)

lemma int_str_inj: "int_str i = int_str j \<longleftrightarrow> i = j"
  by (metis int_of_int_str option.inject)

text \<open>No digit or sign is one of the separators of the text formats.\<close>

lemma int_str_chars: "c \<in> set (int_str i) \<Longrightarrow> is_digit c \<or> c = CHR ''-''"
  using nat_str_digits by (auto simp: int_str_def split: if_splits)

section \<open>UTF-8\<close>

type_synonym byte = nat

text \<open>Encoding one character: code points below 128 take one byte, the others here two.\<close>

definition utf8_char :: "char \<Rightarrow> byte list" where
  "utf8_char c = (let n = code c in if n < 128 then [n] else [192 + n div 64, 128 + n mod 64])"

definition utf8_encode :: "string \<Rightarrow> byte list" where
  "utf8_encode s = concat (map utf8_char s)"

text \<open>
  Decoding with \<open>errors="ignore"\<close> or \<open>"replace"\<close>. A lead byte fixes how many continuation bytes follow
  and the range of the first of them; an ill-formed sequence ends before the byte that broke it. A code point
  above 255 is represented by the substitute character (code 26).
\<close>

definition utf8_lead :: "byte \<Rightarrow> (nat \<times> nat \<times> nat \<times> nat) option" where
  "utf8_lead b =
     (if 194 \<le> b \<and> b \<le> 223 then Some (1, b - 192, 128, 191)
      else if b = 224 then Some (2, 0, 160, 191)
      else if (225 \<le> b \<and> b \<le> 236) \<or> b = 238 \<or> b = 239 then Some (2, b - 224, 128, 191)
      else if b = 237 then Some (2, 13, 128, 159)
      else if b = 240 then Some (3, 0, 144, 191)
      else if 241 \<le> b \<and> b \<le> 243 then Some (3, b - 240, 128, 191)
      else if b = 244 then Some (3, 4, 128, 143)
      else None)"

fun utf8_cont :: "nat \<Rightarrow> nat \<Rightarrow> nat \<Rightarrow> nat \<Rightarrow> byte list \<Rightarrow> nat option \<times> byte list" where
  "utf8_cont 0 acc lo hi bs = (Some acc, bs)"
| "utf8_cont (Suc k) acc lo hi [] = (None, [])"
| "utf8_cont (Suc k) acc lo hi (b # bs) =
     (if lo \<le> b \<and> b \<le> hi then utf8_cont k (64 * acc + (b - 128)) 128 191 bs else (None, b # bs))"

lemma utf8_cont_length: "length (snd (utf8_cont k acc lo hi bs)) \<le> length bs"
  by (induction k acc lo hi bs rule: utf8_cont.induct) auto

definition char_of_point :: "nat \<Rightarrow> char" where
  "char_of_point n = (if n < 256 then char_of n else CHR 0x1A)"

text \<open>The first argument is what stands for one ill-formed sequence: nothing, or a substitute.\<close>

function utf8_decode :: "string \<Rightarrow> byte list \<Rightarrow> string" where
  "utf8_decode bad [] = []"
| "utf8_decode bad (b # bs) =
     (if b < 128 then char_of b # utf8_decode bad bs
      else case utf8_lead b of
        None \<Rightarrow> bad @ utf8_decode bad bs
      | Some (k, acc, lo, hi) \<Rightarrow>
          (let r = utf8_cont k acc lo hi bs in
           (case fst r of None \<Rightarrow> bad | Some p \<Rightarrow> [char_of_point p]) @ utf8_decode bad (snd r)))"
  by pat_completeness auto
termination
  by (relation "measure (\<lambda>(_, bs). length bs)") (auto simp: less_Suc_eq_le utf8_cont_length)

abbreviation utf8_decode_ignore :: "byte list \<Rightarrow> string" where
  "utf8_decode_ignore \<equiv> utf8_decode []"

abbreviation utf8_decode_replace :: "byte list \<Rightarrow> string" where
  "utf8_decode_replace \<equiv> utf8_decode [CHR 0x1A]"

lemma char_of_code [simp]: "char_of (code c) = c"
  by (simp add: code_def)

lemma code_less [simp]: "code c < 256"
  using nat_of_char_less_256[of c] by (simp add: code_def)

lemma utf8_decode_char: "utf8_decode bad (utf8_char c @ bs) = c # utf8_decode bad bs"
proof (cases "code c < 128")
  case True
  then show ?thesis by (simp add: utf8_char_def)
next
  case False
  define d m where "d = code c div 64" and "m = code c mod 64"
  have lt: "code c < 256" by simp
  with False have "2 \<le> d" and "d < 4" by (auto simp: d_def less_mult_imp_div_less)
  then have lead: "utf8_lead (192 + d) = Some (1, d, 128, 191)" by (simp add: utf8_lead_def)
  have "m < 64" by (simp add: m_def)
  then have cont: "utf8_cont 1 d 128 191 ((128 + m) # bs) = (Some (64 * d + m), bs)" by simp
  have p: "char_of_point (64 * d + m) = c" using lt by (simp add: d_def m_def char_of_point_def)
  have "utf8_char c @ bs = (192 + d) # (128 + m) # bs" using False
    by (simp add: utf8_char_def d_def m_def Let_def)
  also have "utf8_decode bad \<dots> = c # utf8_decode bad bs"
    by (simp only: utf8_decode.simps(2)[of bad "192 + d"] lead cont p Let_def option.case prod.case fst_conv snd_conv)
      simp
  finally show ?thesis .
qed

text \<open>What UTF-8 encodes, decoding gives back.\<close>

lemma utf8_roundtrip [simp]: "utf8_decode bad (utf8_encode s) = s"
  by (induction s) (auto simp: utf8_encode_def utf8_decode_char)

lemma utf8_encode_Nil [simp]: "utf8_encode [] = []"
  by (simp add: utf8_encode_def)

lemma utf8_encode_append [simp]: "utf8_encode (s @ t) = utf8_encode s @ utf8_encode t"
  by (simp add: utf8_encode_def)

lemma utf8_encode_ascii: "\<forall>c \<in> set s. code c < 128 \<Longrightarrow> utf8_encode s = map code s"
  by (induction s) (auto simp: utf8_encode_def utf8_char_def)

text \<open>Evaluating case folding on literals.\<close>

lemmas lower_eval = lower_def lower_char_def is_upper_def code_def char_of_def bit_0

end
