(* ===== verification/Py_Regex.thy ===== *)
theory Py_Regex
  imports Py_Strings
begin

text \<open>
  The fragment of Python's \<open>re\<close> module that the code uses: classes of characters, their greedy
  repetition, sequences, alternatives, optional parts, numbered groups and the end anchor. A match
  function returns every way an expression matches at the start of a text, in the order in which
  Python's backtracking tries them, so the first element of the list is the match Python reports.
\<close>

section \<open>Expressions and their matches\<close>

datatype rx =
    REps
  | RChr "char \<Rightarrow> bool"
  | RRep1 "char \<Rightarrow> bool"
  | RRep0 "char \<Rightarrow> bool"
  | RSeq rx rx
  | RAlt rx rx
  | ROpt rx
  | RGrp nat rx
  | REnd

type_synonym groups = "(nat, string) dict"

text \<open>A match: the text consumed, the text that follows it, the groups captured so far.\<close>

type_synonym rx_result = "string \<times> string \<times> groups"

fun rx_match :: "rx \<Rightarrow> string \<Rightarrow> groups \<Rightarrow> rx_result list" where
  "rx_match REps s g = [([], s, g)]"
| "rx_match (RChr p) s g = (case s of [] \<Rightarrow> [] | c # t \<Rightarrow> if p c then [([c], t, g)] else [])"
| "rx_match (RRep1 p) s g =
     map (\<lambda>k. (take k s, drop k s, g)) (rev [1..<Suc (length (takeWhile p s))])"
| "rx_match (RRep0 p) s g =
     map (\<lambda>k. (take k s, drop k s, g)) (rev [0..<Suc (length (takeWhile p s))])"
| "rx_match (RSeq a b) s g =
     concat (map (\<lambda>(u, r, g'). map (\<lambda>(v, r', g''). (u @ v, r', g'')) (rx_match b r g'))
       (rx_match a s g))"
| "rx_match (RAlt a b) s g = rx_match a s g @ rx_match b s g"
| "rx_match (ROpt a) s g = rx_match a s g @ [([], s, g)]"
| "rx_match (RGrp n a) s g = map (\<lambda>(u, r, g'). (u, r, dict_set n u g')) (rx_match a s g)"
| "rx_match REnd s g = (if s = [] \<or> s = [LF] then [([], s, g)] else [])"

definition rx_first :: "rx \<Rightarrow> string \<Rightarrow> rx_result option" where
  "rx_first r s = (case rx_match r s [] of [] \<Rightarrow> None | m # _ \<Rightarrow> Some m)"

text \<open>\<open>re.search\<close>: the first match at the leftmost position that has one.\<close>

fun rx_search :: "rx \<Rightarrow> string \<Rightarrow> rx_result option" where
  "rx_search r [] = rx_first r []"
| "rx_search r (c # s) = (case rx_first r (c # s) of None \<Rightarrow> rx_search r s | Some m \<Rightarrow> Some m)"

text \<open>
  \<open>re.finditer\<close> and \<open>re.sub\<close>, for expressions that match no empty text: every match consumes at
  least one character, and scanning goes on behind it.
\<close>

function rx_finditer :: "rx \<Rightarrow> string \<Rightarrow> groups list" where
  "rx_finditer r s =
     (case s of
        [] \<Rightarrow> []
      | c # t \<Rightarrow>
          (case rx_first r s of
             None \<Rightarrow> rx_finditer r t
           | Some (u, _, g) \<Rightarrow> if u = [] then rx_finditer r t else g # rx_finditer r (drop (length u) s)))"
  by pat_completeness auto
termination
  by (relation "measure (\<lambda>(r, s). length s)") (auto simp flip: length_greater_0_conv)

function rx_sub :: "rx \<Rightarrow> string \<Rightarrow> string \<Rightarrow> string" where
  "rx_sub r new s =
     (case s of
        [] \<Rightarrow> []
      | c # t \<Rightarrow>
          (case rx_first r s of
             None \<Rightarrow> c # rx_sub r new t
           | Some (u, _, g) \<Rightarrow> if u = [] then c # rx_sub r new t else new @ rx_sub r new (drop (length u) s)))"
  by pat_completeness auto
termination
  by (relation "measure (\<lambda>(r, new, s). length s)") (auto simp flip: length_greater_0_conv)

declare rx_finditer.simps [simp del] rx_sub.simps [simp del]

definition group_of :: "rx_result \<Rightarrow> nat \<Rightarrow> string option" where
  "group_of m n = dict_get (snd (snd m)) n"

section \<open>Building blocks\<close>

definition rx_lit :: "string \<Rightarrow> rx" where
  "rx_lit s = foldr (\<lambda>c r. RSeq (RChr (\<lambda>x. x = c)) r) s REps"

definition rx_lit_ci :: "string \<Rightarrow> rx" where
  "rx_lit_ci s = foldr (\<lambda>c r. RSeq (RChr (\<lambda>x. lower_char x = lower_char c)) r) s REps"

fun rx_seq :: "rx list \<Rightarrow> rx" where
  "rx_seq [] = REps"
| "rx_seq [r] = r"
| "rx_seq (r # q # rs) = RSeq r (rx_seq (q # rs))"

definition not_in :: "string \<Rightarrow> char \<Rightarrow> bool" where
  "not_in cs c = (c \<notin> set cs)"

section \<open>Facts\<close>

lemma rx_match_split: "(u, r, g') \<in> set (rx_match e s g) \<Longrightarrow> s = u @ r"
  by (induction e arbitrary: u r g g' s)
    (fastforce split: list.splits if_splits)+

lemma rx_first_split: "rx_first e s = Some (u, r, g) \<Longrightarrow> s = u @ r"
  using rx_match_split[of u r g e s "[]"] by (auto simp: rx_first_def split: list.splits)

lemma rx_first_None: "rx_first e s = None \<longleftrightarrow> rx_match e s [] = []"
  by (simp add: rx_first_def split: list.split)

lemma rx_match_lit: "rx_match (rx_lit p) s g = (if starts_with s p then [(p, drop (length p) s, g)] else [])"
proof (induction p arbitrary: s)
  case (Cons c p)
  have "rx_lit (c # p) = RSeq (RChr (\<lambda>x. x = c)) (rx_lit p)" by (simp add: rx_lit_def)
  with Cons show ?case by (cases s) auto
qed (simp add: rx_lit_def)

lemma rep1_all: "rx_match (RRep1 p) s g = [] \<longleftrightarrow> takeWhile p s = []"
  by (cases "takeWhile p s") simp_all

text \<open>A greedy repetition tries the longest run first.\<close>

lemma rep1_first:
  assumes "takeWhile p s \<noteq> []"
  shows "\<exists>ms. rx_match (RRep1 p) s g = (takeWhile p s, dropWhile p s, g) # ms"
proof -
  obtain n where n: "length (takeWhile p s) = Suc n" using assms by (cases "takeWhile p s") auto
  have "take (Suc n) s = takeWhile p s" and "drop (Suc n) s = dropWhile p s"
    by (metis n takeWhile_eq_take) (metis n dropWhile_eq_drop)
  moreover have "rev [1..<Suc (Suc n)] = Suc n # rev [1..<Suc n]" by simp
  ultimately show ?thesis by (simp add: n del: upt_Suc)
qed

lemma rep0_first: "\<exists>ms. rx_match (RRep0 p) s g = (takeWhile p s, dropWhile p s, g) # ms"
proof -
  define n where "n = length (takeWhile p s)"
  have "take n s = takeWhile p s" and "drop n s = dropWhile p s"
    by (metis n_def takeWhile_eq_take) (metis n_def dropWhile_eq_drop)
  moreover have "rev [0..<Suc n] = n # rev [0..<n]" by simp
  ultimately show ?thesis by (simp add: n_def[symmetric] del: upt_Suc)
qed

text \<open>The idiom \<open>key([class]+)\<close>: a literal key and a captured run.\<close>

definition rx_param :: "string \<Rightarrow> (char \<Rightarrow> bool) \<Rightarrow> rx" where
  "rx_param key p = RSeq (rx_lit key) (RGrp 1 (RRep1 p))"

lemma rx_param_first:
  "rx_first (rx_param key p) s =
     (if starts_with s key \<and> takeWhile p (drop (length key) s) \<noteq> []
      then Some (key @ takeWhile p (drop (length key) s), dropWhile p (drop (length key) s),
        [(1, takeWhile p (drop (length key) s))])
      else None)"
proof (cases "starts_with s key \<and> takeWhile p (drop (length key) s) \<noteq> []")
  case True
  obtain ms where "rx_match (RRep1 p) (drop (length key) s) [] =
      (takeWhile p (drop (length key) s), dropWhile p (drop (length key) s), []) # ms"
    using rep1_first True by blast
  with True show ?thesis
    by (simp add: rx_first_def rx_param_def rx_match_lit del: rx_match.simps(3))
next
  case False
  then have "starts_with s key \<Longrightarrow> rx_match (RRep1 p) (drop (length key) s) [] = []"
    by (simp only: rep1_all) blast
  with False show ?thesis
    by (auto simp: rx_first_def rx_param_def rx_match_lit simp del: rx_match.simps(3))
qed

lemma rx_param_search:
  assumes "partition_at key s = Some (a, b)" and "key \<noteq> []" and "takeWhile p b \<noteq> []"
  shows "rx_search (rx_param key p) s = Some (key @ takeWhile p b, dropWhile p b, [(1, takeWhile p b)])"
  using assms(1)
proof (induction s arbitrary: a)
  case Nil
  with assms(2) show ?case by simp
next
  case (Cons c s)
  show ?case
  proof (cases "starts_with (c # s) key")
    case True
    with Cons.prems assms(3) show ?thesis by (simp add: rx_param_first)
  next
    case False
    with Cons.prems obtain a' where "partition_at key s = Some (a', b)" by auto
    with Cons.IH False show ?thesis by (simp add: rx_param_first)
  qed
qed

lemma rx_param_search_None:
  assumes "partition_at key s = None"
  shows "rx_search (rx_param key p) s = None"
  using assms by (induction s) (auto simp: rx_param_first split: if_splits)

lemma rx_param_group: "rx_search (rx_param key p) s = Some m \<Longrightarrow>
  \<exists>v. group_of m 1 = Some v \<and> v \<noteq> [] \<and> (\<forall>c \<in> set v. p c)"
  by (induction s) (auto simp: rx_param_first group_of_def dest: set_takeWhileD split: if_splits option.splits)

text \<open>Substituting the text of \<open>key[class]+\<close>, a key and a run that is not captured.\<close>

lemma rx_sub_Nil [simp]: "rx_sub r new [] = []"
  by (subst rx_sub.simps) simp

lemma rx_sub_None: "rx_first r (c # t) = None \<Longrightarrow> rx_sub r new (c # t) = c # rx_sub r new t"
  by (subst rx_sub.simps) simp

lemma rx_sub_hit: "rx_first r s = Some (u, t, g) \<Longrightarrow> u \<noteq> [] \<Longrightarrow> rx_sub r new s = new @ rx_sub r new t"
proof -
  assume m: "rx_first r s = Some (u, t, g)" and u: "u \<noteq> []"
  from m have s: "s = u @ t" by (rule rx_first_split)
  with u obtain c s' where cs: "s = c # s'" by (cases u) auto
  have "drop (length u) s = t" by (simp add: s)
  with m u cs show ?thesis by (subst rx_sub.simps) simp
qed

lemma rx_first_run:
  "rx_first (RSeq (rx_lit key) (RRep1 p)) s =
     (if starts_with s key \<and> takeWhile p (drop (length key) s) \<noteq> []
      then Some (key @ takeWhile p (drop (length key) s), dropWhile p (drop (length key) s), [])
      else None)"
proof (cases "starts_with s key \<and> takeWhile p (drop (length key) s) \<noteq> []")
  case True
  obtain ms where "rx_match (RRep1 p) (drop (length key) s) [] =
      (takeWhile p (drop (length key) s), dropWhile p (drop (length key) s), []) # ms"
    using rep1_first True by blast
  with True show ?thesis
    by (simp add: rx_first_def rx_match_lit del: rx_match.simps(3))
next
  case False
  then have "starts_with s key \<Longrightarrow> rx_match (RRep1 p) (drop (length key) s) [] = []"
    by (simp only: rep1_all) blast
  with False show ?thesis
    by (auto simp: rx_first_def rx_match_lit simp del: rx_match.simps(3))
qed

lemma rx_sub_run_None:
  "partition_at key s = None \<Longrightarrow> rx_sub (RSeq (rx_lit key) (RRep1 p)) new s = s"
  by (induction s) (auto simp: rx_first_run rx_sub_None split: if_splits)

lemma rx_sub_run:
  assumes "partition_at key s = Some (a, b)" and "key \<noteq> []" and "takeWhile p b \<noteq> []"
  shows "rx_sub (RSeq (rx_lit key) (RRep1 p)) new s =
     a @ new @ rx_sub (RSeq (rx_lit key) (RRep1 p)) new (dropWhile p b)"
  using assms(1)
proof (induction s arbitrary: a)
  case Nil
  with assms(2) show ?case by simp
next
  case (Cons c s)
  show ?case
  proof (cases "starts_with (c # s) key")
    case True
    then have "rx_first (RSeq (rx_lit key) (RRep1 p)) (c # s) = Some (key @ takeWhile p b, dropWhile p b, [])"
      and "a = []"
      using Cons.prems assms(3) by (auto simp: rx_first_run)
    with assms(2) show ?thesis by (simp add: rx_sub_hit)
  next
    case False
    with Cons.prems obtain a' where "partition_at key s = Some (a', b)" "a = c # a'" by auto
    with Cons.IH False show ?thesis by (simp add: rx_sub_None rx_first_run)
  qed
qed

text \<open>\<open>re.search("[class]", s)\<close> finds something iff a character of the class occurs.\<close>

lemma rx_search_class: "rx_search (RChr p) s \<noteq> None \<longleftrightarrow> (\<exists>c \<in> set s. p c)"
  by (induction s) (auto simp: rx_first_def)

text \<open>\<open>re.match("^[class]+$", s)\<close> on a text with no line feed at its end.\<close>

lemma rx_whole_class:
  assumes "s = [] \<or> last s \<noteq> LF"
  shows "rx_first (RSeq (RRep1 p) REnd) s \<noteq> None \<longleftrightarrow> s \<noteq> [] \<and> (\<forall>c \<in> set s. p c)"
proof
  assume "rx_first (RSeq (RRep1 p) REnd) s \<noteq> None"
  then have "\<exists>m. m \<in> set (rx_match (RSeq (RRep1 p) REnd) s [])"
    unfolding rx_first_None by (metis hd_in_set)
  then obtain k where k: "1 \<le> k" "k \<le> length (takeWhile p s)" "drop k s = [] \<or> drop k s = [LF]"
    by (auto split: if_splits)
  have "drop k s \<noteq> [LF]"
  proof
    assume d: "drop k s = [LF]"
    then have "s = take k s @ [LF]" by (metis append_take_drop_id)
    then have "s \<noteq> []" and "last s = LF" by (metis snoc_eq_iff_butlast)+
    with assms show False by simp
  qed
  with k(3) have "length s \<le> k" by simp
  with k(2) have "length s \<le> length (takeWhile p s)" by linarith
  then have "takeWhile p s = s" by (metis take_all takeWhile_eq_take)
  then have "\<forall>c \<in> set s. p c" by (metis set_takeWhileD)
  moreover have "s \<noteq> []" using k by auto
  ultimately show "s \<noteq> [] \<and> (\<forall>c \<in> set s. p c)" by simp
next
  assume s: "s \<noteq> [] \<and> (\<forall>c \<in> set s. p c)"
  then have tw: "takeWhile p s = s" and dw: "dropWhile p s = []" by auto
  obtain ms where "rx_match (RRep1 p) s [] = (s, [], []) # ms"
    using rep1_first[of p s "[]"] s tw dw by auto
  then show "rx_first (RSeq (RRep1 p) REnd) s \<noteq> None"
    by (simp add: rx_first_def del: rx_match.simps(3))
qed

section \<open>First matches of compound expressions\<close>

text \<open>What the expression matches first, without listing the other ways.\<close>

definition rx_begins :: "rx \<Rightarrow> string \<Rightarrow> groups \<Rightarrow> rx_result \<Rightarrow> bool" where
  "rx_begins e s g m = (\<exists>ms. rx_match e s g = m # ms)"

lemma begins_first: "rx_begins e s [] m \<Longrightarrow> rx_first e s = Some m"
  by (auto simp: rx_begins_def rx_first_def)

lemma begins_seq:
  "rx_begins a s g (u, r, g') \<Longrightarrow> rx_begins b r g' (v, r', g'') \<Longrightarrow> rx_begins (RSeq a b) s g (u @ v, r', g'')"
  by (auto simp: rx_begins_def)

lemma begins_grp: "rx_begins a s g (u, r, g') \<Longrightarrow> rx_begins (RGrp n a) s g (u, r, dict_set n u g')"
  by (auto simp: rx_begins_def)

lemma begins_alt1: "rx_begins a s g m \<Longrightarrow> rx_begins (RAlt a b) s g m"
  by (auto simp: rx_begins_def)

lemma begins_alt2: "rx_match a s g = [] \<Longrightarrow> rx_begins b s g m \<Longrightarrow> rx_begins (RAlt a b) s g m"
  by (auto simp: rx_begins_def)

lemma begins_chr: "p c \<Longrightarrow> rx_begins (RChr p) (c # s) g ([c], s, g)"
  by (simp add: rx_begins_def)

lemma begins_rep1:
  assumes "w \<noteq> []" and "\<forall>c \<in> set w. p c" and "s = [] \<or> \<not> p (hd s)"
  shows "rx_begins (RRep1 p) (w @ s) g (w, s, g)"
proof -
  have "takeWhile p (w @ s) = w" "dropWhile p (w @ s) = s"
    using assms(2,3) by (cases s; simp)+
  with rep1_first[of p "w @ s" g] assms(1) show ?thesis by (simp add: rx_begins_def del: rx_match.simps(3))
qed

lemma begins_lit: "rx_begins (rx_lit p) (p @ s) g (p, s, g)"
  by (simp add: rx_begins_def rx_match_lit starts_with_iff)

lemma begins_opt_none: "rx_match a s g = [] \<Longrightarrow> rx_begins (ROpt a) s g ([], s, g)"
  by (simp add: rx_begins_def)

lemma begins_opt_some: "rx_begins a s g m \<Longrightarrow> rx_begins (ROpt a) s g m"
  by (auto simp: rx_begins_def)

lemma begins_rep0:
  assumes "\<forall>c \<in> set w. p c" and "s = [] \<or> \<not> p (hd s)"
  shows "rx_begins (RRep0 p) (w @ s) g (w, s, g)"
proof -
  have "takeWhile p (w @ s) = w" "dropWhile p (w @ s) = s"
    using assms by (cases s; simp)+
  with rep0_first[of p "w @ s" g] show ?thesis by (simp add: rx_begins_def del: rx_match.simps(4))
qed

lemma begins_end: "rx_begins REnd [] g ([], [], g)"
  by (simp add: rx_begins_def)

lemma rx_match_lit_ci:
  "rx_match (rx_lit_ci p) s g = (if starts_with (lower s) (lower p) then [(take (length p) s, drop (length p) s, g)] else [])"
proof (induction p arbitrary: s)
  case (Cons c p)
  have "rx_lit_ci (c # p) = RSeq (RChr (\<lambda>x. lower_char x = lower_char c)) (rx_lit_ci p)" by (simp add: rx_lit_ci_def)
  with Cons show ?case by (cases s) auto
qed (simp add: rx_lit_ci_def)

lemma begins_lit_ci: "rx_begins (rx_lit_ci p) (p @ s) g (p, s, g)"
  by (simp add: rx_begins_def rx_match_lit_ci starts_with_iff)

text \<open>An expression that begins with a literal does not match a text that does not.\<close>

lemma rx_lit_fails: "\<not> starts_with s p \<Longrightarrow> rx_match (RSeq (rx_lit p) r) s g = []"
  by (simp add: rx_match_lit)

lemma finditer_Nil [simp]: "rx_finditer r [] = []"
  by (subst rx_finditer.simps) simp

lemma finditer_skip: "rx_first r (c # t) = None \<Longrightarrow> rx_finditer r (c # t) = rx_finditer r t"
  by (subst rx_finditer.simps) simp

lemma finditer_hit:
  assumes "rx_first r s = Some (u, t, g)" and "u \<noteq> []"
  shows "rx_finditer r s = g # rx_finditer r t"
proof -
  have s: "s = u @ t" using assms(1) by (rule rx_first_split)
  obtain c s' where "s = c # s'" using s assms(2) by (cases u) auto
  moreover have "drop (length u) s = t" by (simp add: s)
  ultimately show ?thesis using assms by (subst rx_finditer.simps) simp
qed

end
