(* ===== verification/Sdp_Session.thy ===== *)
theory Sdp_Session
  imports Py_Regex
begin

text \<open>
  The session descriptions of \<open>tinysip/sdp.py\<close>, first part: codecs, attributes, media and sessions
  with their text form, the line parser \<open>SDPSession.parse\<close>, validation, and the simple negotiator
  \<open>SDPNegotiator\<close>. The clock that stamps session identifiers is an argument (\<open>now\<close>, the value of
  \<open>int(time.time())\<close>).
\<close>

section \<open>Data\<close>

datatype SDPMediaType = AUDIO | VIDEO | APPLICATION | DATA | CONTROL

fun media_type_value :: "SDPMediaType \<Rightarrow> string" where
  "media_type_value AUDIO = ''audio''"
| "media_type_value VIDEO = ''video''"
| "media_type_value APPLICATION = ''application''"
| "media_type_value DATA = ''data''"
| "media_type_value CONTROL = ''control''"

text \<open>\<open>SDPMediaType(s)\<close>: the member with that value, or ValueError.\<close>

definition media_type_of :: "string \<Rightarrow> SDPMediaType res" where
  "media_type_of s =
     (if s = ''audio'' then Inr AUDIO else if s = ''video'' then Inr VIDEO
      else if s = ''application'' then Inr APPLICATION else if s = ''data'' then Inr DATA
      else if s = ''control'' then Inr CONTROL else Inl ValueError)"

datatype SDPCodecName = PCMU | PCMA | G722 | G729 | OPUS | TELEPHONE_EVENT | H264 | VP8 | VP9

fun codec_name_value :: "SDPCodecName \<Rightarrow> string" where
  "codec_name_value PCMU = ''PCMU''"
| "codec_name_value PCMA = ''PCMA''"
| "codec_name_value G722 = ''G722''"
| "codec_name_value G729 = ''G729''"
| "codec_name_value OPUS = ''OPUS''"
| "codec_name_value TELEPHONE_EVENT = ''telephone-event''"
| "codec_name_value H264 = ''H264''"
| "codec_name_value VP8 = ''VP8''"
| "codec_name_value VP9 = ''VP9''"

record SDPCodec =
  codec_name :: string
  clock :: int
  channels :: int
  codec_fmtp :: "(string, string) dict"
  static_pt :: "int option"

definition codec_from_enum ::
  "SDPCodecName \<Rightarrow> int \<Rightarrow> int \<Rightarrow> (string, string) dict option \<Rightarrow> int option \<Rightarrow> SDPCodec" where
  "codec_from_enum c clk ch f pt =
     \<lparr>codec_name = codec_name_value c, clock = clk, channels = ch,
      codec_fmtp = (case f of None \<Rightarrow> [] | Some d \<Rightarrow> d), static_pt = pt\<rparr>"

record SDPAttribute =
  attr_name :: string
  attr_value :: "string option"

definition attribute_str :: "SDPAttribute \<Rightarrow> string" where
  "attribute_str a =
     (case attr_value a of
        Some v \<Rightarrow> ''a='' @ attr_name a @ '':'' @ v
      | None \<Rightarrow> ''a='' @ attr_name a)"

record SDPMedia =
  media_type :: SDPMediaType
  port :: int
  protocol :: string
  formats :: "string list"
  attributes :: "SDPAttribute list"
  media_connection_address :: "string option"
  media_connection_ttl :: "int option"

definition new_media :: "SDPMediaType \<Rightarrow> int \<Rightarrow> SDPMedia" where
  "new_media t p = \<lparr>media_type = t, port = p, protocol = ''RTP/AVP'', formats = [], attributes = [],
     media_connection_address = None, media_connection_ttl = None\<rparr>"

definition media_add_attribute :: "string \<Rightarrow> string option \<Rightarrow> SDPMedia \<Rightarrow> SDPMedia" where
  "media_add_attribute n v m = m\<lparr>attributes := attributes m @ [\<lparr>attr_name = n, attr_value = v\<rparr>]\<rparr>"

definition add_format :: "int \<Rightarrow> SDPCodec \<Rightarrow> int \<Rightarrow> int \<Rightarrow> SDPMedia \<Rightarrow> SDPMedia" where
  "add_format pt c rate ch m =
     (let m1 = m\<lparr>formats := formats m @ [int_str pt]\<rparr>;
          m2 = media_add_attribute ''rtpmap'' (Some (int_str pt @ '' '' @ codec_name c @ ''/'' @ int_str rate)) m1
      in if ch > 1
         then media_add_attribute ''rtpmap''
           (Some (int_str pt @ '' '' @ codec_name c @ ''/'' @ int_str rate @ ''/'' @ int_str ch)) m2
         else m2)"

definition set_sendrecv :: "string \<Rightarrow> SDPMedia \<Rightarrow> SDPMedia" where
  "set_sendrecv dir m = media_add_attribute dir None m"

text \<open>An optional number read as a truth value: None and 0 are false.\<close>

definition truthy_int :: "int option \<Rightarrow> bool" where
  "truthy_int x = (case x of None \<Rightarrow> False | Some i \<Rightarrow> i \<noteq> 0)"

definition connection_line :: "string \<Rightarrow> int option \<Rightarrow> string" where
  "connection_line addr ttl =
     (if truthy_int ttl then ''c=IN IP4 '' @ addr @ ''/'' @ int_str (the ttl) else ''c=IN IP4 '' @ addr)"

definition media_lines :: "SDPMedia \<Rightarrow> string list" where
  "media_lines m =
     [''m='' @ media_type_value (media_type m) @ '' '' @ int_str (port m) @ '' '' @ protocol m @ '' ''
        @ (if formats m = [] then ''0'' else join '' '' (formats m))]
     @ (if truthy_str (media_connection_address m)
        then [connection_line (the (media_connection_address m)) (media_connection_ttl m)] else [])
     @ map attribute_str (attributes m)"

definition media_str :: "SDPMedia \<Rightarrow> string" where
  "media_str m = join CRLF (media_lines m)"

record SDPSession =
  version :: int
  origin_username :: string
  session_id :: string
  session_version :: string
  origin_address :: string
  session_name :: string
  connection_address :: string
  connection_ttl :: "int option"
  timing_start :: int
  timing_stop :: int
  session_attributes :: "SDPAttribute list"
  media :: "SDPMedia list"

definition new_session :: "int \<Rightarrow> SDPSession" where
  "new_session now = \<lparr>version = 0, origin_username = ''-'', session_id = int_str now,
     session_version = int_str now, origin_address = ''127.0.0.1'', session_name = ''SIP Session'',
     connection_address = ''127.0.0.1'', connection_ttl = None, timing_start = 0, timing_stop = 0,
     session_attributes = [], media = []\<rparr>"

section \<open>Operations\<close>

definition session_add_attribute :: "string \<Rightarrow> string option \<Rightarrow> SDPSession \<Rightarrow> SDPSession" where
  "session_add_attribute n v s =
     s\<lparr>session_attributes := session_attributes s @ [\<lparr>attr_name = n, attr_value = v\<rparr>]\<rparr>"

type_synonym codec_choice = "int \<times> SDPCodec \<times> int"

definition build_media :: "SDPMediaType \<Rightarrow> int \<Rightarrow> codec_choice list \<Rightarrow> SDPMedia" where
  "build_media t p cs =
     set_sendrecv ''sendrecv'' (fold (\<lambda>(pt, c, rate) m. add_format pt c rate 1 m) cs (new_media t p))"

definition default_audio_codecs :: "codec_choice list" where
  "default_audio_codecs =
     [(0, codec_from_enum PCMU 8000 1 None None, 8000), (8, codec_from_enum PCMA 8000 1 None None, 8000)]"

definition default_video_codecs :: "codec_choice list" where
  "default_video_codecs = [(96, codec_from_enum H264 90000 1 None None, 90000)]"

definition add_audio_media :: "int \<Rightarrow> codec_choice list option \<Rightarrow> SDPSession \<Rightarrow> SDPSession" where
  "add_audio_media p cs s =
     s\<lparr>media := media s @ [build_media AUDIO p (case cs of None \<Rightarrow> default_audio_codecs | Some l \<Rightarrow> l)]\<rparr>"

definition add_video_media :: "int \<Rightarrow> codec_choice list option \<Rightarrow> SDPSession \<Rightarrow> SDPSession" where
  "add_video_media p cs s =
     s\<lparr>media := media s @ [build_media VIDEO p (case cs of None \<Rightarrow> default_video_codecs | Some l \<Rightarrow> l)]\<rparr>"

text \<open>\<open>SDPSession.create_answer\<close>: one fixed codec for each audio and video medium of the offer.\<close>

definition session_create_answer :: "int \<Rightarrow> SDPSession \<Rightarrow> SDPSession \<Rightarrow> SDPSession" where
  "session_create_answer now self offer =
     fold (\<lambda>m answer.
         if media_type m = AUDIO
         then add_audio_media (port m) (Some [(0, codec_from_enum PCMU 8000 1 None None, 8000)]) answer
         else if media_type m = VIDEO
         then add_video_media (port m) (Some [(96, codec_from_enum H264 90000 1 None None, 90000)]) answer
         else answer)
       (media offer)
       ((new_session now)\<lparr>origin_address := origin_address self,
          connection_address := connection_address self, session_name := ''SIP Answer''\<rparr>)"

datatype sdp_problem =
    NoSessionName
  | NoOriginAddress
  | NoConnectionAddress
  | MediaWithoutFormats nat
  | MediaBadPort nat int

fun media_problems :: "nat \<Rightarrow> SDPMedia list \<Rightarrow> sdp_problem list" where
  "media_problems i [] = []"
| "media_problems i (m # ms) =
     (if formats m = [] then [MediaWithoutFormats i] else [])
     @ (if port m < 0 \<or> port m > 65535 then [MediaBadPort i (port m)] else [])
     @ media_problems (Suc i) ms"

definition session_validate :: "SDPSession \<Rightarrow> bool \<times> sdp_problem list" where
  "session_validate s =
     (let errors = (if session_name s = [] then [NoSessionName] else [])
        @ (if origin_address s = [] then [NoOriginAddress] else [])
        @ (if connection_address s = [] then [NoConnectionAddress] else [])
        @ media_problems 0 (media s)
      in (errors = [], errors))"

definition session_lines :: "SDPSession \<Rightarrow> string list" where
  "session_lines s =
     [''v='' @ int_str (version s),
      ''o='' @ origin_username s @ '' '' @ session_id s @ '' '' @ session_version s @ '' IN IP4 '' @ origin_address s,
      ''s='' @ session_name s,
      connection_line (connection_address s) (connection_ttl s),
      ''t='' @ int_str (timing_start s) @ '' '' @ int_str (timing_stop s)]
     @ map attribute_str (session_attributes s)"

definition session_encode :: "SDPSession \<Rightarrow> string" where
  "session_encode s = join CRLF (session_lines s @ map media_str (media s)) @ CRLF"

section \<open>The line parser\<close>

text \<open>The parser's loop state: the session under construction and whether a medium is current.\<close>

type_synonym sdp_pstate = "SDPSession \<times> bool"

definition on_last :: "('a \<Rightarrow> 'a) \<Rightarrow> 'a list \<Rightarrow> 'a list" where
  "on_last f xs = (if xs = [] then [] else butlast xs @ [f (last xs)])"

definition parse_origin :: "string \<Rightarrow> SDPSession \<Rightarrow> SDPSession" where
  "parse_origin v s =
     (case words v of
        p0 # p1 # p2 # p3 # p4 # p5 # _ \<Rightarrow>
          s\<lparr>origin_username := p0, session_id := p1, session_version := p2, origin_address := p5\<rparr>
      | _ \<Rightarrow> s)"

definition parse_connection :: "string \<Rightarrow> SDPSession \<Rightarrow> SDPSession res" where
  "parse_connection v s =
     (if contains ''IN IP4'' v
      then (let addr = strip (split_on ''IN IP4'' v ! 1) in
        if contains ''/'' addr
        then (case split_on ''/'' addr of
            [a, ttl] \<Rightarrow> map_res (\<lambda>n. s\<lparr>connection_address := a, connection_ttl := Some n\<rparr>) (parse_int ttl)
          | _ \<Rightarrow> Inl ValueError)
        else Inr (s\<lparr>connection_address := addr\<rparr>))
      else Inr s)"

definition parse_timing :: "string \<Rightarrow> SDPSession \<Rightarrow> SDPSession res" where
  "parse_timing v s =
     (case words v of
        a # b # _ \<Rightarrow> bind_res (parse_int a) (\<lambda>m. map_res (\<lambda>n. s\<lparr>timing_start := m, timing_stop := n\<rparr>) (parse_int b))
      | _ \<Rightarrow> Inr s)"

definition parse_media :: "string \<Rightarrow> sdp_pstate \<Rightarrow> sdp_pstate res" where
  "parse_media v st =
     (case words v of
        a # b # c # f # fs \<Rightarrow>
          bind_res (media_type_of a) (\<lambda>t. map_res (\<lambda>p.
            ((fst st)\<lparr>media := media (fst st) @ [(new_media t p)\<lparr>protocol := c, formats := f # fs\<rparr>]\<rparr>, True))
            (parse_int b))
      | _ \<Rightarrow> Inr st)"

definition parse_attribute :: "string \<Rightarrow> SDPAttribute" where
  "parse_attribute v =
     (case partition_at '':'' v of
        Some (n, x) \<Rightarrow> \<lparr>attr_name = n, attr_value = Some x\<rparr>
      | None \<Rightarrow> \<lparr>attr_name = v, attr_value = None\<rparr>)"

definition push_attribute :: "SDPAttribute \<Rightarrow> sdp_pstate \<Rightarrow> sdp_pstate" where
  "push_attribute a st =
     (if snd st
      then ((fst st)\<lparr>media := on_last (\<lambda>m. m\<lparr>attributes := attributes m @ [a]\<rparr>) (media (fst st))\<rparr>, True)
      else ((fst st)\<lparr>session_attributes := session_attributes (fst st) @ [a]\<rparr>, False))"

definition parse_line :: "string \<Rightarrow> sdp_pstate \<Rightarrow> sdp_pstate res" where
  "parse_line raw st =
     (case partition_at ''='' (strip raw) of
        None \<Rightarrow> Inr st
      | Some (k, v) \<Rightarrow>
          if k = ''v'' then map_res (\<lambda>n. ((fst st)\<lparr>version := n\<rparr>, snd st)) (parse_int v)
          else if k = ''o'' then Inr (parse_origin v (fst st), snd st)
          else if k = ''s'' then Inr ((fst st)\<lparr>session_name := v\<rparr>, snd st)
          else if k = ''c'' then map_res (\<lambda>s. (s, snd st)) (parse_connection v (fst st))
          else if k = ''t'' then map_res (\<lambda>s. (s, snd st)) (parse_timing v (fst st))
          else if k = ''m'' then parse_media v st
          else if k = ''a'' then Inr (push_attribute (parse_attribute v) st)
          else Inr st)"

definition session_parse :: "int \<Rightarrow> string \<Rightarrow> SDPSession res" where
  "session_parse now text =
     map_res fst (fold_res parse_line (split_on [LF] (strip text)) (new_session now, False))"

section \<open>The simple negotiator\<close>

fun find_compatible :: "codec_choice list \<Rightarrow> string list \<Rightarrow> codec_choice option" where
  "find_compatible [] offered = None"
| "find_compatible ((pt, c, rate) # cs) offered =
     (if int_str pt \<in> set offered then Some (pt, c, rate) else find_compatible cs offered)"

definition negotiator_create_offer :: "int \<Rightarrow> string \<Rightarrow> int \<Rightarrow> SDPSession" where
  "negotiator_create_offer now ip aport =
     add_audio_media aport (Some default_audio_codecs)
       ((new_session now)\<lparr>origin_address := ip, connection_address := ip, session_name := ''TinySIP Offer''\<rparr>)"

definition negotiator_create_answer :: "int \<Rightarrow> SDPSession \<Rightarrow> string \<Rightarrow> SDPSession" where
  "negotiator_create_answer now offer ip =
     fold (\<lambda>m answer.
         if media_type m = AUDIO
         then (case find_compatible default_audio_codecs (formats m) of
             Some c \<Rightarrow> add_audio_media (port m) (Some [c]) answer | None \<Rightarrow> answer)
         else if media_type m = VIDEO
         then (case find_compatible default_video_codecs (formats m) of
             Some c \<Rightarrow> add_video_media (port m) (Some [c]) answer | None \<Rightarrow> answer)
         else answer)
       (media offer)
       ((new_session now)\<lparr>origin_address := ip, connection_address := ip, session_name := ''TinySIP Answer''\<rparr>)"

definition create_basic_audio_offer :: "int \<Rightarrow> string \<Rightarrow> SDPSession" where
  "create_basic_audio_offer now ip = negotiator_create_offer now ip 5004"

definition create_basic_audio_answer :: "int \<Rightarrow> string \<Rightarrow> string \<Rightarrow> SDPSession res" where
  "create_basic_audio_answer now offer_sdp ip =
     map_res (\<lambda>offer. negotiator_create_answer now offer ip) (session_parse now offer_sdp)"

section \<open>Text and lines\<close>

text \<open>A line of a description: no line feed, no white space at either end, not empty.\<close>

definition text_line :: "string \<Rightarrow> bool" where
  "text_line l = (l \<noteq> [] \<and> stripped l \<and> LF \<notin> set l)"

lemma strip_text_line: "text_line l \<Longrightarrow> strip l = l"
  by (simp add: text_line_def strip_id)

lemma strip_join_lines:
  assumes "ls \<noteq> []" and "\<And>l. l \<in> set ls \<Longrightarrow> text_line l"
  shows "strip (join CRLF ls @ CRLF) = join CRLF ls"
proof -
  have "strip (join CRLF ls @ CRLF) = strip (join CRLF ls)"
    by (rule strip_append_spaces) auto
  moreover have "stripped (join CRLF ls)"
  proof -
    obtain l k where l: "ls = l # k" using assms(1) by (cases ls) auto
    have "text_line l" and "text_line (last ls)" using assms by (auto simp: l)
    then show ?thesis
      using last_join[of ls CRLF] hd_join[of l CRLF k] assms(1)
      by (auto simp: text_line_def stripped_def l)
  qed
  ultimately show ?thesis by (simp add: strip_id)
qed

lemma parse_line_CR: "parse_line (l @ [CR]) = parse_line l"
  by (rule ext) (simp add: parse_line_def strip_snoc_space)

lemma session_parse_lines:
  assumes "ls \<noteq> []" and "\<And>l. l \<in> set ls \<Longrightarrow> text_line l"
  shows "session_parse now (join CRLF ls @ CRLF) = map_res fst (fold_res parse_line ls (new_session now, False))"
proof -
  have "split_on [LF] (join CRLF ls) = map (\<lambda>l. l @ [CR]) (butlast ls) @ [last ls]"
    using assms by (intro split_LF_join_CRLF) (auto simp: text_line_def)
  then have "session_parse now (join CRLF ls @ CRLF)
      = map_res fst (fold_res parse_line (butlast ls @ [last ls]) (new_session now, False))"
    using strip_join_lines[OF assms] by (simp add: session_parse_def fold_res_append fold_res_map parse_line_CR)
  with assms(1) show ?thesis by simp
qed

section \<open>Well-formed descriptions\<close>

definition attribute_ok :: "SDPAttribute \<Rightarrow> bool" where
  "attribute_ok a =
     (CHR '':'' \<notin> set (attr_name a) \<and> LF \<notin> set (attr_name a) \<and>
      (case attr_value a of None \<Rightarrow> rstripped (attr_name a) | Some v \<Rightarrow> rstripped v \<and> LF \<notin> set v))"

definition media_ok :: "SDPMedia \<Rightarrow> bool" where
  "media_ok m =
     (word_ok (protocol m) \<and> formats m \<noteq> [] \<and> list_all word_ok (formats m) \<and>
      media_connection_address m = None \<and> media_connection_ttl m = None \<and>
      list_all attribute_ok (attributes m))"

definition session_ok :: "SDPSession \<Rightarrow> bool" where
  "session_ok s =
     (word_ok (origin_username s) \<and> word_ok (session_id s) \<and> word_ok (session_version s) \<and>
      word_ok (origin_address s) \<and> rstripped (session_name s) \<and> LF \<notin> set (session_name s) \<and>
      word_ok (connection_address s) \<and> CHR ''/'' \<notin> set (connection_address s) \<and>
      connection_ttl s \<noteq> Some 0 \<and>
      list_all attribute_ok (session_attributes s) \<and> list_all media_ok (media s))"

lemma word_ok_no_space: "word_ok w \<Longrightarrow> CHR '' '' \<notin> set w \<and> LF \<notin> set w \<and> CR \<notin> set w"
  by (auto simp: word_ok_def)

lemma word_ok_last: "word_ok w \<Longrightarrow> \<not> is_space (last w)"
  by (simp add: word_ok_def)

lemma media_type_roundtrip [simp]: "media_type_of (media_type_value t) = Inr t"
  by (cases t) (simp_all add: media_type_of_def)

lemma media_type_word: "word_ok (media_type_value t)"
  by (cases t) (simp_all add: word_ok_def char_class_defs)

lemma text_line_prefix:
  assumes "\<not> is_space k" and "k \<noteq> LF" and "LF \<notin> set v" and "rstripped v"
  shows "text_line (k # CHR ''='' # v)"
proof -
  have "\<not> is_space (CHR ''='')" by (simp add: char_class_defs)
  with assms show ?thesis by (auto simp: text_line_def stripped_def rstripped_def)
qed

text \<open>The letters in front of the equals sign are not white space.\<close>

lemma line_letters [simp]:
  "\<not> is_space (CHR ''v'')" "\<not> is_space (CHR ''o'')" "\<not> is_space (CHR ''s'')" "\<not> is_space (CHR ''c'')"
  "\<not> is_space (CHR ''t'')" "\<not> is_space (CHR ''m'')" "\<not> is_space (CHR ''a'')" "\<not> is_space (CHR '':'')"
  "\<not> is_space (CHR ''='')" "\<not> is_space (CHR ''0'')" "\<not> is_space (CHR ''/'')"
  by (simp_all add: char_class_defs)

lemma parse_line_key:
  assumes "text_line (k # CHR ''='' # v)" and "k \<noteq> CHR ''=''"
  shows "partition_at ''='' (strip (k # CHR ''='' # v)) = Some ([k], v)"
  using assms by (simp add: strip_text_line)

lemma rstripped_word: "word_ok w \<Longrightarrow> rstripped (x @ w)"
  by (auto simp: rstripped_def word_ok_def)

lemma attribute_text_line:
  assumes "attribute_ok a"
  shows "text_line (attribute_str a)"
proof (cases "attr_value a")
  case None
  with assms have "text_line (CHR ''a'' # CHR ''='' # attr_name a)"
    by (intro text_line_prefix) (auto simp: attribute_ok_def)
  with None show ?thesis by (simp add: attribute_str_def)
next
  case (Some v)
  with assms have "text_line (CHR ''a'' # CHR ''='' # attr_name a @ CHR '':'' # v)"
    by (intro text_line_prefix) (auto simp: attribute_ok_def rstripped_def)
  with Some show ?thesis by (simp add: attribute_str_def)
qed

lemma parse_line_attribute:
  assumes "attribute_ok a"
  shows "parse_line (attribute_str a) st = Inr (push_attribute a st)"
proof (cases "attr_value a")
  case None
  with assms have "parse_attribute (attr_name a) = a"
    by (simp add: parse_attribute_def attribute_ok_def partition_at_char_None[THEN iffD2])
  with attribute_text_line[OF assms] None show ?thesis
    by (simp add: attribute_str_def parse_line_def strip_text_line)
next
  case (Some v)
  with assms have "parse_attribute (attr_name a @ '':'' @ v) = a"
    by (simp add: parse_attribute_def attribute_ok_def partition_at_char)
  with attribute_text_line[OF assms] Some show ?thesis
    by (simp add: attribute_str_def parse_line_def strip_text_line)
qed

lemma parse_session_attributes:
  "list_all attribute_ok as \<Longrightarrow>
   fold_res parse_line (map attribute_str as) (s, False)
     = Inr (s\<lparr>session_attributes := session_attributes s @ as\<rparr>, False)"
  by (induction as arbitrary: s) (simp_all add: parse_line_attribute push_attribute_def)

lemma parse_media_attributes:
  "list_all attribute_ok as \<Longrightarrow>
   fold_res parse_line (map attribute_str as) (s\<lparr>media := ms @ [m]\<rparr>, True)
     = Inr (s\<lparr>media := ms @ [m\<lparr>attributes := attributes m @ as\<rparr>]\<rparr>, True)"
  by (induction as arbitrary: m) (simp_all add: parse_line_attribute push_attribute_def on_last_def)

lemma connection_text_line:
  assumes "word_ok addr"
  shows "text_line (connection_line addr ttl)"
proof -
  have i: "word_ok (int_str i)" for i by (rule int_str_word)
  have "LF \<notin> set addr" using assms word_ok_no_space by blast
  moreover have "LF \<notin> set (int_str i)" for i using i word_ok_no_space by blast
  ultimately show ?thesis
    using assms i by (auto simp: connection_line_def text_line_def stripped_def word_ok_last word_ok_def)
qed

lemma split_IN_IP4:
  assumes "word_ok addr"
  shows "split_on ''IN IP4'' (''IN IP4 '' @ addr) = [[], CHR '' '' # addr]"
proof -
  have "\<not> contains ''IN IP4'' (CHR '' '' # addr)"
  proof
    assume "contains ''IN IP4'' (CHR '' '' # addr)"
    then obtain a b where eq: "CHR '' '' # addr = a @ ''IN IP4'' @ b" by (auto simp: contains_iff)
    then show False using word_ok_no_space[OF assms] by (cases a) auto
  qed
  then have n: "partition_at ''IN IP4'' (CHR '' '' # addr) = None" by (simp add: contains_def del: not_Some_eq not_None_eq)
  have "partition_at ''IN IP4'' (''IN IP4 '' @ addr) = Some ([], CHR '' '' # addr)" by simp
  from split_on_Some[OF _ this] split_on_None[OF n] show ?thesis by simp
qed

lemma parse_connection_line:
  assumes "word_ok addr" and "CHR ''/'' \<notin> set addr"
  shows "parse_line (connection_line addr ttl) (s, b) =
     Inr (if truthy_int ttl then s\<lparr>connection_address := addr, connection_ttl := ttl\<rparr>
          else s\<lparr>connection_address := addr\<rparr>, b)"
proof -
  define tail where "tail = (if truthy_int ttl then addr @ CHR ''/'' # int_str (the ttl) else addr)"
  have line: "connection_line addr ttl = ''c=IN IP4 '' @ tail"
    by (simp add: connection_line_def tail_def)
  have wt: "word_ok tail"
    using assms(1) int_str_word[of "the ttl"] by (auto simp: tail_def word_ok_def)
  have st: "strip (CHR '' '' # tail) = tail"
    using wt by (simp add: strip_lead_space strip_id stripped_def word_ok_def)
  have c: "contains ''IN IP4'' (''IN IP4 '' @ tail)" by (simp add: contains_def)
  have k: "partition_at ''='' (strip (connection_line addr ttl)) = Some (''c'', ''IN IP4 '' @ tail)"
    using connection_text_line[OF assms(1), of ttl] by (simp add: strip_text_line) (simp add: line)
  have "parse_connection (''IN IP4 '' @ tail) s =
     Inr (if truthy_int ttl then s\<lparr>connection_address := addr, connection_ttl := ttl\<rparr>
          else s\<lparr>connection_address := addr\<rparr>)"
  proof (cases "truthy_int ttl")
    case True
    then obtain i where i: "ttl = Some i" by (cases ttl) (auto simp: truthy_int_def)
    have "split_on ''/'' (addr @ CHR ''/'' # int_str i) = [addr, int_str i]"
    proof -
      have "CHR ''/'' \<notin> set (int_str i)" using int_str_chars[of "CHR ''/''" i] by (auto simp: char_class_defs)
      then show ?thesis using assms(2) by (simp add: split_on_char split_on_char_none)
    qed
    with True i c st show ?thesis
      by (simp only: parse_connection_def split_IN_IP4[OF wt]) (simp add: tail_def)
  next
    case False
    with c st assms(2) show ?thesis
      by (simp only: parse_connection_def split_IN_IP4[OF wt]) (simp add: tail_def)
  qed
  with k show ?thesis by (simp add: parse_line_def)
qed

lemma spaces [simp]: "is_space (CHR '' '')" "is_space LF" "is_space CR"
  by (simp_all add: char_class_defs)

lemma key_eq: "text_line (k # CHR ''='' # v) \<Longrightarrow> k \<noteq> CHR ''='' \<Longrightarrow>
   partition_at ''='' (strip (k # CHR ''='' # v)) = Some ([k], v)"
  by (simp add: strip_text_line)

lemma version_line:
  "text_line (''v='' @ int_str n) \<and> parse_line (''v='' @ int_str n) (s, b) = Inr (s\<lparr>version := n\<rparr>, b)"
proof -
  have t: "text_line (CHR ''v'' # CHR ''='' # int_str n)"
    using int_str_word[of n] word_ok_no_space by (intro text_line_prefix) (auto simp: rstripped_def word_ok_last)
  with key_eq[OF t] show ?thesis by (simp add: parse_line_def)
qed

lemma name_line:
  assumes "rstripped nm" and "LF \<notin> set nm"
  shows "text_line (''s='' @ nm) \<and> parse_line (''s='' @ nm) (s, b) = Inr (s\<lparr>session_name := nm\<rparr>, b)"
proof -
  have t: "text_line (CHR ''s'' # CHR ''='' # nm)" using assms by (intro text_line_prefix) auto
  with key_eq[OF t] show ?thesis by (simp add: parse_line_def)
qed

lemma timing_line:
  "text_line (''t='' @ int_str m @ '' '' @ int_str n) \<and>
   parse_line (''t='' @ int_str m @ '' '' @ int_str n) (s, b) = Inr (s\<lparr>timing_start := m, timing_stop := n\<rparr>, b)"
proof -
  have t: "text_line (CHR ''t'' # CHR ''='' # int_str m @ '' '' @ int_str n)"
    using int_str_word[of n] int_str_word[of m] word_ok_no_space
    by (intro text_line_prefix) (auto simp: rstripped_def word_ok_last)
  have "words (int_str m @ CHR '' '' # int_str n) = [int_str m, int_str n]"
    by (simp add: words_word_space words_word int_str_word)
  with t key_eq[OF t] show ?thesis by (simp add: parse_line_def parse_timing_def)
qed

lemma origin_line:
  assumes "word_ok u" "word_ok i" "word_ok v" "word_ok a"
  defines "l \<equiv> ''o='' @ u @ '' '' @ i @ '' '' @ v @ '' IN IP4 '' @ a"
  shows "text_line l \<and> parse_line l (s, b) =
     Inr (s\<lparr>origin_username := u, session_id := i, session_version := v, origin_address := a\<rparr>, b)"
proof -
  have t: "text_line (CHR ''o'' # CHR ''='' # u @ '' '' @ i @ '' '' @ v @ '' IN IP4 '' @ a)"
    using assms(1-4) word_ok_no_space by (intro text_line_prefix) (auto simp: rstripped_def word_ok_last word_ok_def)
  have "word_ok ''IN''" "word_ok ''IP4''" by (simp_all add: word_ok_def char_class_defs)
  then have "words (u @ '' '' @ i @ '' '' @ v @ '' IN IP4 '' @ a) = [u, i, v, ''IN'', ''IP4'', a]"
    using words_join[of "[u, i, v, ''IN'', ''IP4'', a]"] assms(1-4) by auto
  with t key_eq[OF t] show ?thesis by (simp add: l_def parse_line_def parse_origin_def)
qed

definition media_line :: "SDPMedia \<Rightarrow> string" where
  "media_line m = ''m='' @ media_type_value (media_type m) @ '' '' @ int_str (port m) @ '' '' @ protocol m @ '' ''
     @ join '' '' (formats m)"

lemma media_head_line:
  assumes "media_ok m"
  shows "text_line (media_line m) \<and> parse_line (media_line m) (s, b) =
     Inr (s\<lparr>media := media s @ [m\<lparr>attributes := []\<rparr>]\<rparr>, True)"
proof -
  let ?ws = "media_type_value (media_type m) # int_str (port m) # protocol m # formats m"
  have ok: "\<forall>w \<in> set ?ws. word_ok w"
    using assms media_type_word int_str_word by (auto simp: media_ok_def list_all_iff)
  have ne: "formats m \<noteq> []" using assms by (simp add: media_ok_def)
  then have line: "media_line m = CHR ''m'' # CHR ''='' # join '' '' ?ws"
    by (cases "formats m") (simp_all add: media_line_def)
  have lf: "LF \<notin> set (join '' '' ws)" if "\<forall>w \<in> set ws. word_ok w" for ws
    using that word_ok_no_space by (induction "'' ''" ws rule: join.induct) auto
  have "rstripped (join '' '' ?ws)"
  proof -
    have "word_ok (last (formats m))" using ok ne by simp
    then show ?thesis
      using last_join[of ?ws "'' ''"] ne by (auto simp: rstripped_def word_ok_def simp del: join.simps)
  qed
  then have t: "text_line (CHR ''m'' # CHR ''='' # join '' '' ?ws)"
    using lf[OF ok] by (intro text_line_prefix) auto
  have w: "words (join '' '' ?ws) = ?ws" using ok by (intro words_join) blast
  obtain f fs where f: "formats m = f # fs" using ne by (cases "formats m") auto
  have "m\<lparr>attributes := []\<rparr> = (new_media (media_type m) (port m))\<lparr>protocol := protocol m, formats := f # fs\<rparr>"
    using assms f by (simp add: new_media_def media_ok_def)
  with t key_eq[OF t] w f show ?thesis by (simp add: line parse_line_def parse_media_def)
qed

lemma media_lines_ok:
  "media_ok m \<Longrightarrow> media_lines m = media_line m # map attribute_str (attributes m)"
  by (simp add: media_lines_def media_line_def media_ok_def truthy_str_def)

lemma parse_media_lines:
  assumes "media_ok m"
  shows "fold_res parse_line (media_lines m) (s, b) = Inr (s\<lparr>media := media s @ [m]\<rparr>, True)"
proof -
  have "list_all attribute_ok (attributes m)" using assms by (simp add: media_ok_def)
  from parse_media_attributes[OF this, of "media s" "m\<lparr>attributes := []\<rparr>" s]
  show ?thesis using media_head_line[OF assms, of s b] by (simp add: media_lines_ok[OF assms])
qed

lemma parse_all_media:
  "list_all media_ok ms \<Longrightarrow>
   \<exists>b'. fold_res parse_line (concat (map media_lines ms)) (s, b) = Inr (s\<lparr>media := media s @ ms\<rparr>, b')"
proof (induction ms arbitrary: s b)
  case (Cons m ms)
  then obtain b' where "fold_res parse_line (concat (map media_lines ms)) (s\<lparr>media := media s @ [m]\<rparr>, True)
      = Inr (s\<lparr>media := (media s @ [m]) @ ms\<rparr>, b')"
    using Cons.IH[of "s\<lparr>media := media s @ [m]\<rparr>" True] by auto
  with Cons.prems show ?case by (simp add: fold_res_append parse_media_lines)
qed simp

lemma session_encode_lines:
  "session_encode s = join CRLF (session_lines s @ concat (map media_lines (media s))) @ CRLF"
proof -
  have 1: "session_lines s \<noteq> []" by (simp add: session_lines_def)
  have 2: "map (join CRLF) (map media_lines (media s)) = map media_str (media s)"
    by (simp add: media_str_def)
  have "\<And>ys. ys \<in> set (map media_lines (media s)) \<Longrightarrow> ys \<noteq> []" by (auto simp: media_lines_def)
  with join_concat[OF 1, where sep = CRLF and yss = "map media_lines (media s)"] show ?thesis
    unfolding session_encode_def 2 by blast
qed

lemma encode_text_lines:
  assumes "session_ok s" and "l \<in> set (session_lines s @ concat (map media_lines (media s)))"
  shows "text_line l"
proof -
  have attrs: "text_line (attribute_str a)" if "list_all attribute_ok as" "a \<in> set as" for a as
    using that attribute_text_line by (auto simp: list_all_iff)
  from assms(2) consider "l \<in> set (session_lines s)" | m where "m \<in> set (media s)" "l \<in> set (media_lines m)"
    by auto
  then show ?thesis
  proof cases
    case 1
    have o: "word_ok (origin_username s)" "word_ok (session_id s)" "word_ok (session_version s)"
        "word_ok (origin_address s)" and nm: "rstripped (session_name s)" "LF \<notin> set (session_name s)"
      and c: "word_ok (connection_address s)" and a: "list_all attribute_ok (session_attributes s)"
      using assms(1) by (simp_all add: session_ok_def)
    note lines = conjunct1[OF version_line] conjunct1[OF timing_line] conjunct1[OF name_line[OF nm]]
      conjunct1[OF origin_line[OF o]] connection_text_line[OF c] attrs[OF a]
    from 1 show ?thesis
      unfolding session_lines_def set_append list.set set_map
      by (elim UnE insertE imageE emptyE) (simp_all only: lines)
  next
    case 2
    then have ok: "media_ok m" using assms(1) by (auto simp: session_ok_def list_all_iff)
    then have "l = media_line m \<or> l \<in> attribute_str ` set (attributes m)" using 2 by (auto simp: media_lines_ok)
    then show ?thesis using media_head_line[OF ok] attrs ok by (auto simp: media_ok_def)
  qed
qed

lemma parse_session_lines:
  assumes "session_ok s"
  shows "fold_res parse_line (session_lines s) (new_session now, False) = Inr (s\<lparr>media := []\<rparr>, False)"
proof -
  have o: "word_ok (origin_username s)" "word_ok (session_id s)" "word_ok (session_version s)"
      "word_ok (origin_address s)" and nm: "rstripped (session_name s)" "LF \<notin> set (session_name s)"
    and c: "word_ok (connection_address s)" "CHR ''/'' \<notin> set (connection_address s)"
    and t: "truthy_int (connection_ttl s) \<or> connection_ttl s = None"
    and a: "list_all attribute_ok (session_attributes s)"
    using assms by (auto simp: session_ok_def truthy_int_def split: option.splits)
  have ttl: "\<lparr>version = version s, origin_username = origin_username s, session_id = session_id s,
      session_version = session_version s, origin_address = origin_address s, session_name = session_name s,
      connection_address = connection_address s, connection_ttl = None, timing_start = timing_start s,
      timing_stop = timing_stop s, session_attributes = session_attributes s, media = []\<rparr> = s\<lparr>media := []\<rparr>"
    if "\<not> truthy_int (connection_ttl s)"
    using that t by (cases s) simp
  show ?thesis
    by (simp add: session_lines_def fold_res_append conjunct2[OF version_line, simplified] conjunct2[OF timing_line, simplified]
        conjunct2[OF name_line[OF nm], simplified] conjunct2[OF origin_line[OF o], simplified]
        parse_connection_line[OF c] parse_session_attributes[OF a] new_session_def ttl)
qed

lemma parse_session_encode:
  assumes "session_ok s"
  shows "session_parse now (session_encode s) = Inr s"
proof -
  let ?ls = "session_lines s @ concat (map media_lines (media s))"
  have "?ls \<noteq> []" by (simp add: session_lines_def)
  moreover obtain b where "fold_res parse_line (concat (map media_lines (media s))) (s\<lparr>media := []\<rparr>, False)
      = Inr (s\<lparr>media := media s\<rparr>, b)"
    using parse_all_media[of "media s" "s\<lparr>media := []\<rparr>" False] assms by (auto simp: session_ok_def)
  ultimately show ?thesis
    using session_parse_lines[of ?ls now] encode_text_lines[OF assms]
    by (simp add: session_encode_lines fold_res_append parse_session_lines[OF assms] map_res_def)
qed


section \<open>Built sessions are well formed\<close>

definition choice_ok :: "codec_choice \<Rightarrow> bool" where
  "choice_ok c = (case c of (pt, codec, rate) \<Rightarrow> LF \<notin> set (codec_name codec))"

lemma int_str_clean: "LF \<notin> set (int_str i)" "rstripped (x @ int_str i)"
  using word_ok_no_space[OF int_str_word] rstripped_word[OF int_str_word] by auto

lemma add_format_ok:
  assumes "LF \<notin> set (codec_name c)" and "list_all attribute_ok (attributes m)"
  shows "list_all attribute_ok (attributes (add_format pt c rate 1 m))"
  using assms int_str_word[of pt] int_str_clean(1) int_str_clean(2)[of "int_str pt @ '' '' @ codec_name c @ ''/''" rate]
  by (simp add: add_format_def media_add_attribute_def attribute_ok_def)

lemma add_format_frame [simp]:
  "media_type (add_format pt c rate ch m) = media_type m"
  "port (add_format pt c rate ch m) = port m"
  "protocol (add_format pt c rate ch m) = protocol m"
  "media_connection_address (add_format pt c rate ch m) = media_connection_address m"
  "media_connection_ttl (add_format pt c rate ch m) = media_connection_ttl m"
  "formats (add_format pt c rate ch m) = formats m @ [int_str pt]"
  by (simp_all add: add_format_def media_add_attribute_def Let_def)

lemma format_words: "list_all word_ok (map (\<lambda>(pt, _). int_str pt) cs)"
  by (auto simp: list_all_iff int_str_word)

lemma build_media_fold:
  assumes "list_all choice_ok cs"
  defines "add \<equiv> \<lambda>(pt, c, rate) m. add_format pt c rate 1 m"
  shows "list_all attribute_ok (attributes m) \<Longrightarrow>
     list_all attribute_ok (attributes (fold add cs m))
     \<and> formats (fold add cs m) = formats m @ map (\<lambda>(pt, _). int_str pt) cs
     \<and> media_type (fold add cs m) = media_type m \<and> port (fold add cs m) = port m
     \<and> protocol (fold add cs m) = protocol m
     \<and> media_connection_address (fold add cs m) = media_connection_address m
     \<and> media_connection_ttl (fold add cs m) = media_connection_ttl m"
  using assms(1)
proof (induction cs arbitrary: m)
  case (Cons c cs)
  obtain pt codec rate where c: "c = (pt, codec, rate)" by (cases c) auto
  have "LF \<notin> set (codec_name codec)" using Cons.prems by (simp add: choice_ok_def c)
  from add_format_ok[OF this Cons.prems(1), of pt rate] Cons.IH[of "add c m"] Cons.prems
  show ?case by (simp add: c add_def)
qed simp

lemma build_media_shape [simp]:
  assumes "list_all choice_ok cs"
  shows "media_type (build_media t p cs) = t" "port (build_media t p cs) = p"
    "formats (build_media t p cs) = map (\<lambda>(pt, _). int_str pt) cs"
  using build_media_fold[OF assms, of "new_media t p"]
  by (simp_all add: build_media_def set_sendrecv_def media_add_attribute_def new_media_def)

lemma build_media_ok:
  assumes "list_all choice_ok cs" and "cs \<noteq> []"
  shows "media_ok (build_media t p cs)"
proof -
  have "word_ok ''RTP/AVP''" "attribute_ok \<lparr>attr_name = ''sendrecv'', attr_value = None\<rparr>"
    by (simp_all add: word_ok_def attribute_ok_def rstripped_def char_class_defs)
  with build_media_fold[OF assms(1), of "new_media t p"] assms(2) format_words[of cs] show ?thesis
    by (simp add: build_media_def set_sendrecv_def media_add_attribute_def new_media_def media_ok_def)
qed

lemma default_choices_ok:
  "list_all choice_ok default_audio_codecs" "list_all choice_ok default_video_codecs"
  "default_audio_codecs \<noteq> []" "default_video_codecs \<noteq> []"
  by (simp_all add: default_audio_codecs_def default_video_codecs_def choice_ok_def codec_from_enum_def)

lemma find_compatible_Some:
  "find_compatible cs fs = Some c \<Longrightarrow> c \<in> set cs \<and> int_str (fst c) \<in> set fs"
  by (induction cs fs rule: find_compatible.induct) (auto split: if_splits)

lemma find_compatible_None:
  "find_compatible cs fs = None \<longleftrightarrow> (\<forall>c \<in> set cs. int_str (fst c) \<notin> set fs)"
  by (induction cs fs rule: find_compatible.induct) auto

text \<open>What the negotiator answers to one medium of the offer, if anything.\<close>

definition answer_media :: "SDPMedia \<Rightarrow> SDPMedia option" where
  "answer_media m =
     (if media_type m = AUDIO
      then map_option (\<lambda>c. build_media AUDIO (port m) [c]) (find_compatible default_audio_codecs (formats m))
      else if media_type m = VIDEO
      then map_option (\<lambda>c. build_media VIDEO (port m) [c]) (find_compatible default_video_codecs (formats m))
      else None)"

definition empty_session :: "int \<Rightarrow> string \<Rightarrow> string \<Rightarrow> SDPSession" where
  "empty_session now ip name =
     (new_session now)\<lparr>origin_address := ip, connection_address := ip, session_name := name\<rparr>"

lemma fold_push_media:
  assumes "\<And>m s. f m s = s\<lparr>media := media s @ (case g m of None \<Rightarrow> [] | Some a \<Rightarrow> [a])\<rparr>"
  shows "fold f ms s = s\<lparr>media := media s @ List.map_filter g ms\<rparr>"
proof (induction ms arbitrary: s)
  case Nil
  then show ?case by (simp add: map_filter_simps)
next
  case (Cons m ms)
  have "fold f (m # ms) s = (f m s)\<lparr>media := media (f m s) @ List.map_filter g ms\<rparr>"
    using Cons.IH by simp
  then show ?case unfolding assms by (simp add: map_filter_simps split: option.split)
qed

lemma negotiator_answer_media:
  "negotiator_create_answer now offer ip =
     (empty_session now ip ''TinySIP Answer'')\<lparr>media := List.map_filter answer_media (media offer)\<rparr>"
  unfolding negotiator_create_answer_def
  by (subst fold_push_media[where g = answer_media])
    (simp_all add: answer_media_def add_audio_media_def add_video_media_def empty_session_def new_session_def
      split: option.split)

lemma answer_media_Some:
  assumes "answer_media m = Some a"
  shows "media_ok a \<and> media_type a = media_type m \<and> port a = port m \<and> set (formats a) \<subseteq> set (formats m)"
proof -
  obtain cs c where cs: "cs \<in> {default_audio_codecs, default_video_codecs}" "find_compatible cs (formats m) = Some c"
    "a = build_media (media_type m) (port m) [c]"
    using assms by (auto simp: answer_media_def split: if_splits)
  from find_compatible_Some[OF cs(2)] cs(1) default_choices_ok have "choice_ok c" "int_str (fst c) \<in> set (formats m)"
    by (auto simp: list_all_iff)
  then show ?thesis using cs(3) build_media_ok[of "[c]"] by (auto split: prod.splits)
qed

lemma empty_session_ok:
  assumes "word_ok ip" "CHR ''/'' \<notin> set ip" "rstripped nm" "LF \<notin> set nm" "list_all media_ok ms"
  shows "session_ok ((empty_session now ip nm)\<lparr>media := ms\<rparr>)"
  using assms int_str_word[of now]
  by (simp add: empty_session_def new_session_def session_ok_def) (simp add: word_ok_def char_class_defs)

lemma session_names_ok:
  "rstripped ''TinySIP Answer''" "LF \<notin> set ''TinySIP Answer''" "rstripped ''TinySIP Offer''" "LF \<notin> set ''TinySIP Offer''"
  by (simp_all add: rstripped_def char_class_defs)

lemma offer_shape:
  "negotiator_create_offer now ip p =
     (empty_session now ip ''TinySIP Offer'')\<lparr>media := [build_media AUDIO p default_audio_codecs]\<rparr>"
  by (simp add: negotiator_create_offer_def add_audio_media_def empty_session_def new_session_def)

lemma offer_ok:
  assumes "word_ok ip" and "CHR ''/'' \<notin> set ip"
  shows "session_ok (negotiator_create_offer now ip p)"
  unfolding offer_shape
  using assms default_choices_ok build_media_ok session_names_ok by (intro empty_session_ok) auto

lemma media_problems_Nil:
  "media_problems i ms = [] \<longleftrightarrow> list_all (\<lambda>m. formats m \<noteq> [] \<and> 0 \<le> port m \<and> port m \<le> 65535) ms"
  by (induction i ms rule: media_problems.induct) auto

section \<open>Properties\<close>

text \<open>C14. Printing a well-formed session description and parsing the text again gives the same
  description: every field, session attribute, medium, format and media attribute survives, in order.\<close>

theorem session_roundtrip:
  assumes "session_ok s"
  shows "session_parse now (session_encode s) = Inr s"
  using assms by (rule parse_session_encode)

theorem session_roundtrip_witness:
  "session_parse 7 (session_encode (negotiator_create_offer 5 ''10.0.0.1'' 4000))
     = Inr (negotiator_create_offer 5 ''10.0.0.1'' 4000)"
proof (rule session_roundtrip)
  have "word_ok ''10.0.0.1''" by (simp add: word_ok_def char_class_defs)
  then show "session_ok (negotiator_create_offer 5 ''10.0.0.1'' 4000)" by (simp add: offer_ok)
qed

text \<open>Session validation accepts exactly the sessions with a name, an origin address, a connection
  address, and media that all list a format and have a port between 0 and 65535.\<close>

theorem session_validate_iff:
  "fst (session_validate s) \<longleftrightarrow>
     session_name s \<noteq> [] \<and> origin_address s \<noteq> [] \<and> connection_address s \<noteq> [] \<and>
     list_all (\<lambda>m. formats m \<noteq> [] \<and> 0 \<le> port m \<and> port m \<le> 65535) (media s)"
  by (simp add: session_validate_def Let_def media_problems_Nil)

text \<open>The negotiator's answer takes, for each audio or video medium of the offer with a supported
  payload type, the most preferred one, and offers it on the same port; a medium without one is left
  out. Every medium of the answer therefore has the type and port of an offered medium and only formats
  it offered.\<close>

theorem negotiator_answer_subset:
  "media (negotiator_create_answer now offer ip) = List.map_filter answer_media (media offer) \<and>
   list_all (\<lambda>a. list_ex (\<lambda>m. media_type a = media_type m \<and> port a = port m \<and>
       formats a \<noteq> [] \<and> set (formats a) \<subseteq> set (formats m)) (media offer))
     (media (negotiator_create_answer now offer ip))"
proof -
  have "\<exists>m \<in> set (media offer). media_type a = media_type m \<and> port a = port m \<and>
      formats a \<noteq> [] \<and> set (formats a) \<subseteq> set (formats m)"
    if "a \<in> set (List.map_filter answer_media (media offer))" for a
    using that answer_media_Some by (fastforce simp: map_filter_def media_ok_def)
  then show ?thesis by (simp add: negotiator_answer_media list_all_iff list_ex_iff)
qed

text \<open>Offer and answer fit together over the wire: parsing the text of a basic audio offer and
  answering it gives an answer with one audio medium, PCMU (payload type 0) on the offered port 5004,
  and the answer's own text parses back to the answer.\<close>

theorem basic_offer_answer:
  assumes "word_ok ip" and "CHR ''/'' \<notin> set ip" and "word_ok ip'" and "CHR ''/'' \<notin> set ip'"
  shows "create_basic_audio_answer now' (session_encode (create_basic_audio_offer now ip)) ip'
      = Inr ((empty_session now' ip' ''TinySIP Answer'')\<lparr>media :=
          [build_media AUDIO 5004 [(0, codec_from_enum PCMU 8000 1 None None, 8000)]]\<rparr>) \<and>
    session_parse now'' (session_encode ((empty_session now' ip' ''TinySIP Answer'')\<lparr>media :=
          [build_media AUDIO 5004 [(0, codec_from_enum PCMU 8000 1 None None, 8000)]]\<rparr>))
      = Inr ((empty_session now' ip' ''TinySIP Answer'')\<lparr>media :=
          [build_media AUDIO 5004 [(0, codec_from_enum PCMU 8000 1 None None, 8000)]]\<rparr>)"
proof -
  note p = parse_session_encode[OF offer_ok[OF assms(1,2)], of now' now 5004]
  have "choice_ok (0, codec_from_enum PCMU 8000 1 None None, 8000)"
    by (simp add: choice_ok_def codec_from_enum_def)
  then have "session_ok ((empty_session now' ip' ''TinySIP Answer'')\<lparr>media :=
      [build_media AUDIO 5004 [(0, codec_from_enum PCMU 8000 1 None None, 8000)]]\<rparr>)"
    using assms(3,4) build_media_ok session_names_ok by (intro empty_session_ok) auto
  moreover have "find_compatible default_audio_codecs (map (\<lambda>(pt, _). int_str pt) default_audio_codecs)
      = Some (0, codec_from_enum PCMU 8000 1 None None, 8000)"
    by (simp add: default_audio_codecs_def)
  ultimately show ?thesis
    using p by (simp add: parse_session_encode create_basic_audio_answer_def create_basic_audio_offer_def
        offer_shape negotiator_answer_media answer_media_def map_filter_simps default_choices_ok(1) empty_session_def)
qed

theorem basic_offer_answer_witness:
  "create_basic_audio_answer 9 (session_encode (create_basic_audio_offer 5 ''10.0.0.1'')) ''10.0.0.2''
      = Inr ((empty_session 9 ''10.0.0.2'' ''TinySIP Answer'')\<lparr>media :=
          [build_media AUDIO 5004 [(0, codec_from_enum PCMU 8000 1 None None, 8000)]]\<rparr>)"
proof -
  have "word_ok ''10.0.0.1''" "word_ok ''10.0.0.2''" by (simp_all add: word_ok_def char_class_defs)
  then show ?thesis using basic_offer_answer[of "''10.0.0.1''" "''10.0.0.2''" 9 5 0] by simp
qed

text \<open>A connection line inside a media section replaces the connection address of the whole session
  and leaves the current medium's own connection address as it was.\<close>

theorem media_connection_overwrites_session:
  assumes "word_ok addr" and "CHR ''/'' \<notin> set addr"
  shows "parse_line (connection_line addr None) (s, True) = Inr (s\<lparr>connection_address := addr\<rparr>, True)"
  using parse_connection_line[OF assms, of None s True] by (simp add: truthy_int_def)

theorem media_connection_overwrites_session_witness:
  "parse_line (connection_line ''10.0.0.9'' None) (negotiator_create_offer 5 ''10.0.0.1'' 4000, True)
     = Inr ((negotiator_create_offer 5 ''10.0.0.1'' 4000)\<lparr>connection_address := ''10.0.0.9''\<rparr>, True)"
proof (rule media_connection_overwrites_session)
  show "word_ok ''10.0.0.9''" by (simp add: word_ok_def char_class_defs)
qed simp

end
