(* ===== verification/Sdp_Parser.thy ===== *)
theory Sdp_Parser
  imports Sdp_Session
begin

text \<open>
  The second parser of \<open>sdp.py\<close>: \<open>SDPParser\<close> with the classes \<open>RtpMap\<close>, \<open>MediaDesc\<close> and \<open>SDPParsed\<close>. The
  loop over the lines is a fold over a state that holds the loop's variables. The lemmas say what the
  parser makes of each kind of line that \<open>SDPBuilder\<close> prints, and of a whole media section.
\<close>

section \<open>Parsed descriptions\<close>

record RtpMap =
  rtp_pt :: int
  rtp_encoding :: string
  rtp_clock :: int
  rtp_channels :: int

record MediaDesc =
  md_media :: string
  md_port :: int
  md_proto :: string
  md_fmts :: "int list"
  md_conn_addr :: "string option"
  md_direction :: "string option"
  md_rtpmap :: "(int, RtpMap) dict"
  md_fmtp :: "(int, (string, string) dict) dict"
  md_rtcp_mux :: bool

definition new_md :: "string \<Rightarrow> int \<Rightarrow> string \<Rightarrow> int list \<Rightarrow> MediaDesc" where
  "new_md m p proto fmts = \<lparr>md_media = m, md_port = p, md_proto = proto, md_fmts = fmts, md_conn_addr = None,
     md_direction = None, md_rtpmap = [], md_fmtp = [], md_rtcp_mux = False\<rparr>"

record SDPParsed =
  sp_origin :: string
  sp_name :: string
  sp_connection :: "string option"
  sp_timing :: string
  sp_media :: "MediaDesc list"

section \<open>The expressions\<close>

definition sdp_letter :: "char \<Rightarrow> bool" where
  "sdp_letter c = (let n = code c in 65 \<le> n \<and> n \<le> 90 \<or> 97 \<le> n \<and> n \<le> 122)"

definition proto_char :: "char \<Rightarrow> bool" where
  "proto_char c = (let n = code c in 65 \<le> n \<and> n \<le> 90 \<or> 47 \<le> n \<and> n \<le> 57)"

definition encoding_char :: "char \<Rightarrow> bool" where
  "encoding_char c = (sdp_letter c \<or> 48 \<le> code c \<and> code c \<le> 57 \<or> c \<in> set ''-._'')"

definition re_m :: rx where
  "re_m = RSeq (rx_lit ''m='') (rx_seq [RGrp 1 (RRep1 sdp_letter), RRep1 is_space, RGrp 2 (RRep1 is_digit), RRep1 is_space,
     RGrp 3 (RRep1 proto_char), RRep1 is_space, RGrp 4 (RRep0 (\<lambda>c. c \<noteq> LF)), REnd])"

definition re_c :: rx where
  "re_c = RSeq (rx_lit_ci ''c=IN'') (rx_seq [RRep1 is_space, RGrp 1 (RAlt (rx_lit_ci ''IP4'') (rx_lit_ci ''IP6'')),
     RRep1 is_space, RGrp 2 (RRep1 (\<lambda>c. \<not> is_space c)), REnd])"

definition re_rtpmap :: rx where
  "re_rtpmap = RSeq (rx_lit ''a=rtpmap:'') (rx_seq [RGrp 1 (RRep1 is_digit), RRep1 is_space, RGrp 2 (RRep1 encoding_char),
     RChr (\<lambda>c. c = CHR ''/''), RGrp 3 (RRep1 is_digit),
     ROpt (RSeq (RChr (\<lambda>c. c = CHR ''/'')) (RGrp 4 (RRep1 is_digit))), REnd])"

definition re_fmtp :: rx where
  "re_fmtp = RSeq (rx_lit ''a=fmtp:'') (rx_seq [RGrp 1 (RRep1 is_digit), RRep1 is_space, RGrp 2 (RRep1 (\<lambda>c. c \<noteq> LF)), REnd])"

definition re_dir :: rx where
  "re_dir = RSeq (rx_lit ''a='') (rx_seq [RGrp 1 (RAlt (rx_lit ''sendrecv'') (RAlt (rx_lit ''sendonly'')
     (RAlt (rx_lit ''recvonly'') (rx_lit ''inactive'')))), REnd])"

section \<open>The parser\<close>

record pstate =
  ps_origin :: string
  ps_name :: string
  ps_conn :: "string option"
  ps_timing :: string
  ps_media :: "MediaDesc list"
  ps_current :: "MediaDesc option"
  ps_dir :: "string option"

definition parser_init :: pstate where
  "parser_init = \<lparr>ps_origin = [], ps_name = [], ps_conn = None, ps_timing = [], ps_media = [], ps_current = None,
     ps_dir = None\<rparr>"

definition parse_fmtp_params :: "string \<Rightarrow> (string, string) dict" where
  "parse_fmtp_params text =
     fold (\<lambda>kv0 d. let kv = strip kv0 in
         if kv = [] then d
         else case partition_at ''='' kv of
           Some (k, v) \<Rightarrow> dict_set (strip k) (strip v) d
         | None \<Rightarrow> dict_set kv [] d)
       (split_on '';'' text) []"

definition grp :: "rx_result \<Rightarrow> nat \<Rightarrow> string" where
  "grp m n = the (group_of m n)"

definition parse_rtpmap :: "rx_result \<Rightarrow> MediaDesc \<Rightarrow> MediaDesc res" where
  "parse_rtpmap m md =
     bind_res (parse_int (grp m 1)) (\<lambda>pt.
       bind_res (parse_int (grp m 3)) (\<lambda>clk.
         map_res (\<lambda>ch. md\<lparr>md_rtpmap := dict_set pt \<lparr>rtp_pt = pt, rtp_encoding = grp m 2, rtp_clock = clk, rtp_channels = ch\<rparr>
             (md_rtpmap md)\<rparr>)
           (if truthy_str (group_of m 4) then parse_int (grp m 4) else Inr 1)))"

definition parse_media_attribute :: "string \<Rightarrow> MediaDesc \<Rightarrow> MediaDesc res" where
  "parse_media_attribute ln md =
     (case rx_first re_rtpmap ln of
        Some m \<Rightarrow> parse_rtpmap m md
      | None \<Rightarrow>
          (case rx_first re_fmtp ln of
             Some m \<Rightarrow> map_res (\<lambda>pt. md\<lparr>md_fmtp := dict_set pt (parse_fmtp_params (grp m 2)) (md_fmtp md)\<rparr>) (parse_int (grp m 1))
           | None \<Rightarrow>
               (case rx_first re_dir ln of
                  Some m \<Rightarrow> Inr (md\<lparr>md_direction := Some (grp m 1)\<rparr>)
                | None \<Rightarrow> Inr (if ln = ''a=rtcp-mux'' then md\<lparr>md_rtcp_mux := True\<rparr> else md))))"

definition close_media :: "pstate \<Rightarrow> MediaDesc list" where
  "close_media st = ps_media st @ (case ps_current st of None \<Rightarrow> [] | Some md \<Rightarrow> [md])"

definition parse_media_line :: "string \<Rightarrow> pstate \<Rightarrow> pstate res" where
  "parse_media_line ln st =
     (case rx_first re_m ln of
        None \<Rightarrow> Inr st
      | Some m \<Rightarrow>
          bind_res (parse_int (grp m 2)) (\<lambda>p.
            map_res (\<lambda>fmts. st\<lparr>ps_media := close_media st, ps_current := Some (new_md (grp m 1) p (grp m 3) fmts)\<rparr>)
              (mapM_res parse_int (words (grp m 4)))))"

definition parser_line :: "string \<Rightarrow> pstate \<Rightarrow> pstate res" where
  "parser_line ln st =
     (if starts_with ln ''o='' then Inr (st\<lparr>ps_origin := strip (drop 2 ln)\<rparr>)
      else if starts_with ln ''s='' then Inr (st\<lparr>ps_name := strip (drop 2 ln)\<rparr>)
      else if starts_with ln ''t='' then Inr (st\<lparr>ps_timing := strip (drop 2 ln)\<rparr>)
      else if starts_with ln ''c='' then
        Inr (case rx_first re_c ln of Some m \<Rightarrow> st\<lparr>ps_conn := Some (grp m 2)\<rparr> | None \<Rightarrow> st)
      else if starts_with ln ''m='' then parse_media_line ln st
      else if starts_with ln ''a='' then
        (case ps_current st of
           Some md \<Rightarrow> map_res (\<lambda>md'. st\<lparr>ps_current := Some md'\<rparr>) (parse_media_attribute ln md)
         | None \<Rightarrow> Inr (case rx_first re_dir ln of Some m \<Rightarrow> st\<lparr>ps_dir := Some (grp m 1)\<rparr> | None \<Rightarrow> st))
      else Inr st)"

definition complete_md :: "string option \<Rightarrow> string option \<Rightarrow> MediaDesc \<Rightarrow> MediaDesc" where
  "complete_md dir conn md =
     md\<lparr>md_direction := Some (or_str (md_direction md) (or_str dir ''sendrecv'')),
        md_conn_addr := (if truthy_str (md_conn_addr md) then md_conn_addr md else conn)\<rparr>"

definition parser_finish :: "pstate \<Rightarrow> SDPParsed" where
  "parser_finish st =
     \<lparr>sp_origin = ps_origin st, sp_name = ps_name st, sp_connection = ps_conn st,
      sp_timing = or_str (Some (ps_timing st)) ''0 0'',
      sp_media = map (complete_md (ps_dir st) (ps_conn st)) (close_media st)\<rparr>"

definition parser_lines :: "string \<Rightarrow> string list" where
  "parser_lines text = filter (\<lambda>l. l \<noteq> []) (map strip (splitlines (strip text)))"

definition sdp_parse :: "string \<Rightarrow> SDPParsed res" where
  "sdp_parse text = map_res parser_finish (fold_res parser_line (parser_lines text) parser_init)"

section \<open>Lines\<close>

definition sdp_line :: "string \<Rightarrow> bool" where
  "sdp_line l = (l \<noteq> [] \<and> stripped l \<and> list_all (\<lambda>c. \<not> is_linebreak c) l)"

lemma linebreak_space: "is_linebreak c \<Longrightarrow> is_space c"
  by (auto simp: is_linebreak_def is_space_def Let_def)

lemma sdp_line_text: "sdp_line l \<Longrightarrow> text_line l"
proof -
  have "is_linebreak LF" by (simp add: is_linebreak_def code_def)
  then show "sdp_line l \<Longrightarrow> text_line l" by (auto simp: sdp_line_def text_line_def list_all_iff)
qed

lemma sdp_parse_lines:
  assumes "ls \<noteq> []" and "list_all sdp_line ls"
  shows "sdp_parse (join CRLF ls @ CRLF) = map_res parser_finish (fold_res parser_line ls parser_init)"
proof -
  have ok: "\<And>l. l \<in> set ls \<Longrightarrow> sdp_line l" using assms(2) by (simp add: list_all_iff)
  have "strip (join CRLF ls @ CRLF) = join CRLF ls"
    using assms(1) ok sdp_line_text by (intro strip_join_lines) auto
  moreover have "splitlines (join CRLF ls) = ls"
    using ok by (intro splitlines_join_CRLF) (auto simp: sdp_line_def list_all_iff)
  moreover have "map strip ls = ls" using ok by (intro map_idI) (simp add: sdp_line_def strip_id)
  moreover have "filter (\<lambda>l. l \<noteq> []) ls = ls" using ok by (intro filter_True) (auto simp: sdp_line_def)
  ultimately show ?thesis by (simp add: sdp_parse_def parser_lines_def)
qed

lemma letter_not_space: "sdp_letter c \<Longrightarrow> \<not> is_space c"
  by (auto simp: sdp_letter_def is_space_def Let_def)

lemma proto_not_space: "proto_char c \<Longrightarrow> \<not> is_space c"
  by (auto simp: proto_char_def is_space_def Let_def)

lemma encoding_not_space: "encoding_char c \<Longrightarrow> \<not> is_space c"
  using letter_not_space by (auto simp: encoding_char_def is_space_def code_def Let_def)

lemma digits_int_str: "0 \<le> n \<Longrightarrow> \<forall>c \<in> set (int_str n). is_digit c"
  using nat_str_digits by (simp add: int_str_def)

text \<open>Words over a class of characters that holds no white space.\<close>

definition over :: "(char \<Rightarrow> bool) \<Rightarrow> string \<Rightarrow> bool" where
  "over p w = (w \<noteq> [] \<and> list_all p w)"

lemma over_word: "over p w \<Longrightarrow> (\<And>c. p c \<Longrightarrow> \<not> is_space c) \<Longrightarrow> word_ok w"
  by (auto simp: over_def word_ok_def list_all_iff)

lemma over_digits: "0 \<le> n \<Longrightarrow> over is_digit (int_str n)"
  using digits_int_str[of n] by (auto simp: over_def list_all_iff)

lemma begins_grp_over:
  "over p w \<Longrightarrow> s = [] \<or> \<not> p (hd s) \<Longrightarrow> rx_begins (RGrp n (RRep1 p)) (w @ s) g (w, s, dict_set n w g)"
  by (intro begins_grp begins_rep1) (auto simp: over_def list_all_iff)

lemma begins_space:
  "s \<noteq> [] \<Longrightarrow> \<not> is_space (hd s) \<Longrightarrow> rx_begins (RRep1 is_space) ('' '' @ s) g ('' '', s, g)"
  by (intro begins_rep1) (auto simp: char_class_defs)

lemma space_not_class [simp]:
  "\<not> sdp_letter (CHR '' '')" "\<not> is_digit (CHR '' '')" "\<not> proto_char (CHR '' '')" "\<not> encoding_char (CHR ''/'')"
  "\<not> is_digit (CHR ''/'')"
  by (simp_all add: sdp_letter_def proto_char_def encoding_char_def char_class_defs code_def)

definition media_line_text :: "string \<Rightarrow> int \<Rightarrow> string \<Rightarrow> int list \<Rightarrow> string" where
  "media_line_text name p prof fmts =
     ''m='' @ name @ '' '' @ int_str p @ '' '' @ prof @ '' '' @ join '' '' (map int_str fmts)"

lemma word_hd: "word_ok w \<Longrightarrow> w @ s \<noteq> [] \<and> \<not> is_space (hd (w @ s))"
  by (cases w) (auto simp: word_ok_def)

lemma mapM_parse_int [simp]: "mapM_res (\<lambda>s. parse_int s) (map int_str ns) = Inr ns"
  by (induction ns) auto

lemma words_ints: "words (join '' '' (map int_str ns)) = map int_str ns"
  using int_str_word by (intro words_join) auto

lemma join_ints_word:
  assumes "ns \<noteq> []"
  shows "stripped (join '' '' (map int_str ns)) \<and> join '' '' (map int_str ns) \<noteq> []"
proof -
  have "word_ok (int_str (hd ns))" "word_ok (int_str (last ns))" by (rule int_str_word)+
  with assms show ?thesis
    using hd_join[of "int_str (hd ns)" "'' ''" "map int_str (tl ns)"] last_join[of "map int_str ns" "'' ''"]
    by (cases ns) (auto simp: stripped_def word_ok_def last_map)
qed

lemma join_ints_no_break: "c \<in> set (join '' '' (map int_str ns)) \<Longrightarrow> \<not> is_linebreak c"
proof (induction ns)
  case (Cons n ns)
  have "\<not> is_linebreak (CHR '' '')" by (simp add: is_linebreak_def code_def)
  moreover have "c \<in> set (int_str n) \<Longrightarrow> \<not> is_linebreak c" for n
    using int_str_word[of n] by (auto simp: word_ok_def list_all_iff dest: linebreak_space)
  ultimately show ?case using Cons by (cases ns) auto
qed simp

lemma re_m_first:
  assumes "over sdp_letter name" and "0 \<le> p" and "over proto_char prof" and "fmts \<noteq> []"
  shows "\<exists>m. rx_first re_m (media_line_text name p prof fmts) = Some m \<and> grp m 1 = name \<and> grp m 2 = int_str p \<and>
    grp m 3 = prof \<and> grp m 4 = join '' '' (map int_str fmts)"
proof -
  let ?F = "join '' '' (map int_str fmts)" and ?P = "int_str p"
  have F: "?F @ [] \<noteq> []" "\<not> is_space (hd (?F @ []))" "\<forall>c \<in> set ?F. c \<noteq> LF"
    using join_ints_word[OF assms(4)] join_ints_no_break[of LF fmts] by (auto simp: stripped_def is_linebreak_def code_def)
  have w: "word_ok ?P" "word_ok prof"
    using over_word[OF assms(3) proto_not_space] int_str_word by auto
  note b = begins_seq[OF begins_lit begins_seq[OF begins_grp_over[OF assms(1)]
      begins_seq[OF begins_space[OF word_hd[OF w(1), THEN conjunct1] word_hd[OF w(1), THEN conjunct2]]
      begins_seq[OF begins_grp_over[OF over_digits[OF assms(2)]]
      begins_seq[OF begins_space[OF word_hd[OF w(2), THEN conjunct1] word_hd[OF w(2), THEN conjunct2]]
      begins_seq[OF begins_grp_over[OF assms(3)]
      begins_seq[OF begins_space[OF F(1,2)] begins_seq[OF begins_grp[OF begins_rep0[OF F(3)]] begins_end]]]]]]]]
  have "rx_begins re_m (''m='' @ name @ '' '' @ ?P @ '' '' @ prof @ '' '' @ ?F @ []) []
    (''m='' @ name @ '' '' @ ?P @ '' '' @ prof @ '' '' @ ?F @ [], [], dict_set 4 ?F (dict_set 3 prof (dict_set 2 ?P (dict_set 1 name []))))"
    unfolding re_m_def rx_seq.simps by (rule b) simp_all
  from begins_first[OF this] show ?thesis by (auto simp: media_line_text_def grp_def group_of_def)
qed

lemma parser_media_line:
  assumes "over sdp_letter name" and "0 \<le> p" and "over proto_char prof" and "fmts \<noteq> []"
  shows "parser_line (media_line_text name p prof fmts) st =
    Inr (st\<lparr>ps_media := close_media st, ps_current := Some (new_md name p prof fmts)\<rparr>)"
proof -
  have "starts_with (media_line_text name p prof fmts) ''m=''" by (simp add: media_line_text_def)
  then have "parser_line (media_line_text name p prof fmts) st = parse_media_line (media_line_text name p prof fmts) st"
    by (simp add: parser_line_def media_line_text_def)
  with re_m_first[OF assms] show ?thesis by (auto simp: parse_media_line_def words_ints)
qed

text \<open>A line made of a key and a text that ends without white space and has no line break.\<close>

lemma sdp_line_key:
  assumes "\<not> is_space k" and "\<not> is_linebreak k" and "rstripped v" and "list_all (\<lambda>c. \<not> is_linebreak c) v"
  shows "sdp_line (k # CHR ''='' # v)"
  using assms by (auto simp: sdp_line_def stripped_def rstripped_def) (auto simp: is_linebreak_def code_def)

lemma word_no_break: "word_ok w \<Longrightarrow> list_all (\<lambda>c. \<not> is_linebreak c) w"
  using linebreak_space by (auto simp: word_ok_def list_all_iff)

lemma literal_no_break [simp]: "\<not> is_linebreak (CHR '' '')" "\<not> is_linebreak (CHR ''/'')" "\<not> is_linebreak (CHR ''='')"
  "\<not> is_linebreak (CHR ''a'')" "\<not> is_linebreak (CHR ''m'')" "\<not> is_linebreak (CHR ''c'')" "\<not> is_linebreak (CHR ''o'')"
  "\<not> is_linebreak (CHR ''s'')" "\<not> is_linebreak (CHR ''t'')" "\<not> is_linebreak (CHR '':'')" "\<not> is_linebreak (CHR '';'')"
  by (simp_all add: is_linebreak_def code_def)

lemma media_line_ok:
  assumes "over sdp_letter name" and "over proto_char prof" and "fmts \<noteq> []"
  shows "sdp_line (media_line_text name p prof fmts)"
proof -
  let ?F = "join '' '' (map int_str fmts)"
  have w: "word_ok name" "word_ok prof" "word_ok (int_str p)"
    using over_word[OF assms(1) letter_not_space] over_word[OF assms(2) proto_not_space] int_str_word by auto
  have "rstripped (name @ '' '' @ int_str p @ '' '' @ prof @ '' '' @ ?F)"
    using join_ints_word[OF assms(3)] by (auto simp: rstripped_def stripped_def)
  moreover have "list_all (\<lambda>c. \<not> is_linebreak c) (name @ '' '' @ int_str p @ '' '' @ prof @ '' '' @ ?F)"
    using w[THEN word_no_break] join_ints_no_break by (auto simp: list_all_iff)
  ultimately show ?thesis using sdp_line_key[of "CHR ''m''"] by (simp add: media_line_text_def)
qed

definition conn_text :: "string \<Rightarrow> string" where
  "conn_text ip = ''c=IN IP4 '' @ ip"

lemma parser_conn_line:
  assumes "word_ok ip"
  shows "parser_line (conn_text ip) st = Inr (st\<lparr>ps_conn := Some ip\<rparr>)"
proof -
  have o: "over (\<lambda>c. \<not> is_space c) ip" using assms by (auto simp: over_def word_ok_def list_all_iff)
  have i: "\<not> is_space (CHR ''I'')" by (simp add: char_class_defs)
  note b = begins_seq[OF begins_lit_ci begins_seq[OF begins_space begins_seq[OF begins_grp[OF begins_alt1[OF begins_lit_ci]]
      begins_seq[OF begins_space[OF word_hd[OF assms, THEN conjunct1] word_hd[OF assms, THEN conjunct2]]
      begins_seq[OF begins_grp_over[OF o] begins_end]]]]]
  have "rx_begins re_c (''c=IN'' @ '' '' @ ''IP4'' @ '' '' @ ip @ []) []
      (''c=IN'' @ '' '' @ ''IP4'' @ '' '' @ ip @ [], [], dict_set 2 ip (dict_set 1 ''IP4'' []))"
    unfolding re_c_def rx_seq.simps by (rule b) (simp_all add: i)
  from begins_first[OF this] show ?thesis by (simp add: parser_line_def conn_text_def grp_def group_of_def)
qed

definition rtpmap_text :: "int \<Rightarrow> string \<Rightarrow> int \<Rightarrow> int \<Rightarrow> string" where
  "rtpmap_text pt name clk ch =
     ''a=rtpmap:'' @ int_str pt @ '' '' @ name @ ''/'' @ int_str clk @ (if ch \<noteq> 0 \<and> ch \<noteq> 1 then ''/'' @ int_str ch else [])"

lemma re_rtpmap_first:
  assumes "0 \<le> pt" and "over encoding_char name" and "0 \<le> clk" and "0 < ch"
  shows "\<exists>m. rx_first re_rtpmap (rtpmap_text pt name clk ch) = Some m \<and> grp m 1 = int_str pt \<and> grp m 2 = name \<and>
    grp m 3 = int_str clk \<and> group_of m 4 = (if ch \<noteq> 1 then Some (int_str ch) else None)"
proof -
  let ?P = "int_str pt" and ?C = "int_str clk" and ?H = "int_str ch"
  have w: "word_ok name" using over_word[OF assms(2) encoding_not_space] .
  note n = word_hd[OF w, THEN conjunct1] word_hd[OF w, THEN conjunct2]
  show ?thesis
  proof (cases "ch = 1")
    case True
    have "rx_match (RSeq (RChr (\<lambda>c. c = CHR ''/'')) (RGrp 4 (RRep1 is_digit))) [] g = []" for g by simp
    note b = begins_seq[OF begins_lit begins_seq[OF begins_grp_over[OF over_digits[OF assms(1)]] begins_seq[OF begins_space[OF n]
        begins_seq[OF begins_grp_over[OF assms(2)] begins_seq[OF begins_chr begins_seq[OF begins_grp_over[OF over_digits[OF assms(3)]]
        begins_seq[OF begins_opt_none[OF this] begins_end]]]]]]]
    have "rx_begins re_rtpmap (''a=rtpmap:'' @ ?P @ '' '' @ name @ CHR ''/'' # ?C @ []) []
      (''a=rtpmap:'' @ ?P @ '' '' @ name @ [CHR ''/''] @ ?C @ [] @ [], [], dict_set 3 ?C (dict_set 2 name (dict_set 1 ?P [])))"
      unfolding re_rtpmap_def rx_seq.simps by (rule b) simp_all
    from begins_first[OF this] True show ?thesis by (auto simp: rtpmap_text_def grp_def group_of_def)
  next
    case False
    have h: "over is_digit ?H" using assms(4) by (intro over_digits) simp
    note b = begins_seq[OF begins_lit begins_seq[OF begins_grp_over[OF over_digits[OF assms(1)]] begins_seq[OF begins_space[OF n]
        begins_seq[OF begins_grp_over[OF assms(2)] begins_seq[OF begins_chr begins_seq[OF begins_grp_over[OF over_digits[OF assms(3)]]
        begins_seq[OF begins_opt_some[OF begins_seq[OF begins_chr begins_grp_over[OF h]]] begins_end]]]]]]]
    have "rx_begins re_rtpmap (''a=rtpmap:'' @ ?P @ '' '' @ name @ CHR ''/'' # ?C @ CHR ''/'' # ?H @ []) []
      (''a=rtpmap:'' @ ?P @ '' '' @ name @ [CHR ''/''] @ ?C @ ([CHR ''/''] @ ?H) @ [], [],
        dict_set 4 ?H (dict_set 3 ?C (dict_set 2 name (dict_set 1 ?P []))))"
      unfolding re_rtpmap_def rx_seq.simps by (rule b) simp_all
    from begins_first[OF this] False assms(4) show ?thesis by (auto simp: rtpmap_text_def grp_def group_of_def)
  qed
qed

lemma rtpmap_line_ok:
  assumes "over encoding_char name"
  shows "sdp_line (rtpmap_text pt name clk ch)"
proof -
  have w: "word_ok name" using over_word[OF assms encoding_not_space] .
  let ?t = "''rtpmap:'' @ int_str pt @ '' '' @ name @ ''/'' @ int_str clk @ (if ch \<noteq> 0 \<and> ch \<noteq> 1 then ''/'' @ int_str ch else [])"
  have i: "word_ok (int_str n)" for n by (rule int_str_word)
  have "rstripped ?t"
    using i[of clk] i[of ch] by (auto simp: rstripped_def word_ok_def)
  moreover have "list_all (\<lambda>c. \<not> is_linebreak c) ?t"
    using word_no_break[OF w] word_no_break[OF i] by (auto simp: list_all_append) (auto simp: is_linebreak_def code_def)
  ultimately show ?thesis using sdp_line_key[of "CHR ''a''" ?t] by (simp add: rtpmap_text_def)
qed

lemma parser_attribute_line:
  assumes "ps_current st = Some md" and "parse_media_attribute (''a='' @ v) md = Inr md'"
  shows "parser_line (''a='' @ v) st = Inr (st\<lparr>ps_current := Some md'\<rparr>)"
  using assms by (simp add: parser_line_def)

lemma parse_rtpmap_attribute:
  assumes "0 \<le> pt" and "over encoding_char name" and "0 \<le> clk" and "0 < ch"
  shows "parse_media_attribute (rtpmap_text pt name clk ch) md =
    Inr (md\<lparr>md_rtpmap := dict_set pt \<lparr>rtp_pt = pt, rtp_encoding = name, rtp_clock = clk, rtp_channels = ch\<rparr> (md_rtpmap md)\<rparr>)"
proof -
  obtain m where m: "rx_first re_rtpmap (rtpmap_text pt name clk ch) = Some m" "grp m 1 = int_str pt" "grp m 2 = name"
    "grp m 3 = int_str clk" "group_of m 4 = (if ch \<noteq> 1 then Some (int_str ch) else None)"
    using re_rtpmap_first[OF assms] by blast
  have "grp m 4 = int_str ch" if "ch \<noteq> 1" using m(5) that by (simp add: grp_def)
  with m show ?thesis by (simp add: parse_media_attribute_def parse_rtpmap_def)
qed

text \<open>Format parameters that a parser reads back as they were printed.\<close>

definition params_ok :: "(string, string) dict \<Rightarrow> bool" where
  "params_ok d =
     (dict_ok d \<and> list_all (\<lambda>(k, v). k \<noteq> [] \<and> stripped k \<and> stripped v \<and> CHR ''='' \<notin> set k \<and>
        list_all (\<lambda>c. c \<noteq> CHR '';'' \<and> \<not> is_linebreak c) (k @ v)) d)"

lemma params_okD:
  assumes "params_ok d" and "(k, v) \<in> set d"
  shows "k \<noteq> []" "stripped k" "stripped v" "CHR ''='' \<notin> set k" "CHR '';'' \<notin> set (k @ ''='' @ v)"
    "list_all (\<lambda>c. \<not> is_linebreak c) (k @ ''='' @ v)"
proof -
  have "\<forall>x \<in> set d. case x of (k, v) \<Rightarrow> k \<noteq> [] \<and> stripped k \<and> stripped v \<and> CHR ''='' \<notin> set k \<and>
      list_all (\<lambda>c. c \<noteq> CHR '';'' \<and> \<not> is_linebreak c) (k @ v)"
    using assms(1) unfolding params_ok_def list_all_iff by (rule conjunct2)
  from bspec[OF this assms(2)] have *: "k \<noteq> []" "stripped k" "stripped v" "CHR ''='' \<notin> set k"
    "list_all (\<lambda>c. c \<noteq> CHR '';'' \<and> \<not> is_linebreak c) k" "list_all (\<lambda>c. c \<noteq> CHR '';'' \<and> \<not> is_linebreak c) v"
    by simp_all
  from *(5,6) have "CHR '';'' \<notin> set k" "CHR '';'' \<notin> set v" "list_all (\<lambda>c. \<not> is_linebreak c) k" "list_all (\<lambda>c. \<not> is_linebreak c) v"
    unfolding list_all_iff by blast+
  with *(1-4) show "k \<noteq> []" "stripped k" "stripped v" "CHR ''='' \<notin> set k" "CHR '';'' \<notin> set (k @ ''='' @ v)"
    "list_all (\<lambda>c. \<not> is_linebreak c) (k @ ''='' @ v)" by simp_all
qed

definition params_text :: "(string, string) dict \<Rightarrow> string" where
  "params_text d = join '';'' (map (\<lambda>(k, v). k @ ''='' @ v) d)"

definition fmtp_text :: "int \<Rightarrow> (string, string) dict \<Rightarrow> string" where
  "fmtp_text pt d = ''a=fmtp:'' @ int_str pt @ '' '' @ params_text d"

lemma dict_set_fresh: "k \<notin> set (dict_keys d) \<Longrightarrow> dict_set k v d = d @ [(k, v)]"
  by (induction d) (auto simp: dict_keys_def)

lemma fold_dict_set: "dict_ok (acc @ d) \<Longrightarrow> fold (\<lambda>(k, v). dict_set k v) d acc = acc @ d"
proof (induction d arbitrary: acc)
  case (Cons x d)
  obtain k v where x: "x = (k, v)" by (cases x)
  have "dict_set k v acc = acc @ [(k, v)]" using Cons.prems x by (intro dict_set_fresh) (auto simp: dict_ok_def dict_keys_def)
  with Cons x show ?case by simp
qed simp

lemma param_strip:
  assumes "k \<noteq> []" and "stripped k" and "stripped v"
  shows "strip (k @ ''='' @ v) = k @ ''='' @ v"
  using assms by (intro strip_id) (auto simp: stripped_def)

lemma parse_params_text:
  assumes "params_ok d" and "d \<noteq> []"
  shows "parse_fmtp_params (params_text d) = d"
proof -
  let ?f = "\<lambda>(k, v). k @ ''='' @ (v :: string)"
  let ?step = "\<lambda>kv0 d. let kv = strip kv0 in if kv = [] then d
      else case partition_at ''='' kv of Some (k, v) \<Rightarrow> dict_set (strip k) (strip v) d | None \<Rightarrow> dict_set kv [] d"
  have sp: "split_on '';'' (params_text d) = map ?f d"
    unfolding params_text_def
  proof (rule split_on_join_char)
    show "map ?f d \<noteq> []" using assms(2) by simp
    show "CHR '';'' \<notin> set l" if "l \<in> set (map ?f d)" for l
      using that params_okD(5)[OF assms(1)] by auto
  qed
  have "fold ?step (map ?f xs) acc = fold (\<lambda>(k, v). dict_set k v) xs acc" if "set xs \<subseteq> set d" for xs acc
    using that
  proof (induction xs arbitrary: acc)
    case (Cons x xs)
    obtain k v where x: "x = (k, v)" by (cases x)
    then have "(k, v) \<in> set d" using Cons.prems by auto
    note kv = params_okD[OF assms(1) this]
    have "?step (k @ ''='' @ v) acc = dict_set k v acc"
      unfolding param_strip[OF kv(1-3)] Let_def using kv(1-4) by (simp add: strip_id partition_at_char)
    with Cons.IH[of "dict_set k v acc"] Cons.prems show ?case by (simp only: x list.map fold_simps o_apply case_prod_conv) simp
  qed simp
  from this[OF subset_refl, of "[]"] have "parse_fmtp_params (params_text d) = fold (\<lambda>(k, v). dict_set k v) d []"
    by (simp add: parse_fmtp_params_def sp)
  with fold_dict_set[of "[]" d] assms(1) show ?thesis by (simp add: params_ok_def)
qed

lemma params_text_ok:
  assumes "params_ok d" and "d \<noteq> []"
  shows "params_text d \<noteq> [] \<and> stripped (params_text d) \<and> list_all (\<lambda>c. \<not> is_linebreak c) (params_text d)"
proof -
  let ?f = "\<lambda>(k, v). k @ ''='' @ (v :: string)"
  have s: "l \<noteq> [] \<and> stripped l" if "l \<in> set (map ?f d)" for l
  proof -
    have "l \<in> ?f ` set d" using that by simp
    then obtain x where x: "x \<in> set d" "l = ?f x" by blast
    obtain k v where k: "x = (k, v)" by (cases x)
    with x have kv: "(k, v) \<in> set d" "l = k @ ''='' @ v" by simp_all
    from params_okD(1-3)[OF assms(1) kv(1)] show ?thesis by (auto simp: kv(2) stripped_def)
  qed
  have "stripped (join '';'' (map ?f d)) \<and> join '';'' (map ?f d) \<noteq> []"
  proof -
    obtain l ls where l: "map ?f d = l # ls" using assms(2) by (cases d) auto
    have "last (map ?f d) \<in> set (map ?f d)" using assms(2) by (intro last_in_set) simp
    with s have "last (map ?f d) \<noteq> []" "stripped (last (map ?f d))" by blast+
    moreover have "l \<noteq> []" "stripped l" using s l by auto
    ultimately show ?thesis using hd_join[of l "'';''" ls] last_join[of "map ?f d" "'';''"] l by (auto simp: stripped_def)
  qed
  moreover have "list_all (\<lambda>c. \<not> is_linebreak c) (join '';'' ls)" if "\<And>l. l \<in> set ls \<Longrightarrow> list_all (\<lambda>c. \<not> is_linebreak c) l" for ls
    using that by (induction "'';''" ls rule: join.induct) auto
  moreover have "list_all (\<lambda>c. \<not> is_linebreak c) l" if "l \<in> set (map ?f d)" for l
    using that params_okD(6)[OF assms(1)] by auto
  ultimately show ?thesis unfolding params_text_def by blast
qed

lemma fmtp_line_ok:
  assumes "params_ok d" and "d \<noteq> []"
  shows "sdp_line (fmtp_text pt d)"
proof -
  let ?t = "''fmtp:'' @ int_str pt @ '' '' @ params_text d"
  have "rstripped ?t" using params_text_ok[OF assms] by (auto simp: rstripped_def stripped_def)
  moreover have "list_all (\<lambda>c. \<not> is_linebreak c) ?t"
    using params_text_ok[OF assms] word_no_break[OF int_str_word[of pt]] by simp (simp add: is_linebreak_def code_def)
  ultimately show ?thesis using sdp_line_key[of "CHR ''a''" ?t] by (simp add: fmtp_text_def)
qed

lemma parse_fmtp_attribute:
  assumes "0 \<le> pt" and "params_ok d" and "d \<noteq> []"
  shows "parse_media_attribute (fmtp_text pt d) md = Inr (md\<lparr>md_fmtp := dict_set pt d (md_fmtp md)\<rparr>)"
proof -
  let ?P = "int_str pt" and ?T = "params_text d"
  note t = params_text_ok[OF assms(2,3)]
  have T: "?T @ [] \<noteq> []" "\<not> is_space (hd (?T @ []))" using t by (auto simp: stripped_def)
  have "is_linebreak LF" by (simp add: is_linebreak_def code_def)
  then have o: "over (\<lambda>c. c \<noteq> LF) ?T" using t by (auto simp: over_def list_all_iff)
  note b = begins_seq[OF begins_lit begins_seq[OF begins_grp_over[OF over_digits[OF assms(1)]] begins_seq[OF begins_space[OF T]
      begins_seq[OF begins_grp_over[OF o] begins_end]]]]
  have "rx_begins re_fmtp (''a=fmtp:'' @ ?P @ '' '' @ ?T @ []) []
      (''a=fmtp:'' @ ?P @ '' '' @ ?T @ [], [], dict_set 2 ?T (dict_set 1 ?P []))"
    unfolding re_fmtp_def rx_seq.simps by (rule b) simp_all
  from begins_first[OF this] have f: "rx_first re_fmtp (fmtp_text pt d) = Some (''a=fmtp:'' @ ?P @ '' '' @ ?T, [], [(1, ?P), (2, ?T)])"
    by (simp add: fmtp_text_def)
  have "rx_first re_rtpmap (fmtp_text pt d) = None"
    unfolding rx_first_None re_rtpmap_def by (rule rx_lit_fails) (simp add: fmtp_text_def)
  with f parse_params_text[OF assms(2,3)] show ?thesis by (simp add: parse_media_attribute_def grp_def group_of_def)
qed

definition directions :: "string list" where
  "directions = [''sendrecv'', ''sendonly'', ''recvonly'', ''inactive'']"

lemma parse_direction_attribute:
  assumes "dir \<in> set directions"
  shows "parse_media_attribute (''a='' @ dir) md = Inr (md\<lparr>md_direction := Some dir\<rparr>)"
proof -
  have "rx_first re_rtpmap (''a='' @ dir) = None" "rx_first re_fmtp (''a='' @ dir) = None"
    unfolding rx_first_None re_rtpmap_def re_fmtp_def
    using assms by (intro rx_lit_fails; auto simp: directions_def)+
  moreover have "rx_first re_dir (''a='' @ dir) = Some (''a='' @ dir, [], [(1, dir)])"
  proof -
    have "dir = ''sendrecv'' \<or> dir = ''sendonly'' \<or> dir = ''recvonly'' \<or> dir = ''inactive''"
      using assms by (simp add: directions_def)
    then show ?thesis by (elim disjE) (simp_all add: re_dir_def rx_first_def rx_match_lit)
  qed
  ultimately show ?thesis by (simp add: parse_media_attribute_def grp_def group_of_def)
qed

lemma parse_mux_attribute: "parse_media_attribute ''a=rtcp-mux'' md = Inr (md\<lparr>md_rtcp_mux := True\<rparr>)"
proof -
  have "rx_first re_rtpmap ''a=rtcp-mux'' = None" "rx_first re_fmtp ''a=rtcp-mux'' = None"
    unfolding rx_first_None re_rtpmap_def re_fmtp_def by (intro rx_lit_fails; simp)+
  moreover have "rx_first re_dir ''a=rtcp-mux'' = None"
    by (simp add: re_dir_def rx_first_def rx_match_lit)
  ultimately show ?thesis by (simp add: parse_media_attribute_def)
qed

lemma direction_line_ok: "dir \<in> set directions \<Longrightarrow> sdp_line (''a='' @ dir)"
  by (auto simp: directions_def sdp_line_def stripped_def char_class_defs is_linebreak_def)

lemma mux_line_ok: "sdp_line ''a=rtcp-mux''"
  by (simp add: sdp_line_def stripped_def char_class_defs is_linebreak_def)

section \<open>Media sections\<close>

text \<open>A payload type and the codec it stands for, as a section prints them.\<close>

type_synonym pt_entry = "int \<times> SDPCodec"

definition entry_ok :: "pt_entry \<Rightarrow> bool" where
  "entry_ok = (\<lambda>(pt, c). 0 \<le> pt \<and> over encoding_char (codec_name c) \<and> 0 \<le> clock c \<and> 0 < channels c \<and> params_ok (codec_fmtp c))"

definition entry_rtpmap :: "pt_entry \<Rightarrow> RtpMap" where
  "entry_rtpmap = (\<lambda>(pt, c). \<lparr>rtp_pt = pt, rtp_encoding = codec_name c, rtp_clock = clock c, rtp_channels = channels c\<rparr>)"

definition rtpmaps :: "pt_entry list \<Rightarrow> (int, RtpMap) dict" where
  "rtpmaps es = fold (\<lambda>e. dict_set (fst e) (entry_rtpmap e)) es []"

definition with_params :: "pt_entry list \<Rightarrow> pt_entry list" where
  "with_params es = filter (\<lambda>(pt, c). codec_fmtp c \<noteq> []) es"

definition fmtps :: "pt_entry list \<Rightarrow> (int, (string, string) dict) dict" where
  "fmtps es = fold (\<lambda>(pt, c). dict_set pt (codec_fmtp c)) (with_params es) []"

definition section_lines :: "string \<Rightarrow> int \<Rightarrow> string \<Rightarrow> string \<Rightarrow> bool \<Rightarrow> pt_entry list \<Rightarrow> string list" where
  "section_lines name p prof dir mux es =
     [media_line_text name p prof (map fst es), ''a='' @ dir] @ (if mux then [''a=rtcp-mux''] else [])
     @ map (\<lambda>(pt, c). rtpmap_text pt (codec_name c) (clock c) (channels c)) es
     @ map (\<lambda>(pt, c). fmtp_text pt (codec_fmtp c)) (with_params es)"

definition section_desc :: "string \<Rightarrow> int \<Rightarrow> string \<Rightarrow> string \<Rightarrow> bool \<Rightarrow> pt_entry list \<Rightarrow> MediaDesc" where
  "section_desc name p prof dir mux es =
     (new_md name p prof (map fst es))\<lparr>md_direction := Some dir, md_rtpmap := rtpmaps es, md_fmtp := fmtps es, md_rtcp_mux := mux\<rparr>"

lemma parse_rtpmap_lines:
  "list_all entry_ok es \<Longrightarrow> ps_current st = Some md \<Longrightarrow>
   fold_res parser_line (map (\<lambda>(pt, c). rtpmap_text pt (codec_name c) (clock c) (channels c)) es) st =
     Inr (st\<lparr>ps_current := Some (md\<lparr>md_rtpmap := fold (\<lambda>e. dict_set (fst e) (entry_rtpmap e)) es (md_rtpmap md)\<rparr>)\<rparr>)"
proof (induction es arbitrary: st md)
  case (Cons e es)
  obtain pt c where e: "e = (pt, c)" by (cases e)
  have "parser_line (rtpmap_text pt (codec_name c) (clock c) (channels c)) st =
      Inr (st\<lparr>ps_current := Some (md\<lparr>md_rtpmap := dict_set pt (entry_rtpmap e) (md_rtpmap md)\<rparr>)\<rparr>)"
  proof -
    have "parse_media_attribute (rtpmap_text pt (codec_name c) (clock c) (channels c)) md =
        Inr (md\<lparr>md_rtpmap := dict_set pt (entry_rtpmap e) (md_rtpmap md)\<rparr>)"
      using Cons.prems(1) by (simp add: e entry_ok_def entry_rtpmap_def parse_rtpmap_attribute)
    with parser_attribute_line[OF Cons.prems(2)] show ?thesis by (simp add: rtpmap_text_def)
  qed
  with Cons.IH[of "st\<lparr>ps_current := Some (md\<lparr>md_rtpmap := dict_set pt (entry_rtpmap e) (md_rtpmap md)\<rparr>)\<rparr>"] Cons.prems e
  show ?case by simp
qed simp

lemma parse_fmtp_lines:
  "list_all entry_ok es \<Longrightarrow> list_all (\<lambda>(pt, c). codec_fmtp c \<noteq> []) es \<Longrightarrow> ps_current st = Some md \<Longrightarrow>
   fold_res parser_line (map (\<lambda>(pt, c). fmtp_text pt (codec_fmtp c)) es) st =
     Inr (st\<lparr>ps_current := Some (md\<lparr>md_fmtp := fold (\<lambda>(pt, c). dict_set pt (codec_fmtp c)) es (md_fmtp md)\<rparr>)\<rparr>)"
proof (induction es arbitrary: st md)
  case (Cons e es)
  obtain pt c where e: "e = (pt, c)" by (cases e)
  have "parser_line (fmtp_text pt (codec_fmtp c)) st =
      Inr (st\<lparr>ps_current := Some (md\<lparr>md_fmtp := dict_set pt (codec_fmtp c) (md_fmtp md)\<rparr>)\<rparr>)"
  proof -
    have "parse_media_attribute (fmtp_text pt (codec_fmtp c)) md = Inr (md\<lparr>md_fmtp := dict_set pt (codec_fmtp c) (md_fmtp md)\<rparr>)"
      using Cons.prems(1,2) by (simp add: e entry_ok_def parse_fmtp_attribute)
    with parser_attribute_line[OF Cons.prems(3)] show ?thesis by (simp add: fmtp_text_def)
  qed
  with Cons.IH[of "st\<lparr>ps_current := Some (md\<lparr>md_fmtp := dict_set pt (codec_fmtp c) (md_fmtp md)\<rparr>)\<rparr>"] Cons.prems e
  show ?case by simp
qed simp

text \<open>What is printed for one media: a line that rejects it, or a section that describes it.\<close>

datatype media_text =
    Rejected string string "int list"
  | Accepted string int string string bool "pt_entry list"

fun text_lines :: "media_text \<Rightarrow> string list" where
  "text_lines (Rejected name prof fmts) = [media_line_text name 0 prof fmts]"
| "text_lines (Accepted name p prof dir mux es) = section_lines name p prof dir mux es"

fun text_desc :: "media_text \<Rightarrow> MediaDesc" where
  "text_desc (Rejected name prof fmts) = new_md name 0 prof fmts"
| "text_desc (Accepted name p prof dir mux es) = section_desc name p prof dir mux es"

fun text_ok :: "media_text \<Rightarrow> bool" where
  "text_ok (Rejected name prof fmts) = (over sdp_letter name \<and> over proto_char prof \<and> fmts \<noteq> [])"
| "text_ok (Accepted name p prof dir mux es) =
     (over sdp_letter name \<and> 0 \<le> p \<and> over proto_char prof \<and> dir \<in> set directions \<and> es \<noteq> [] \<and> list_all entry_ok es)"

lemma with_params_ok: "list_all entry_ok es \<Longrightarrow> list_all entry_ok (with_params es) \<and> list_all (\<lambda>(pt, c). codec_fmtp c \<noteq> []) (with_params es)"
  by (auto simp: with_params_def list_all_iff)

lemma parse_text:
  assumes "text_ok t"
  shows "fold_res parser_line (text_lines t) st = Inr (st\<lparr>ps_media := close_media st, ps_current := Some (text_desc t)\<rparr>)"
proof (cases t)
  case (Rejected name prof fmts)
  with assms show ?thesis by (simp add: parser_media_line)
next
  case (Accepted name p prof dir mux es)
  note ok = assms[unfolded Accepted text_ok.simps]
  define md0 where "md0 = new_md name p prof (map fst es)"
  define md1 where "md1 = md0\<lparr>md_direction := Some dir\<rparr>"
  define md2 where "md2 = (if mux then md1\<lparr>md_rtcp_mux := True\<rparr> else md1)"
  let ?st = "\<lambda>md. st\<lparr>ps_media := close_media st, ps_current := Some md\<rparr>"
  have s0: "parser_line (media_line_text name p prof (map fst es)) st = Inr (?st md0)"
    using ok by (simp add: parser_media_line md0_def)
  have s1: "parser_line (''a='' @ dir) (?st md0) = Inr (?st md1)"
    using parser_attribute_line[of "?st md0" md0 dir md1] parse_direction_attribute[of dir md0] ok by (simp add: md1_def)
  have s2: "fold_res parser_line (if mux then [''a=rtcp-mux''] else []) (?st md1) = Inr (?st md2)"
    using parser_attribute_line[of "?st md1" md1 "''rtcp-mux''"] parse_mux_attribute[of md1] by (simp add: md2_def)
  have s3: "fold_res parser_line (map (\<lambda>(pt, c). rtpmap_text pt (codec_name c) (clock c) (channels c)) es) (?st md2) =
      Inr (?st (md2\<lparr>md_rtpmap := rtpmaps es\<rparr>))"
    using parse_rtpmap_lines[of es "?st md2" md2] ok by (simp add: rtpmaps_def md2_def md1_def md0_def new_md_def)
  have s4: "fold_res parser_line (map (\<lambda>(pt, c). fmtp_text pt (codec_fmtp c)) (with_params es)) (?st (md2\<lparr>md_rtpmap := rtpmaps es\<rparr>)) =
      Inr (?st (md2\<lparr>md_rtpmap := rtpmaps es, md_fmtp := fmtps es\<rparr>))"
    using parse_fmtp_lines[of "with_params es" "?st (md2\<lparr>md_rtpmap := rtpmaps es\<rparr>)" "md2\<lparr>md_rtpmap := rtpmaps es\<rparr>"]
      with_params_ok[of es] ok by (simp add: fmtps_def md2_def md1_def md0_def new_md_def)
  have "md2\<lparr>md_rtpmap := rtpmaps es, md_fmtp := fmtps es\<rparr> = section_desc name p prof dir mux es"
    by (simp add: md2_def md1_def md0_def section_desc_def new_md_def)
  with s0 s1 s2 s3 s4 show ?thesis
    by (simp add: Accepted section_lines_def fold_res_append del: append.simps)
qed

lemma parse_texts:
  "list_all text_ok ts \<Longrightarrow>
   \<exists>st'. fold_res parser_line (concat (map text_lines ts)) st = Inr st' \<and> close_media st' = close_media st @ map text_desc ts \<and>
     ps_origin st' = ps_origin st \<and> ps_name st' = ps_name st \<and> ps_conn st' = ps_conn st \<and> ps_timing st' = ps_timing st \<and>
     ps_dir st' = ps_dir st"
proof (induction ts arbitrary: st)
  case (Cons t ts)
  let ?s = "st\<lparr>ps_media := close_media st, ps_current := Some (text_desc t)\<rparr>"
  have "fold_res parser_line (text_lines t) st = Inr ?s" using Cons.prems by (simp add: parse_text)
  with Cons.IH[of ?s] Cons.prems show ?case by (auto simp: fold_res_append close_media_def)
qed simp

lemma text_lines_ok: "text_ok t \<Longrightarrow> list_all sdp_line (text_lines t)"
proof (cases t)
  case (Accepted name p prof dir mux es)
  assume ok: "text_ok t"
  have "sdp_line (rtpmap_text pt (codec_name c) (clock c) (channels c))" if "(pt, c) \<in> set es" for pt c
    using that ok Accepted by (intro rtpmap_line_ok) (auto simp: entry_ok_def list_all_iff)
  moreover have "sdp_line (fmtp_text pt (codec_fmtp c))" if "(pt, c) \<in> set (with_params es)" for pt c
    using that ok Accepted by (intro fmtp_line_ok) (auto simp: entry_ok_def with_params_def list_all_iff)
  ultimately show ?thesis
    using ok Accepted mux_line_ok direction_line_ok[of dir] media_line_ok[of name prof "map fst es" p]
    by (auto simp: section_lines_def list_all_iff)
qed (simp add: media_line_ok)

text \<open>A whole description as \<open>SDPBuilder\<close> prints it.\<close>

definition document_lines :: "string \<Rightarrow> string \<Rightarrow> string \<Rightarrow> string \<Rightarrow> media_text list \<Rightarrow> string list" where
  "document_lines origin name ip timing ts =
     [''v=0'', ''o='' @ origin, ''s='' @ name, conn_text ip, ''t='' @ timing] @ concat (map text_lines ts)"

definition field_ok :: "string \<Rightarrow> bool" where
  "field_ok v = (v \<noteq> [] \<and> stripped v \<and> list_all (\<lambda>c. \<not> is_linebreak c) v)"

lemma parse_document:
  assumes "field_ok origin" and "field_ok name" and "word_ok ip" and "field_ok timing" and "list_all text_ok ts"
  shows "sdp_parse (join CRLF (document_lines origin name ip timing ts) @ CRLF) =
    Inr \<lparr>sp_origin = origin, sp_name = name, sp_connection = Some ip, sp_timing = timing,
      sp_media = map (complete_md None (Some ip)) (map text_desc ts)\<rparr>"
proof -
  let ?s = "parser_init\<lparr>ps_origin := origin, ps_name := name, ps_conn := Some ip, ps_timing := timing\<rparr>"
  have f: "sdp_line (k # CHR ''='' # v)" if "field_ok v" "\<not> is_space k" "\<not> is_linebreak k" for k v
    using that by (intro sdp_line_key) (auto simp: field_ok_def stripped_def rstripped_def)
  have v0: "sdp_line ''v=0''" by (simp add: sdp_line_def stripped_def char_class_defs is_linebreak_def)
  have c: "sdp_line (conn_text ip)"
    using assms(3) sdp_line_key[of "CHR ''c''" "''IN IP4 '' @ ip"] word_no_break[OF assms(3)]
    by (simp add: conn_text_def rstripped_def word_ok_def) (simp add: is_linebreak_def code_def)
  have ok: "list_all sdp_line (document_lines origin name ip timing ts)"
    using f[OF assms(1)] f[OF assms(2)] f[OF assms(4)] v0 c text_lines_ok assms(5)
    by (auto simp: document_lines_def list_all_iff)
  have head: "fold_res parser_line [''v=0'', ''o='' @ origin, ''s='' @ name, conn_text ip, ''t='' @ timing] parser_init = Inr ?s"
  proof -
    have "strip origin = origin" "strip name = name" "strip timing = timing" using assms by (simp_all add: field_ok_def strip_id)
    then show ?thesis using parser_conn_line[OF assms(3)] by (simp add: parser_line_def)
  qed
  obtain st' where st': "fold_res parser_line (concat (map text_lines ts)) ?s = Inr st'" "close_media st' = map text_desc ts"
    "ps_origin st' = origin" "ps_name st' = name" "ps_conn st' = Some ip" "ps_timing st' = timing" "ps_dir st' = None"
    using parse_texts[OF assms(5), of ?s] by (auto simp: close_media_def parser_init_def)
  have "fold_res parser_line (document_lines origin name ip timing ts) parser_init = Inr st'"
    unfolding document_lines_def fold_res_append head by (simp add: st'(1))
  moreover have "timing \<noteq> []" using assms(4) by (simp add: field_ok_def)
  moreover have "document_lines origin name ip timing ts \<noteq> []" by (simp add: document_lines_def)
  ultimately show ?thesis
    unfolding sdp_parse_lines[OF \<open>document_lines origin name ip timing ts \<noteq> []\<close> ok]
    by (simp add: st'(2-) parser_finish_def or_str_def truthy_str_def)
qed

end
