(* ===== verification/Sdp_Builder.thy ===== *)
theory Sdp_Builder
  imports Sdp_Parser
begin

text \<open>
  \<open>SDPBuilder\<close> of \<open>sdp.py\<close>: offers and answers after RFC 3264 from the capabilities of a session. The three
  lists that the loops fill (formats, rtpmap lines, fmtp lines) and the iterator of dynamic payload types
  are one accumulator. The lemmas show that the lists always describe one list of payload types with their
  codecs, so that \<open>SDPParser\<close> reads back what was announced, that the payload types of an offer do not
  clash, and that an answer has one section per section of the offer with codecs both sides have.
\<close>

section \<open>Capabilities\<close>

record MediaCapability =
  cap_media :: string
  cap_profile :: string
  cap_direction :: string
  cap_codecs :: "SDPCodec list"
  cap_rtcp_mux :: bool
  cap_te_pref :: int
  cap_port :: int

record SessionCapability =
  cap_origin_user :: string
  cap_ip :: string
  cap_session_name :: string
  cap_version :: int
  cap_timing :: string
  cap_audio :: "MediaCapability option"
  cap_video :: "MediaCapability option"

definition opt_list :: "'a option \<Rightarrow> 'a list" where
  "opt_list x = (case x of None \<Rightarrow> [] | Some y \<Rightarrow> [y])"

definition media_caps :: "SessionCapability \<Rightarrow> MediaCapability list" where
  "media_caps cap = opt_list (cap_audio cap) @ opt_list (cap_video cap)"

section \<open>Lines\<close>

definition origin_line :: "int \<Rightarrow> string \<Rightarrow> string \<Rightarrow> int \<Rightarrow> string" where
  "origin_line now usr ip ver = ''o='' @ usr @ '' '' @ int_str now @ '' '' @ int_str ver @ '' IN IP4 '' @ ip"

definition rtpmap_line :: "int \<Rightarrow> SDPCodec \<Rightarrow> string" where
  "rtpmap_line pt c =
     (let ch = (if channels c \<noteq> 0 \<and> channels c \<noteq> 1 then ''/'' @ int_str (channels c) else [])
      in ''a=rtpmap:'' @ int_str pt @ '' '' @ codec_name c @ ''/'' @ int_str (clock c) @ ch)"

definition fmtp_line :: "int \<Rightarrow> (string, string) dict \<Rightarrow> string option" where
  "fmtp_line pt d =
     (if d = [] then None
      else Some (''a=fmtp:'' @ int_str pt @ '' '' @ join '';'' (map (\<lambda>(k, v). k @ ''='' @ v) d)))"

definition session_head :: "int \<Rightarrow> SessionCapability \<Rightarrow> string \<Rightarrow> string list" where
  "session_head now cap timing =
     [''v=0'', origin_line now (cap_origin_user cap) (cap_ip cap) (cap_version cap), ''s='' @ cap_session_name cap,
      ''c=IN IP4 '' @ cap_ip cap, ''t='' @ timing]"

section \<open>Offers\<close>

text \<open>The next value of the iterator over 96 to 127, and the iterator behind it.\<close>

definition next_dyn :: "int \<Rightarrow> (int \<times> int) res" where
  "next_dyn n = (if n < 128 then Inr (n, n + 1) else Inl StopIteration)"

definition is_te :: "SDPCodec \<Rightarrow> bool" where
  "is_te c = (lower (codec_name c) = ''telephone-event'')"

definition offer_pt :: "int \<Rightarrow> SDPCodec \<Rightarrow> int \<Rightarrow> (int \<times> int) res" where
  "offer_pt pref c n =
     (case static_pt c of
        Some p \<Rightarrow> Inr (p, n)
      | None \<Rightarrow>
          if is_te c then Inr (pref, n)
          else bind_res (next_dyn n) (\<lambda>(pt, n1). if pt = pref then next_dyn n1 else Inr (pt, n1)))"

type_synonym fmt_lists = "int list \<times> string list \<times> string list"

definition add_codec :: "int \<Rightarrow> SDPCodec \<Rightarrow> (string, string) dict \<Rightarrow> fmt_lists \<Rightarrow> fmt_lists" where
  "add_codec pt c params = (\<lambda>(fmts, rtpmap_lines, fmtp_lines).
     (fmts @ [pt], rtpmap_lines @ [rtpmap_line pt c], fmtp_lines @ opt_list (fmtp_line pt params)))"

definition offer_codec :: "int \<Rightarrow> SDPCodec \<Rightarrow> int \<times> fmt_lists \<Rightarrow> (int \<times> fmt_lists) res" where
  "offer_codec pref c = (\<lambda>(n, ls). map_res (\<lambda>(pt, n'). (n', add_codec pt c (codec_fmtp c) ls)) (offer_pt pref c n))"

definition m_line :: "string \<Rightarrow> int \<Rightarrow> string \<Rightarrow> int list \<Rightarrow> string" where
  "m_line name p prof fmts = ''m='' @ name @ '' '' @ int_str p @ '' '' @ prof @ '' '' @ join '' '' (map int_str fmts)"

definition offer_section :: "MediaCapability \<Rightarrow> string list res" where
  "offer_section mcap =
     map_res (\<lambda>(n, fmts, rtpmap_lines, fmtp_lines).
         [m_line (cap_media mcap) (cap_port mcap) (cap_profile mcap) fmts, ''a='' @ cap_direction mcap]
         @ (if cap_rtcp_mux mcap then [''a=rtcp-mux''] else []) @ rtpmap_lines @ fmtp_lines)
       (fold_res (offer_codec (cap_te_pref mcap)) (cap_codecs mcap) (96, [], [], []))"

definition build_offer :: "int \<Rightarrow> SessionCapability \<Rightarrow> string res" where
  "build_offer now cap =
     map_res (\<lambda>bs. join CRLF (session_head now cap (cap_timing cap) @ concat bs) @ CRLF) (mapM_res offer_section (media_caps cap))"

section \<open>Answers\<close>

type_synonym codec_id = "string \<times> int \<times> int"

definition codec_key :: "SDPCodec \<Rightarrow> codec_id" where
  "codec_key c = (lower (codec_name c), clock c, channels c)"

definition rtp_key :: "RtpMap \<Rightarrow> codec_id" where
  "rtp_key r = (lower (rtp_encoding r), rtp_clock r, rtp_channels r)"

definition local_codecs :: "SDPCodec list \<Rightarrow> (codec_id, SDPCodec) dict" where
  "local_codecs cs = fold (\<lambda>c. dict_set (codec_key c) c) cs []"

definition local_order :: "SDPCodec list \<Rightarrow> (codec_id, nat) dict" where
  "local_order cs = fold (\<lambda>(i, c). dict_set (codec_key c) i) (enumerate 0 cs) []"

definition static_map :: "(int, codec_id) dict" where
  "static_map = [(0, (''pcmu'', 8000, 1)), (8, (''pcma'', 8000, 1))]"

type_synonym remote_codec = "int \<times> codec_id \<times> (string, string) dict"

definition remote_entry :: "MediaDesc \<Rightarrow> int \<Rightarrow> remote_codec option" where
  "remote_entry md pt =
     (case dict_get (md_rtpmap md) pt of
        Some r \<Rightarrow> Some (pt, rtp_key r, case dict_get (md_fmtp md) pt of Some d \<Rightarrow> d | None \<Rightarrow> [])
      | None \<Rightarrow> map_option (\<lambda>k. (pt, k, [])) (dict_get static_map pt))"

definition remote_codecs :: "MediaDesc \<Rightarrow> SDPCodec list \<Rightarrow> remote_codec list" where
  "remote_codecs md cs =
     sort_key (\<lambda>(pt, k, params). case dict_get (local_order cs) k of Some i \<Rightarrow> i | None \<Rightarrow> 9999)
       (List.map_filter (remote_entry md) (md_fmts md))"

definition answer_direction :: "string option \<Rightarrow> string \<Rightarrow> string" where
  "answer_direction off own =
     (let off_dir = or_str off ''sendrecv'' in
      if off_dir = ''sendonly'' then ''recvonly''
      else if off_dir = ''recvonly'' then ''sendonly''
      else if off_dir = ''inactive'' then ''inactive''
      else or_str (Some own) ''sendrecv'')"

definition te_key :: codec_id where
  "te_key = (''telephone-event'', 8000, 1)"

definition answer_te :: "MediaCapability \<Rightarrow> remote_codec list \<Rightarrow> fmt_lists \<Rightarrow> fmt_lists" where
  "answer_te mcap rs ls =
     (case dict_get (local_codecs (cap_codecs mcap)) te_key of
        None \<Rightarrow> ls
      | Some te \<Rightarrow>
          (case find (\<lambda>(pt, k, params). k = te_key) rs of
             None \<Rightarrow> ls
           | Some (pt, k, params) \<Rightarrow>
               let events = or_str (dict_get (codec_fmtp te) ''events'') (or_str (dict_get params ''events'') ''0-16'')
               in add_codec (cap_te_pref mcap) te [(''events'', events)] ls))"

definition answer_codec :: "MediaCapability \<Rightarrow> remote_codec \<Rightarrow> int \<times> fmt_lists \<Rightarrow> (int \<times> fmt_lists) res" where
  "answer_codec mcap = (\<lambda>(pt, k, params) (n, ls).
     (case dict_get (local_codecs (cap_codecs mcap)) k of
        None \<Rightarrow> Inr (n, ls)
      | Some lc \<Rightarrow>
          if k = te_key then Inr (n, ls)
          else map_res (\<lambda>(apt, n'). (n', if apt \<in> set (fst ls) then ls else add_codec apt lc (codec_fmtp lc) ls))
            (offer_pt (cap_te_pref mcap) lc n)))"

definition media_cap :: "SessionCapability \<Rightarrow> string \<Rightarrow> MediaCapability option" where
  "media_cap cap m = (if m = ''audio'' then cap_audio cap else if m = ''video'' then cap_video cap else None)"

definition reject_line :: "MediaDesc \<Rightarrow> string" where
  "reject_line md = m_line (md_media md) 0 (md_proto md) (md_fmts md)"

text \<open>A codec was chosen exactly when a format was appended.\<close>

definition answer_section :: "SessionCapability \<Rightarrow> MediaDesc \<Rightarrow> string list res" where
  "answer_section cap md =
     (case media_cap cap (md_media md) of
        None \<Rightarrow> Inr [reject_line md]
      | Some mcap \<Rightarrow>
          let rs = remote_codecs md (cap_codecs mcap)
          in map_res (\<lambda>(n, fmts, rtpmap_lines, fmtp_lines).
               if fmts = [] then [reject_line md]
               else [m_line (md_media md) (cap_port mcap) (cap_profile mcap) fmts,
                     ''a='' @ answer_direction (md_direction md) (cap_direction mcap)]
                 @ (if cap_rtcp_mux mcap \<and> md_rtcp_mux md then [''a=rtcp-mux''] else []) @ rtpmap_lines @ fmtp_lines)
             (fold_res (answer_codec mcap) rs (96, answer_te mcap rs ([], [], []))))"

definition build_answer :: "int \<Rightarrow> SDPParsed \<Rightarrow> SessionCapability \<Rightarrow> string res" where
  "build_answer now offer cap =
     map_res (\<lambda>bs. join CRLF (session_head now cap (sp_timing offer) @ concat bs) @ CRLF)
       (mapM_res (answer_section cap) (sp_media offer))"

section \<open>The lists describe one list of codecs\<close>

text \<open>The accumulator that belongs to a list of payload types with their codecs.\<close>

definition lists_of :: "pt_entry list \<Rightarrow> fmt_lists" where
  "lists_of es = (map fst es, map (\<lambda>(pt, c). rtpmap_text pt (codec_name c) (clock c) (channels c)) es,
     map (\<lambda>(pt, c). fmtp_text pt (codec_fmtp c)) (with_params es))"

lemma lists_of_Nil: "lists_of [] = ([], [], [])"
  by (simp add: lists_of_def with_params_def)

lemma m_line_text: "m_line = media_line_text"
  by (intro ext) (simp add: m_line_def media_line_text_def)

lemma add_codec_lists: "add_codec pt c params (lists_of es) = lists_of (es @ [(pt, c\<lparr>codec_fmtp := params\<rparr>)])"
  by (simp add: add_codec_def lists_of_def rtpmap_line_def rtpmap_text_def fmtp_line_def fmtp_text_def params_text_def
      with_params_def opt_list_def)

section \<open>Payload types of an offer\<close>

fun offer_entries :: "int \<Rightarrow> SDPCodec list \<Rightarrow> int \<Rightarrow> (int \<times> pt_entry list) res" where
  "offer_entries pref [] n = Inr (n, [])"
| "offer_entries pref (c # cs) n =
     bind_res (offer_pt pref c n) (\<lambda>(pt, n1). map_res (\<lambda>(n2, es). (n2, (pt, c) # es)) (offer_entries pref cs n1))"

lemma offer_codec_step:
  "offer_codec pref c (n, lists_of es) = map_res (\<lambda>(pt, n'). (n', lists_of (es @ [(pt, c)]))) (offer_pt pref c n)"
  by (simp add: offer_codec_def add_codec_lists)

lemma set_map_filter: "set (List.map_filter f xs) = {y. \<exists>x \<in> set xs. f x = Some y}"
  by (induction xs) (auto simp: map_filter_simps split: option.splits)

lemma fold_offer_codec:
  "fold_res (offer_codec pref) cs (n, lists_of es) = map_res (\<lambda>(n', es'). (n', lists_of (es @ es'))) (offer_entries pref cs n)"
proof (induction cs arbitrary: n es)
  case (Cons c cs)
  show ?case
  proof (cases "offer_pt pref c n")
    case (Inr r)
    obtain pt n1 where r: "r = (pt, n1)" by (cases r)
    have "fold_res (offer_codec pref) cs (n1, lists_of (es @ [(pt, c)])) =
        map_res (\<lambda>(n', es'). (n', lists_of (es @ (pt, c) # es'))) (offer_entries pref cs n1)"
      by (simp add: Cons.IH)
    with Inr r show ?thesis
      by (cases "offer_entries pref cs n1") (auto simp: offer_codec_step)
  qed (simp add: offer_codec_step)
qed simp

definition offer_text :: "MediaCapability \<Rightarrow> pt_entry list \<Rightarrow> media_text" where
  "offer_text m es = Accepted (cap_media m) (cap_port m) (cap_profile m) (cap_direction m) (cap_rtcp_mux m) es"

lemma offer_section_text:
  "offer_section m = map_res (\<lambda>(n, es). text_lines (offer_text m es)) (offer_entries (cap_te_pref m) (cap_codecs m) 96)"
proof -
  have "fold_res (offer_codec (cap_te_pref m)) (cap_codecs m) (96, [], [], []) =
      map_res (\<lambda>(n, es). (n, lists_of es)) (offer_entries (cap_te_pref m) (cap_codecs m) 96)"
    using fold_offer_codec[of "cap_te_pref m" "cap_codecs m" 96 "[]"] by (simp add: lists_of_Nil)
  then show ?thesis
    by (cases "offer_entries (cap_te_pref m) (cap_codecs m) 96")
      (auto simp: offer_section_def offer_text_def lists_of_def section_lines_def m_line_text)
qed

lemma offer_entries_codecs: "offer_entries pref cs n = Inr (n', es) \<Longrightarrow> map snd es = cs"
  by (induction cs arbitrary: n es) auto

text \<open>The codecs that take their payload type from the iterator.\<close>

definition is_dynamic :: "SDPCodec \<Rightarrow> bool" where
  "is_dynamic c = (static_pt c = None \<and> \<not> is_te c)"

lemma offer_pt_cases:
  assumes "offer_pt pref c n = Inr (pt, n1)"
  shows "if is_dynamic c then n \<le> pt \<and> pt < n1 \<and> pt < 128 \<and> pt \<noteq> pref
    else n1 = n \<and> pt = (case static_pt c of Some p \<Rightarrow> p | None \<Rightarrow> pref)"
  using assms by (auto simp: offer_pt_def is_dynamic_def next_dyn_def split: option.splits if_splits)

lemma offer_entries_dynamic:
  "offer_entries pref cs n = Inr (n', es) \<Longrightarrow> (pt, c) \<in> set es \<Longrightarrow> is_dynamic c \<Longrightarrow> n \<le> pt \<and> pt < 128 \<and> pt \<noteq> pref"
proof (induction cs arbitrary: n es)
  case (Cons d cs)
  obtain q n1 es1 where s: "offer_pt pref d n = Inr (q, n1)" "offer_entries pref cs n1 = Inr (n', es1)" "es = (q, d) # es1"
    using Cons.prems(1) by auto
  note q = offer_pt_cases[OF s(1)]
  from Cons.IH[OF s(2)] Cons.prems(2,3) s(3) q show ?case by (auto split: if_splits)
qed simp

definition pts_ok :: "int \<Rightarrow> SDPCodec list \<Rightarrow> bool" where
  "pts_ok pref cs =
     (distinct (List.map_filter static_pt cs) \<and> list_all (\<lambda>p. 0 \<le> p \<and> p < 96 \<and> p \<noteq> pref) (List.map_filter static_pt cs) \<and>
      length (filter (\<lambda>c. static_pt c = None \<and> is_te c) cs) \<le> 1 \<and> 0 \<le> pref)"

lemma pts_ok_Cons:
  assumes "pts_ok pref (c # cs)"
  shows "pts_ok pref cs" "static_pt c = Some p \<Longrightarrow> 0 \<le> p \<and> p < 96 \<and> p \<noteq> pref \<and> Some p \<notin> static_pt ` set cs"
    "static_pt c = None \<Longrightarrow> is_te c \<Longrightarrow> d \<in> set cs \<Longrightarrow> static_pt d = None \<Longrightarrow> \<not> is_te d"
proof -
  show "pts_ok pref cs" using assms by (auto simp: pts_ok_def map_filter_simps split: option.splits if_splits)
  show "static_pt c = Some p \<Longrightarrow> 0 \<le> p \<and> p < 96 \<and> p \<noteq> pref \<and> Some p \<notin> static_pt ` set cs"
    using assms by (force simp: pts_ok_def map_filter_simps set_map_filter)
  show "static_pt c = None \<Longrightarrow> is_te c \<Longrightarrow> d \<in> set cs \<Longrightarrow> static_pt d = None \<Longrightarrow> \<not> is_te d"
    using assms by (auto simp: pts_ok_def filter_empty_conv)
qed

lemma offer_entries_pt:
  assumes "offer_entries pref cs n = Inr (n', es)" and "(pt, c) \<in> set es" and "\<not> is_dynamic c"
  shows "pt = (case static_pt c of Some p \<Rightarrow> p | None \<Rightarrow> pref)"
  using assms
proof (induction cs arbitrary: n es)
  case (Cons d cs)
  then obtain q n1 es1 where s: "offer_pt pref d n = Inr (q, n1)" "offer_entries pref cs n1 = Inr (n', es1)" "es = (q, d) # es1"
    by auto
  from Cons.IH[OF s(2)] Cons.prems(2,3) s(3) offer_pt_cases[OF s(1)] show ?case by (auto split: if_splits)
qed simp

lemma offer_entries_distinct:
  "offer_entries pref cs n = Inr (n', es) \<Longrightarrow> pts_ok pref cs \<Longrightarrow> 96 \<le> n \<Longrightarrow> distinct (map fst es)"
proof (induction cs arbitrary: n es)
  case (Cons c cs)
  obtain q n1 es1 where s: "offer_pt pref c n = Inr (q, n1)" "offer_entries pref cs n1 = Inr (n', es1)" "es = (q, c) # es1"
    using Cons.prems(1) by auto
  note q = offer_pt_cases[OF s(1)] and ok = pts_ok_Cons[OF Cons.prems(2)]
  have n1: "n \<le> n1" using q by (auto split: if_splits)
  have "q \<noteq> pt" if e: "(pt, d) \<in> set es1" for pt d
  proof -
    have d: "d \<in> set cs" using e offer_entries_codecs[OF s(2)] by force
    then have st: "static_pt d = Some p \<Longrightarrow> 0 \<le> p \<and> p < 96 \<and> p \<noteq> pref" for p
      using ok(1) by (force simp: pts_ok_def list_all_iff set_map_filter)
    show ?thesis
    proof (cases "is_dynamic d")
      case True
      with offer_entries_dynamic[OF s(2) e] have pt: "n1 \<le> pt" "pt \<noteq> pref" by auto
      then show ?thesis using q ok(2) n1 Cons.prems(3) by (force split: if_splits option.splits)
    next
      case False
      with offer_entries_pt[OF s(2) e] have pt: "pt = (case static_pt d of Some p \<Rightarrow> p | None \<Rightarrow> pref)" by simp
      show ?thesis
        using pt q st ok(2) ok(3)[OF _ _ d] d False Cons.prems(3)
        by (cases "static_pt d"; cases "static_pt c") (force simp: is_dynamic_def split: if_splits)+
    qed
  qed
  then have "q \<notin> set (map fst es1)" by fastforce
  moreover have "distinct (map fst es1)" using Cons.IH[OF s(2) ok(1)] n1 Cons.prems(3) by simp
  ultimately show ?case by (simp add: s(3))
qed simp

text \<open>How many codecs the iterator can still serve.\<close>

definition free_pts :: "int \<Rightarrow> int \<Rightarrow> int" where
  "free_pts pref n = 128 - n - (if n \<le> pref \<and> pref < 128 then 1 else 0)"

lemma offer_entries_succeeds:
  "n \<le> 128 \<Longrightarrow> (\<exists>r. offer_entries pref cs n = Inr r) \<longleftrightarrow> int (length (filter is_dynamic cs)) \<le> free_pts pref n"
proof (induction cs arbitrary: n)
  case Nil
  then show ?case by (auto simp: free_pts_def)
next
  case (Cons c cs)
  show ?case
  proof (cases "is_dynamic c")
    case True
    then have o: "offer_pt pref c n = bind_res (next_dyn n) (\<lambda>(pt, n1). if pt = pref then next_dyn n1 else Inr (pt, n1))"
      by (simp add: offer_pt_def is_dynamic_def)
    show ?thesis
    proof (cases "free_pts pref n \<le> 0")
      case none: True
      then have "\<exists>e. offer_pt pref c n = Inl e"
        using Cons.prems by (auto simp: o next_dyn_def free_pts_def split: if_splits)
      with none True show ?thesis by auto
    next
      case False
      define n1 where "n1 = (if n = pref then n + 2 else n + 1)"
      have "\<exists>pt. offer_pt pref c n = Inr (pt, n1)" "free_pts pref n1 = free_pts pref n - 1" "n1 \<le> 128"
        using False Cons.prems by (auto simp: o next_dyn_def free_pts_def n1_def split: if_splits)
      with Cons.IH[of n1] True show ?thesis by auto
    qed
  next
    case False
    then have "\<exists>pt. offer_pt pref c n = Inr (pt, n)" by (auto simp: offer_pt_def is_dynamic_def split: option.split)
    with Cons.IH[OF Cons.prems] False show ?thesis by auto
  qed
qed

section \<open>Reading an offer back\<close>

definition codec_ok :: "SDPCodec \<Rightarrow> bool" where
  "codec_ok c = (over encoding_char (codec_name c) \<and> 0 \<le> clock c \<and> 0 < channels c \<and> params_ok (codec_fmtp c))"

definition mcap_ok :: "MediaCapability \<Rightarrow> bool" where
  "mcap_ok m =
     (over sdp_letter (cap_media m) \<and> 0 \<le> cap_port m \<and> over proto_char (cap_profile m) \<and> cap_direction m \<in> set directions \<and>
      cap_codecs m \<noteq> [] \<and> list_all codec_ok (cap_codecs m) \<and> pts_ok (cap_te_pref m) (cap_codecs m))"

definition cap_ok :: "SessionCapability \<Rightarrow> bool" where
  "cap_ok cap =
     (word_ok (cap_origin_user cap) \<and> word_ok (cap_ip cap) \<and> field_ok (cap_session_name cap) \<and> field_ok (cap_timing cap) \<and>
      list_all mcap_ok (media_caps cap))"

definition announces :: "MediaDesc \<Rightarrow> int \<Rightarrow> SDPCodec \<Rightarrow> bool" where
  "announces d pt c =
     (dict_get (md_rtpmap d) pt = Some (entry_rtpmap (pt, c)) \<and>
      (codec_fmtp c \<noteq> [] \<longrightarrow> dict_get (md_fmtp d) pt = Some (codec_fmtp c)))"

lemma fold_entries:
  assumes "distinct (map fst es)"
  shows "fold (\<lambda>e. dict_set (fst e) (f e)) es [] = map (\<lambda>e. (fst e, f e)) es"
proof -
  have "fold (\<lambda>(k, v). dict_set k v) (map (\<lambda>e. (fst e, f e)) es) [] = map (\<lambda>e. (fst e, f e)) es"
    using assms fold_dict_set[of "[]" "map (\<lambda>e. (fst e, f e)) es"] by (simp add: dict_ok_def comp_def)
  then show ?thesis by (simp add: fold_map comp_def)
qed

lemma dict_get_entries:
  assumes "distinct (map fst es)" and "e \<in> set es"
  shows "dict_get (map (\<lambda>e. (fst e, f e)) es) (fst e) = Some (f e)"
  using assms by (induction es) (auto simp: rev_image_eqI)

lemma fmtps_entries:
  assumes "distinct (map fst es)"
  shows "fmtps es = map (\<lambda>e. (fst e, codec_fmtp (snd e))) (with_params es)"
proof -
  have "distinct (map fst (with_params es))" using assms by (simp add: with_params_def distinct_map_filter)
  from fold_entries[OF this, of "\<lambda>e. codec_fmtp (snd e)"] show ?thesis by (simp add: fmtps_def case_prod_beta')
qed

lemma section_announces:
  assumes "distinct (map fst es)" and "(pt, c) \<in> set es"
  shows "announces (complete_md dir' conn (section_desc name p prof dir mux es)) pt c"
proof -
  have d: "distinct (map fst (with_params es))" using assms(1) by (simp add: with_params_def distinct_map_filter)
  have "codec_fmtp c \<noteq> [] \<Longrightarrow> (pt, c) \<in> set (with_params es)" using assms(2) by (simp add: with_params_def)
  then show ?thesis
    using dict_get_entries[OF assms, of entry_rtpmap] dict_get_entries[OF d, of "(pt, c)" "\<lambda>e. codec_fmtp (snd e)"]
      fmtps_entries[OF assms(1)] fold_entries[OF assms(1), of entry_rtpmap]
    by (simp add: announces_def complete_md_def section_desc_def rtpmaps_def)
qed

lemma offer_entries_ok:
  assumes "mcap_ok m" and "offer_entries (cap_te_pref m) (cap_codecs m) 96 = Inr (n, es)"
  shows "text_ok (offer_text m es)" "distinct (map fst es)" "map snd es = cap_codecs m"
proof -
  show c: "map snd es = cap_codecs m" using offer_entries_codecs[OF assms(2)] .
  show "distinct (map fst es)" using assms by (intro offer_entries_distinct[OF assms(2)]) (auto simp: mcap_ok_def)
  have "0 \<le> pt" if e: "(pt, c) \<in> set es" for pt c
  proof (cases "is_dynamic c")
    case True
    with offer_entries_dynamic[OF assms(2) e] show ?thesis by simp
  next
    case False
    have "c \<in> set (cap_codecs m)" using e c[symmetric] by force
    with offer_entries_pt[OF assms(2) e False] assms(1) show ?thesis
      by (auto simp: mcap_ok_def pts_ok_def list_all_iff set_map_filter split: option.splits)
  qed
  moreover have "codec_ok c" if "(pt, c) \<in> set es" for pt c
  proof -
    have "c \<in> set (cap_codecs m)" using that c[symmetric] by force
    with assms(1) show ?thesis by (simp add: mcap_ok_def list_all_iff)
  qed
  ultimately have "list_all entry_ok es" by (auto simp: list_all_iff entry_ok_def codec_ok_def)
  moreover have "es \<noteq> []" using assms(1) c by (auto simp: mcap_ok_def)
  ultimately show "text_ok (offer_text m es)" using assms(1) by (simp add: mcap_ok_def offer_text_def)
qed

definition origin_text :: "int \<Rightarrow> SessionCapability \<Rightarrow> string" where
  "origin_text now cap = cap_origin_user cap @ '' '' @ int_str now @ '' '' @ int_str (cap_version cap) @ '' IN IP4 '' @ cap_ip cap"

lemma session_head_document:
  "session_head now cap timing @ concat (map text_lines ts) =
   document_lines (origin_text now cap) (cap_session_name cap) (cap_ip cap) timing ts"
  by (simp add: session_head_def document_lines_def origin_line_def origin_text_def conn_text_def)

lemma origin_ok:
  assumes "word_ok (cap_origin_user cap)" and "word_ok (cap_ip cap)"
  shows "field_ok (origin_text now cap)"
proof -
  have "\<not> is_linebreak (CHR ''I'')" "\<not> is_linebreak (CHR ''N'')" "\<not> is_linebreak (CHR ''P'')" "\<not> is_linebreak (CHR ''4'')"
    by (simp_all add: is_linebreak_def code_def)
  moreover have "list_all (\<lambda>c. \<not> is_linebreak c) (int_str n)" for n by (rule word_no_break[OF int_str_word])
  moreover have "hd (cap_origin_user cap @ s) = hd (cap_origin_user cap)" for s using assms(1) by (simp add: word_ok_def)
  ultimately show ?thesis
    using assms assms[THEN word_no_break] by (auto simp: field_ok_def stripped_def origin_text_def word_ok_def)
qed

section \<open>The codecs of an answer\<close>

lemma find_SomeD: "find P xs = Some x \<Longrightarrow> x \<in> set xs \<and> P x"
  by (induction xs) (auto split: if_splits)

lemma local_codecs_get:
  "dict_get (local_codecs cs) k = Some c \<Longrightarrow> c \<in> set cs \<and> codec_key c = k"
  "dict_get (local_codecs cs) k = None \<longleftrightarrow> k \<notin> codec_key ` set cs"
proof -
  have *: "dict_get (fold (\<lambda>c. dict_set (codec_key c) c) cs d) k =
      (case find (\<lambda>c. codec_key c = k) (rev cs) of Some c \<Rightarrow> Some c | None \<Rightarrow> dict_get d k)" for d
    by (induction cs rule: rev_induct) (auto simp: pd.lookup_store)
  show "dict_get (local_codecs cs) k = Some c \<Longrightarrow> c \<in> set cs \<and> codec_key c = k"
    by (auto simp: local_codecs_def * dest: find_SomeD split: option.splits)
  show "dict_get (local_codecs cs) k = None \<longleftrightarrow> k \<notin> codec_key ` set cs"
    by (auto simp: local_codecs_def * find_None_iff dest!: find_SomeD split: option.splits)
qed

definition te_entry :: "MediaCapability \<Rightarrow> SDPCodec \<Rightarrow> (string, string) dict \<Rightarrow> pt_entry" where
  "te_entry m te params =
     (cap_te_pref m, te\<lparr>codec_fmtp := [(''events'',
        or_str (dict_get (codec_fmtp te) ''events'') (or_str (dict_get params ''events'') ''0-16''))]\<rparr>)"

definition te_entries :: "MediaCapability \<Rightarrow> remote_codec list \<Rightarrow> pt_entry list" where
  "te_entries m rs =
     (case dict_get (local_codecs (cap_codecs m)) te_key of
        None \<Rightarrow> []
      | Some te \<Rightarrow> (case find (\<lambda>(pt, k, params). k = te_key) rs of None \<Rightarrow> [] | Some (pt, k, params) \<Rightarrow> [te_entry m te params]))"

lemma answer_te_entries: "answer_te m rs ([], [], []) = lists_of (te_entries m rs)"
proof -
  have "add_codec pt c ps ([], [], []) = lists_of [(pt, c\<lparr>codec_fmtp := ps\<rparr>)]" for pt c ps
    using add_codec_lists[of pt c ps "[]"] by (simp add: lists_of_Nil)
  then show ?thesis
    by (simp add: answer_te_def te_entries_def te_entry_def lists_of_Nil Let_def split: option.split)
qed

fun answer_entries :: "MediaCapability \<Rightarrow> remote_codec list \<Rightarrow> int \<Rightarrow> pt_entry list \<Rightarrow> pt_entry list res" where
  "answer_entries m [] n es = Inr es"
| "answer_entries m ((pt, k, params) # rs) n es =
     (case dict_get (local_codecs (cap_codecs m)) k of
        None \<Rightarrow> answer_entries m rs n es
      | Some lc \<Rightarrow>
          if k = te_key then answer_entries m rs n es
          else bind_res (offer_pt (cap_te_pref m) lc n)
            (\<lambda>(apt, n'). answer_entries m rs n' (if apt \<in> fst ` set es then es else es @ [(apt, lc)])))"

lemma answer_codec_step:
  "answer_codec m (pt, k, params) (n, lists_of es) =
     (case dict_get (local_codecs (cap_codecs m)) k of
        None \<Rightarrow> Inr (n, lists_of es)
      | Some lc \<Rightarrow>
          if k = te_key then Inr (n, lists_of es)
          else map_res (\<lambda>(apt, n'). (n', lists_of (if apt \<in> fst ` set es then es else es @ [(apt, lc)])))
            (offer_pt (cap_te_pref m) lc n))"
proof -
  have "fst (lists_of es) = map fst es" by (simp add: lists_of_def)
  then show ?thesis
    by (cases "dict_get (local_codecs (cap_codecs m)) k")
      (auto simp: answer_codec_def add_codec_lists map_res_def split: sum.split)
qed

lemma fold_answer_codec:
  "map_res snd (fold_res (answer_codec m) rs (n, lists_of es)) = map_res lists_of (answer_entries m rs n es)"
proof (induction m rs n es rule: answer_entries.induct)
  case (2 m pt k params rs n es)
  show ?case
  proof (cases "\<exists>lc. dict_get (local_codecs (cap_codecs m)) k = Some lc \<and> k \<noteq> te_key")
    case True
    then obtain lc where lc: "dict_get (local_codecs (cap_codecs m)) k = Some lc" "k \<noteq> te_key" by blast
    show ?thesis
      using "2.IH"(3)[OF lc] lc by (cases "offer_pt (cap_te_pref m) lc n") (simp_all add: answer_codec_step split_beta)
  next
    case False
    then show ?thesis
      using "2.IH"(1,2) by (cases "dict_get (local_codecs (cap_codecs m)) k") (simp_all add: answer_codec_step)
  qed
qed simp

text \<open>What holds for every payload type an answer announces.\<close>

definition common_entry :: "MediaCapability \<Rightarrow> remote_codec list \<Rightarrow> pt_entry \<Rightarrow> bool" where
  "common_entry m rs = (\<lambda>(pt, c). 0 \<le> pt \<and> params_ok (codec_fmtp c) \<and> codec_key c \<in> (fst \<circ> snd) ` set rs \<and>
     (\<exists>lc \<in> set (cap_codecs m). codec_name c = codec_name lc \<and> clock c = clock lc \<and> channels c = channels lc))"

lemma offer_pt_nonneg:
  assumes "offer_pt pref c n = Inr (pt, n')" and "pts_ok pref cs" and "c \<in> set cs" and "96 \<le> n"
  shows "0 \<le> pt \<and> 96 \<le> n'"
proof -
  have "static_pt c = Some p \<Longrightarrow> 0 \<le> p" for p
    using assms(2,3) by (force simp: pts_ok_def list_all_iff set_map_filter)
  with offer_pt_cases[OF assms(1)] assms(2,4) show ?thesis by (auto simp: pts_ok_def split: if_splits option.splits)
qed

lemma answer_entries_common:
  "answer_entries m rs n es = Inr es' \<Longrightarrow> mcap_ok m \<Longrightarrow> 96 \<le> n \<Longrightarrow> set rs \<subseteq> set all \<Longrightarrow>
   distinct (map fst es) \<Longrightarrow> list_all (common_entry m all) es \<Longrightarrow>
   distinct (map fst es') \<and> list_all (common_entry m all) es' \<and> (es \<noteq> [] \<longrightarrow> es' \<noteq> [])"
proof (induction m rs n es rule: answer_entries.induct)
  case (2 m pt k params rs n es)
  show ?case
  proof (cases "\<exists>lc. dict_get (local_codecs (cap_codecs m)) k = Some lc \<and> k \<noteq> te_key")
    case True
    then obtain lc where lc: "dict_get (local_codecs (cap_codecs m)) k = Some lc" "k \<noteq> te_key" by blast
    with "2.prems"(1) obtain apt n' where a: "offer_pt (cap_te_pref m) lc n = Inr (apt, n')"
      "answer_entries m rs n' (if apt \<in> fst ` set es then es else es @ [(apt, lc)]) = Inr es'"
      by auto
    have c: "lc \<in> set (cap_codecs m)" "codec_key lc = k" using local_codecs_get(1)[OF lc(1)] by auto
    have n: "0 \<le> apt" "96 \<le> n'" using offer_pt_nonneg[OF a(1) _ c(1)] "2.prems"(2,3) by (auto simp: mcap_ok_def)
    have "k \<in> (fst \<circ> snd) ` set all" using "2.prems"(4) by force
    moreover have "params_ok (codec_fmtp lc)" using c(1) "2.prems"(2) by (auto simp: mcap_ok_def list_all_iff codec_ok_def)
    ultimately have "common_entry m all (apt, lc)" using c n(1) by (auto simp: common_entry_def)
    then show ?thesis
      using "2.IH"(3)[OF lc a(2) "2.prems"(2) n(2)] "2.prems"(4-6) by (auto split: if_splits)
  next
    case False
    then show ?thesis using "2.IH"(1,2) "2.prems" by (auto split: option.splits if_splits)
  qed
qed simp

lemma answer_entries_nonempty:
  "answer_entries m rs n es = Inr es' \<Longrightarrow> es \<noteq> [] \<or> (\<exists>(pt, k, ps) \<in> set rs. k \<noteq> te_key \<and> k \<in> codec_key ` set (cap_codecs m)) \<Longrightarrow> es' \<noteq> []"
proof (induction m rs n es rule: answer_entries.induct)
  case (2 m pt k params rs n es)
  show ?case
  proof (cases "\<exists>lc. dict_get (local_codecs (cap_codecs m)) k = Some lc \<and> k \<noteq> te_key")
    case True
    then obtain lc where lc: "dict_get (local_codecs (cap_codecs m)) k = Some lc" "k \<noteq> te_key" by blast
    with "2.prems"(1) obtain apt n' where a: "offer_pt (cap_te_pref m) lc n = Inr (apt, n')"
      "answer_entries m rs n' (if apt \<in> fst ` set es then es else es @ [(apt, lc)]) = Inr es'"
      by auto
    have "(if apt \<in> fst ` set es then es else es @ [(apt, lc)]) \<noteq> []" by auto
    with "2.IH"(3)[OF lc a(2)] show ?thesis by blast
  next
    case False
    then have "k = te_key \<or> k \<notin> codec_key ` set (cap_codecs m)" using local_codecs_get(2)[of "cap_codecs m" k] by auto
    with "2.prems"(2) have "es \<noteq> [] \<or> (\<exists>(pt, k, ps) \<in> set rs. k \<noteq> te_key \<and> k \<in> codec_key ` set (cap_codecs m))" by auto
    with False show ?thesis using "2.IH"(1,2) "2.prems"(1) by (auto split: option.splits if_splits)
  qed
qed simp

section \<open>Reading a built description back\<close>

lemma mapM_res_all2: "mapM_res f xs = Inr ys \<longleftrightarrow> list_all2 (\<lambda>x y. f x = Inr y) xs ys"
  by (induction xs arbitrary: ys) (auto simp: list_all2_Cons1)

lemma mapM_res_succeeds: "(\<exists>ys. mapM_res f xs = Inr ys) \<longleftrightarrow> list_all (\<lambda>x. \<exists>y. f x = Inr y) xs"
proof (induction xs)
  case (Cons x xs)
  then show ?case by (cases "f x"; cases "mapM_res f xs") auto
qed simp

lemma list_all2_mono': "list_all2 P xs ys \<Longrightarrow> list_all Q xs \<Longrightarrow> (\<And>x y. P x y \<Longrightarrow> Q x \<Longrightarrow> R x y) \<Longrightarrow> list_all2 R xs ys"
  by (induction rule: list_all2_induct) auto

text \<open>A description whose sections were printed from texts that satisfy a relation to their origin.\<close>

lemma parse_built:
  assumes "list_all2 (\<lambda>m b. \<exists>t. text_ok t \<and> b = text_lines t \<and> Q m (complete_md None (Some (cap_ip cap)) (text_desc t))) ms bs"
    and "word_ok (cap_origin_user cap)" and "word_ok (cap_ip cap)" and "field_ok (cap_session_name cap)" and "field_ok timing"
  shows "\<exists>p. sdp_parse (join CRLF (session_head now cap timing @ concat bs) @ CRLF) = Inr p \<and>
    sp_origin p = origin_text now cap \<and> sp_name p = cap_session_name cap \<and> sp_connection p = Some (cap_ip cap) \<and>
    sp_timing p = timing \<and> list_all2 Q ms (sp_media p)"
proof -
  from assms(1) obtain ts where ts: "list_all text_ok ts" "bs = map text_lines ts"
    "list_all2 Q ms (map (complete_md None (Some (cap_ip cap))) (map text_desc ts))"
  proof (induction arbitrary: thesis rule: list_all2_induct)
    case Nil
    show ?case by (rule Nil[of "[]"]) simp_all
  next
    case (Cons m ms b bs)
    obtain t where t: "text_ok t" "b = text_lines t" "Q m (complete_md None (Some (cap_ip cap)) (text_desc t))"
      using Cons.hyps(1) by blast
    obtain ts where ts: "list_all text_ok ts" "bs = map text_lines ts"
      "list_all2 Q ms (map (complete_md None (Some (cap_ip cap))) (map text_desc ts))" using Cons.IH by blast
    from t ts show ?case by (intro Cons.prems[of "t # ts"]) simp_all
  qed
  from parse_document[OF origin_ok[OF assms(2,3)] assms(4,3,5) ts(1), of now] ts(3)
  show ?thesis unfolding ts(2) session_head_document by simp
qed

section \<open>Sections of an answer\<close>

definition md_ok :: "MediaDesc \<Rightarrow> bool" where
  "md_ok md =
     (over sdp_letter (md_media md) \<and> over proto_char (md_proto md) \<and> md_fmts md \<noteq> [] \<and>
      list_all (\<lambda>(pt, d). params_ok d) (md_fmtp md))"

definition offered :: "MediaDesc \<Rightarrow> codec_id set" where
  "offered md = (fst \<circ> snd) ` set (List.map_filter (remote_entry md) (md_fmts md))"

lemma remote_codecs_offered: "(fst \<circ> snd) ` set (remote_codecs md cs) = offered md"
  by (simp add: remote_codecs_def offered_def)

text \<open>
  What the direction of an answer means: the answerer sends only if the offerer receives, and receives only if the offerer
  sends; where the offer is two-way, its own capability decides. An offer without a direction is two-way.
\<close>

definition sends_media :: "string \<Rightarrow> bool" where
  "sends_media d = (d \<in> {''sendrecv'', ''sendonly''})"

definition receives_media :: "string \<Rightarrow> bool" where
  "receives_media d = (d \<in> {''sendrecv'', ''recvonly''})"

definition direction_answers :: "string option \<Rightarrow> string \<Rightarrow> string \<Rightarrow> bool" where
  "direction_answers off own d =
     (let od = or_str off ''sendrecv'' in
      d \<in> set directions \<and>
      (od \<in> set directions \<longrightarrow>
        sends_media d = (receives_media od \<and> (od = ''sendrecv'' \<longrightarrow> sends_media own)) \<and>
        receives_media d = (sends_media od \<and> (od = ''sendrecv'' \<longrightarrow> receives_media own))))"

lemma direction_answers_code: "own \<in> set directions \<Longrightarrow> direction_answers off own (answer_direction off own)"
proof -
  assume own: "own \<in> set directions"
  define od where "od = or_str off ''sendrecv''"
  have eq: "answer_direction off own = (if od = ''sendonly'' then ''recvonly'' else if od = ''recvonly'' then ''sendonly''
      else if od = ''inactive'' then ''inactive'' else own)"
    using own by (auto simp: answer_direction_def od_def Let_def or_str_def truthy_str_def directions_def)
  have table: "list_all (\<lambda>x. list_all (\<lambda>y. let d = (if x = ''sendonly'' then ''recvonly'' else if x = ''recvonly'' then ''sendonly''
        else if x = ''inactive'' then ''inactive'' else y)
      in sends_media d = (receives_media x \<and> (x = ''sendrecv'' \<longrightarrow> sends_media y)) \<and>
         receives_media d = (sends_media x \<and> (x = ''sendrecv'' \<longrightarrow> receives_media y))) directions) directions" by code_simp
  have "answer_direction off own \<in> set directions" using own unfolding eq by (simp add: directions_def)
  then show ?thesis using table own unfolding direction_answers_def Let_def od_def[symmetric] eq list_all_iff by blast
qed

definition answers :: "SessionCapability \<Rightarrow> MediaDesc \<Rightarrow> MediaDesc \<Rightarrow> bool" where
  "answers cap m a =
     (md_media a = md_media m \<and>
      (md_port a = 0 \<and> md_fmts a = md_fmts m \<and> md_rtpmap a = [] \<and>
         (\<forall>mcap. media_cap cap (md_media m) = Some mcap \<longrightarrow> offered m \<inter> codec_key ` set (cap_codecs mcap) = {}) \<or>
       (\<exists>mcap. media_cap cap (md_media m) = Some mcap \<and> md_port a = cap_port mcap \<and> md_proto a = cap_profile mcap \<and>
          (\<exists>d. md_direction a = Some d \<and> direction_answers (md_direction m) (cap_direction mcap) d) \<and>
          md_rtcp_mux a = (cap_rtcp_mux mcap \<and> md_rtcp_mux m) \<and> md_fmts a \<noteq> [] \<and> distinct (md_fmts a) \<and>
          (\<forall>pt \<in> set (md_fmts a). \<exists>r. dict_get (md_rtpmap a) pt = Some r \<and>
             rtp_key r \<in> offered m \<inter> codec_key ` set (cap_codecs mcap)))))"

lemma params_value_ok:
  assumes "params_ok d" and "dict_get d k = Some v"
  shows "stripped v" and "list_all (\<lambda>c. c \<noteq> CHR '';'' \<and> \<not> is_linebreak c) v"
proof -
  have "(k, v) \<in> set d" using assms(2) by (simp add: dict_get_def map_of_SomeD)
  from params_okD(3,5,6)[OF assms(1) this]
  show "stripped v" "list_all (\<lambda>c. c \<noteq> CHR '';'' \<and> \<not> is_linebreak c) v" by (auto simp: list_all_iff)
qed

lemma remote_params_ok:
  assumes "md_ok md" and "(pt, k, ps) \<in> set (remote_codecs md cs)"
  shows "params_ok ps"
proof -
  have "params_ok []" by (simp add: params_ok_def)
  moreover have "dict_get (md_fmtp md) q = Some d \<Longrightarrow> params_ok d" for q d
    using assms(1) by (force simp: md_ok_def list_all_iff dict_get_def dest: map_of_SomeD)
  ultimately show ?thesis
    using assms(2) by (auto simp: remote_codecs_def set_map_filter remote_entry_def split: option.splits)
qed

lemma te_entries_common:
  assumes "mcap_ok m" and "md_ok md" and "rs = remote_codecs md (cap_codecs m)"
  shows "list_all (common_entry m rs) (te_entries m rs) \<and> distinct (map fst (te_entries m rs))"
proof (cases "te_entries m rs = []")
  case False
  then obtain te pt ps where te: "dict_get (local_codecs (cap_codecs m)) te_key = Some te"
    "find (\<lambda>(pt, k, params). k = te_key) rs = Some (pt, te_key, ps)" "te_entries m rs = [te_entry m te ps]"
    by (auto simp: te_entries_def dest!: find_SomeD split: option.splits)
  have c: "te \<in> set (cap_codecs m)" "codec_key te = te_key" using local_codecs_get(1)[OF te(1)] by auto
  have r: "(pt, te_key, ps) \<in> set rs" using find_SomeD[OF te(2)] by simp
  define ev where "ev = or_str (dict_get (codec_fmtp te) ''events'') (or_str (dict_get ps ''events'') ''0-16'')"
  have l: "stripped ''0-16''" "list_all (\<lambda>c. c \<noteq> CHR '';'' \<and> \<not> is_linebreak c) ''0-16''"
    by (simp_all add: stripped_def char_class_defs is_linebreak_def)
  have te_ok: "params_ok (codec_fmtp te)" using c(1) assms(1) by (auto simp: mcap_ok_def list_all_iff codec_ok_def)
  have ps_ok: "params_ok ps" using remote_params_ok[OF assms(2)] r assms(3) by blast
  have "stripped ev \<and> list_all (\<lambda>c. c \<noteq> CHR '';'' \<and> \<not> is_linebreak c) ev"
    unfolding ev_def or_str_def
    using l params_value_ok[OF te_ok] params_value_ok[OF ps_ok] by (auto simp: truthy_str_def split: option.splits)
  moreover have "stripped ''events''" "list_all (\<lambda>c. c \<noteq> CHR '';'' \<and> \<not> is_linebreak c) ''events''" "CHR ''='' \<notin> set ''events''"
    by (simp_all add: stripped_def char_class_defs is_linebreak_def)
  ultimately have "params_ok [(''events'', ev)]" by (simp add: params_ok_def dict_ok_def)
  moreover have "0 \<le> cap_te_pref m" using assms(1) by (simp add: mcap_ok_def pts_ok_def)
  moreover have "te_key \<in> (fst \<circ> snd) ` set rs" using r by force
  ultimately show ?thesis using c by (auto simp: te(3) te_entry_def ev_def[symmetric] common_entry_def codec_key_def)
qed simp

lemma te_entries_Nil:
  assumes "te_entries m rs = []" and "te_key \<in> (fst \<circ> snd) ` set rs"
  shows "te_key \<notin> codec_key ` set (cap_codecs m)"
proof -
  from assms(2) obtain x where x: "te_key = (fst \<circ> snd) x" "x \<in> set rs" by (rule imageE)
  then have "case x of (pt, k, params) \<Rightarrow> k = te_key" by (simp add: split_beta)
  with x(2) have "find (\<lambda>(pt, k, params). k = te_key) rs \<noteq> None" unfolding find_None_iff by blast
  with assms(1) have "dict_get (local_codecs (cap_codecs m)) te_key = None"
    by (auto simp: te_entries_def split: option.splits)
  then show ?thesis by (simp add: local_codecs_get(2))
qed

lemma common_entry_ok:
  assumes "mcap_ok m" and "common_entry m rs (pt, c)"
  shows "entry_ok (pt, c)" and "rtp_key (entry_rtpmap (pt, c)) \<in> (fst \<circ> snd) ` set rs \<inter> codec_key ` set (cap_codecs m)"
proof -
  obtain lc where lc: "lc \<in> set (cap_codecs m)" "codec_name c = codec_name lc" "clock c = clock lc" "channels c = channels lc"
    "0 \<le> pt" "params_ok (codec_fmtp c)" "codec_key c \<in> (fst \<circ> snd) ` set rs"
    using assms(2) by (auto simp: common_entry_def)
  moreover have "codec_ok lc" using lc(1) assms(1) by (simp add: mcap_ok_def list_all_iff)
  ultimately show "entry_ok (pt, c)" by (simp add: entry_ok_def codec_ok_def)
  have "rtp_key (entry_rtpmap (pt, c)) = codec_key c" "codec_key c = codec_key lc"
    using lc(2-4) by (simp_all add: rtp_key_def entry_rtpmap_def codec_key_def)
  with lc show "rtp_key (entry_rtpmap (pt, c)) \<in> (fst \<circ> snd) ` set rs \<inter> codec_key ` set (cap_codecs m)" by auto
qed

lemma answer_direction_ok: "own \<in> set directions \<Longrightarrow> answer_direction off own \<in> set directions"
  by (auto simp: answer_direction_def directions_def or_str_def truthy_str_def Let_def split: option.splits)

lemma media_cap_ok: "cap_ok cap \<Longrightarrow> media_cap cap name = Some m \<Longrightarrow> mcap_ok m"
  by (auto simp: cap_ok_def media_cap_def media_caps_def opt_list_def split: if_splits)

lemma answer_section_entries:
  assumes "media_cap cap (md_media md) = Some m" and "rs = remote_codecs md (cap_codecs m)"
  shows "answer_section cap md =
    map_res (\<lambda>es. if es = [] then [reject_line md]
        else section_lines (md_media md) (cap_port m) (cap_profile m) (answer_direction (md_direction md) (cap_direction m))
          (cap_rtcp_mux m \<and> md_rtcp_mux md) es)
      (answer_entries m rs 96 (te_entries m rs))"
proof -
  have f: "map_res snd (fold_res (answer_codec m) rs (96, answer_te m rs ([], [], []))) = map_res lists_of (answer_entries m rs 96 (te_entries m rs))"
    by (simp add: answer_te_entries fold_answer_codec)
  show ?thesis
    using f assms
    by (cases "fold_res (answer_codec m) rs (96, answer_te m rs ([], [], []))"; cases "answer_entries m rs 96 (te_entries m rs)")
      (auto simp: answer_section_def Let_def lists_of_def section_lines_def m_line_text)
qed

lemma answer_section_text:
  assumes "cap_ok cap" and "answer_section cap md = Inr b" and "md_ok md"
  shows "\<exists>t. text_ok t \<and> b = text_lines t \<and> answers cap md (complete_md None (Some (cap_ip cap)) (text_desc t))"
proof -
  let ?rej = "Rejected (md_media md) (md_proto md) (md_fmts md)"
  have rej: "text_ok ?rej" "[reject_line md] = text_lines ?rej"
    using assms(3) by (simp_all add: md_ok_def reject_line_def m_line_text)
  have rej_answers: "answers cap md (complete_md None (Some (cap_ip cap)) (text_desc ?rej))"
    if "\<And>m. media_cap cap (md_media md) = Some m \<Longrightarrow> offered md \<inter> codec_key ` set (cap_codecs m) = {}"
    using that by (simp add: answers_def complete_md_def new_md_def)
  show ?thesis
  proof (cases "media_cap cap (md_media md)")
    case None
    then show ?thesis using assms(2) rej rej_answers by (intro exI[of _ ?rej]) (simp add: answer_section_def)
  next
    case (Some m)
    define rs where "rs = remote_codecs md (cap_codecs m)"
    note mok = media_cap_ok[OF assms(1) Some]
    have off: "(fst \<circ> snd) ` set rs = offered md" unfolding rs_def by (rule remote_codecs_offered)
    obtain es where es: "answer_entries m rs 96 (te_entries m rs) = Inr es"
      "b = (if es = [] then [reject_line md] else section_lines (md_media md) (cap_port m) (cap_profile m)
        (answer_direction (md_direction md) (cap_direction m)) (cap_rtcp_mux m \<and> md_rtcp_mux md) es)"
      using assms(2) unfolding answer_section_entries[OF Some rs_def] by auto
    note te = te_entries_common[OF mok assms(3) rs_def]
    have c: "distinct (map fst es)" "list_all (common_entry m rs) es"
      using answer_entries_common[OF es(1) mok _ subset_refl] te by auto
    show ?thesis
    proof (cases "es = []")
      case True
      have none: "te_entries m rs = []" "\<not> (\<exists>(pt, k, ps) \<in> set rs. k \<noteq> te_key \<and> k \<in> codec_key ` set (cap_codecs m))"
        using answer_entries_nonempty[OF es(1)] True by blast+
      have "k \<notin> codec_key ` set (cap_codecs m)" if k: "k \<in> offered md" for k
      proof (cases "k = te_key")
        case True
        with k off te_entries_Nil[OF none(1)] show ?thesis by simp
      next
        case False
        obtain x where x: "x \<in> set rs" "fst (snd x) = k" using k unfolding off[symmetric] by auto
        have "\<not> (case x of (pt, k, ps) \<Rightarrow> k \<noteq> te_key \<and> k \<in> codec_key ` set (cap_codecs m))" using none(2) x(1) by blast
        with x(2) False show ?thesis by (simp add: split_beta)
      qed
      then have "offered md \<inter> codec_key ` set (cap_codecs m) = {}" by blast
      with True es(2) rej rej_answers Some show ?thesis by (intro exI[of _ ?rej]) simp
    next
      case False
      let ?t = "Accepted (md_media md) (cap_port m) (cap_profile m) (answer_direction (md_direction md) (cap_direction m))
          (cap_rtcp_mux m \<and> md_rtcp_mux md) es"
      have "list_all entry_ok es" using c(2) common_entry_ok(1)[OF mok] by (auto simp: list_all_iff)
      then have ok: "text_ok ?t"
        using mok assms(3) False answer_direction_ok[of "cap_direction m"] by (simp add: mcap_ok_def md_ok_def)
      then have dir: "answer_direction (md_direction md) (cap_direction m) \<noteq> []" by (auto simp: directions_def)
      have "\<exists>r. dict_get (md_rtpmap (complete_md None (Some (cap_ip cap)) (text_desc ?t))) pt = Some r \<and>
          rtp_key r \<in> offered md \<inter> codec_key ` set (cap_codecs m)" if pt: "pt \<in> set (map fst es)" for pt
      proof -
        obtain d where d: "(pt, d) \<in> set es" using pt by auto
        have "common_entry m rs (pt, d)" using c(2) d by (simp add: list_all_iff)
        from common_entry_ok(2)[OF mok this] section_announces[OF c(1) d] off show ?thesis by (simp add: announces_def)
      qed
      moreover have "direction_answers (md_direction md) (cap_direction m) (answer_direction (md_direction md) (cap_direction m))"
        using mok by (intro direction_answers_code) (simp add: mcap_ok_def)
      ultimately have "answers cap md (complete_md None (Some (cap_ip cap)) (text_desc ?t))"
        unfolding answers_def using Some False c(1) dir
        by (auto simp: complete_md_def section_desc_def new_md_def or_str_def truthy_str_def)
      with ok es(2) False show ?thesis by (intro exI[of _ ?t]) simp
    qed
  qed
qed

section \<open>The default capabilities\<close>

definition adv_audio_codecs :: "SDPCodec list" where
  "adv_audio_codecs =
     [codec_from_enum PCMU 8000 1 None (Some 0), codec_from_enum PCMA 8000 1 None (Some 8),
      codec_from_enum TELEPHONE_EVENT 8000 1 (Some [(''events'', ''0-16'')]) None]"

definition adv_audio_cap :: "int \<Rightarrow> MediaCapability" where
  "adv_audio_cap p = \<lparr>cap_media = ''audio'', cap_profile = ''RTP/AVP'', cap_direction = ''sendrecv'', cap_codecs = adv_audio_codecs,
     cap_rtcp_mux = True, cap_te_pref = 101, cap_port = p\<rparr>"

definition adv_session_cap :: "string \<Rightarrow> string \<Rightarrow> int \<Rightarrow> SessionCapability" where
  "adv_session_cap ip name p = \<lparr>cap_origin_user = ''tinysip'', cap_ip = ip, cap_session_name = name, cap_version = 0,
     cap_timing = ''0 0'', cap_audio = Some (adv_audio_cap p), cap_video = None\<rparr>"

lemma adv_codec_keys:
  "map codec_key adv_audio_codecs = [(''pcmu'', 8000, 1), (''pcma'', 8000, 1), te_key]"
  "map is_te adv_audio_codecs = [False, False, True]"
  by (simp_all add: adv_audio_codecs_def codec_from_enum_def codec_key_def te_key_def is_te_def lower_eval)

lemma adv_codecs_ok: "list_all codec_ok adv_audio_codecs"
proof -
  have "over encoding_char ''PCMU''" "over encoding_char ''PCMA''" "over encoding_char ''telephone-event''"
    by (simp_all add: over_def encoding_char_def sdp_letter_def code_def)
  moreover have "params_ok [(''events'', ''0-16'')]"
    by (simp add: params_ok_def dict_ok_def stripped_def char_class_defs is_linebreak_def)
  moreover have "params_ok []" by (simp add: params_ok_def)
  ultimately show ?thesis by (simp add: adv_audio_codecs_def codec_from_enum_def codec_ok_def)
qed

lemma adv_pts_ok: "pts_ok 101 adv_audio_codecs"
  using adv_codec_keys(2) by (simp add: pts_ok_def adv_audio_codecs_def codec_from_enum_def map_filter_simps)

lemma adv_cap_ok:
  assumes "word_ok ip" and "field_ok name" and "0 \<le> p"
  shows "mcap_ok (adv_audio_cap p)" and "cap_ok (adv_session_cap ip name p)"
proof -
  have "over sdp_letter ''audio''" "over proto_char ''RTP/AVP''" "adv_audio_codecs \<noteq> []"
    by (simp_all add: over_def sdp_letter_def proto_char_def code_def adv_audio_codecs_def)
  with assms(3) show m: "mcap_ok (adv_audio_cap p)"
    using adv_codecs_ok adv_pts_ok by (simp add: mcap_ok_def adv_audio_cap_def directions_def)
  have "word_ok ''tinysip''" "field_ok ''0 0''"
    by (simp_all add: word_ok_def field_ok_def stripped_def char_class_defs is_linebreak_def)
  with assms(1,2) m show "cap_ok (adv_session_cap ip name p)"
    by (simp add: cap_ok_def adv_session_cap_def media_caps_def opt_list_def)
qed

definition adv_entries :: "pt_entry list" where
  "adv_entries = zip [0, 8, 101] adv_audio_codecs"

lemma adv_offer_entries: "offer_entries 101 adv_audio_codecs 96 = Inr (96, adv_entries)"
  using adv_codec_keys(2) by (simp add: adv_audio_codecs_def codec_from_enum_def adv_entries_def offer_pt_def)

lemma adv_offer_built: "\<exists>text. build_offer now (adv_session_cap ip name p) = Inr text"
  using adv_offer_entries
  by (simp add: build_offer_def media_caps_def opt_list_def adv_session_cap_def adv_audio_cap_def offer_section_text)

lemma answer_entries_static:
  "list_all (\<lambda>c. \<not> is_dynamic c) (cap_codecs m) \<Longrightarrow> \<exists>es'. answer_entries m rs n es = Inr es'"
proof (induction m rs n es rule: answer_entries.induct)
  case (2 m pt k params rs n es)
  show ?case
  proof (cases "\<exists>c. dict_get (local_codecs (cap_codecs m)) k = Some c \<and> k \<noteq> te_key")
    case True
    then obtain c where c: "dict_get (local_codecs (cap_codecs m)) k = Some c" "k \<noteq> te_key" by blast
    have "\<not> is_dynamic c" using local_codecs_get(1)[OF c(1)] "2.prems" by (simp add: list_all_iff)
    then obtain q where "offer_pt (cap_te_pref m) c n = Inr (q, n)"
      by (cases "static_pt c") (auto simp: is_dynamic_def offer_pt_def)
    with "2.IH"(3)[OF c] "2.prems" c show ?thesis by simp
  next
    case False
    with "2.IH"(1,2) "2.prems" show ?thesis by (auto split: option.split)
  qed
qed simp

lemma adv_static: "list_all (\<lambda>c. \<not> is_dynamic c) adv_audio_codecs"
  using adv_codec_keys(2) by (simp add: adv_audio_codecs_def codec_from_enum_def is_dynamic_def)

lemma adv_answer_built: "\<exists>text. build_answer now offer (adv_session_cap ip name p) = Inr text"
proof -
  have "\<exists>b. answer_section (adv_session_cap ip name p) md = Inr b" for md
  proof (cases "media_cap (adv_session_cap ip name p) (md_media md)")
    case (Some m)
    then have "m = adv_audio_cap p" by (auto simp: media_cap_def adv_session_cap_def split: if_splits)
    then have "list_all (\<lambda>c. \<not> is_dynamic c) (cap_codecs m)" using adv_static by (simp add: adv_audio_cap_def)
    from answer_entries_static[OF this, of "remote_codecs md (cap_codecs m)" 96 "te_entries m (remote_codecs md (cap_codecs m))"]
    show ?thesis unfolding answer_section_entries[OF Some HOL.refl] by auto
  qed (simp add: answer_section_def)
  then have "list_all (\<lambda>md. \<exists>b. answer_section (adv_session_cap ip name p) md = Inr b) (sp_media offer)" by (simp add: list_all_iff)
  then show ?thesis using mapM_res_succeeds[of "answer_section (adv_session_cap ip name p)"] by (auto simp: build_answer_def)
qed

definition pcmu_offer :: SDPParsed where
  "pcmu_offer = \<lparr>sp_origin = ''- 1 1 IN IP4 h'', sp_name = ''s'', sp_connection = Some ''h'', sp_timing = ''0 0'',
     sp_media = [new_md ''audio'' 4000 ''RTP/AVP'' [0]]\<rparr>"

lemma example_fields: "word_ok ''h''" "field_ok ''s''" "field_ok ''0 0''"
  by (simp_all add: word_ok_def field_ok_def stripped_def char_class_defs is_linebreak_def)

section \<open>Properties\<close>



text \<open>C36. Building an offer fails exactly when a capability has more codecs without a payload type of their own
  than the range of dynamic payload types holds, one less when the preferred type of telephone events lies
  in it.\<close>

theorem offer_dynamic_limit:
  "(\<exists>text. build_offer now cap = Inr text) \<longleftrightarrow>
   list_all (\<lambda>m. length (filter is_dynamic (cap_codecs m)) \<le> (if 96 \<le> cap_te_pref m \<and> cap_te_pref m < 128 then 31 else 32))
     (media_caps cap)"
proof -
  have "(\<exists>b. offer_section m = Inr b) \<longleftrightarrow>
      length (filter is_dynamic (cap_codecs m)) \<le> (if 96 \<le> cap_te_pref m \<and> cap_te_pref m < 128 then 31 else 32)" for m
    using offer_entries_succeeds[of 96 "cap_te_pref m" "cap_codecs m"] by (auto simp: offer_section_text free_pts_def)
  then show ?thesis using mapM_res_succeeds[of offer_section "media_caps cap"] by (auto simp: build_offer_def)
qed

text \<open>C8. An answer matches the offer section by section: it has a section for every section of the offer, with
  the same media; each is either rejected, with port 0, and then there was no capability for the media or
  no codec in common, or accepted with the local port, a direction in which the answerer sends exactly if the
  offerer receives and the other way round (two-way offers leave it to the local capability), and different payload types, each announced for a codec that both sides have.\<close>

theorem answer_matches_offer:
  assumes "cap_ok cap" and "list_all md_ok (sp_media offer)" and "field_ok (sp_timing offer)"
    and "build_answer now offer cap = Inr text"
  shows "\<exists>p. sdp_parse text = Inr p \<and> sp_timing p = sp_timing offer \<and> list_all2 (answers cap) (sp_media offer) (sp_media p)"
proof -
  obtain bs where bs: "mapM_res (answer_section cap) (sp_media offer) = Inr bs"
    "text = join CRLF (session_head now cap (sp_timing offer) @ concat bs) @ CRLF"
    using assms(4) by (auto simp: build_answer_def)
  have "list_all2 (\<lambda>m b. \<exists>t. text_ok t \<and> b = text_lines t \<and> answers cap m (complete_md None (Some (cap_ip cap)) (text_desc t)))
      (sp_media offer) bs"
  proof (rule list_all2_mono'[OF _ assms(2)])
    show "list_all2 (\<lambda>m b. answer_section cap m = Inr b) (sp_media offer) bs" using bs(1) by (simp add: mapM_res_all2)
  qed (rule answer_section_text[OF assms(1)])
  from parse_built[OF this] assms(1,3) show ?thesis by (auto simp: cap_ok_def bs(2))
qed

theorem answer_matches_offer_witness:
  "\<exists>text p. build_answer 1 pcmu_offer (adv_session_cap ''h'' ''s'' 5004) = Inr text \<and> sdp_parse text = Inr p \<and>
     list_all2 (answers (adv_session_cap ''h'' ''s'' 5004)) (sp_media pcmu_offer) (sp_media p)"
proof -
  obtain out where t: "build_answer 1 pcmu_offer (adv_session_cap ''h'' ''s'' 5004) = Inr out" using adv_answer_built by blast
  have "cap_ok (adv_session_cap ''h'' ''s'' 5004)" by (rule adv_cap_ok(2)[OF example_fields(1,2)]) simp
  moreover have "list_all md_ok (sp_media pcmu_offer)"
    by (simp add: pcmu_offer_def md_ok_def new_md_def over_def sdp_letter_def proto_char_def code_def)
  moreover have "field_ok (sp_timing pcmu_offer)" using example_fields(3) by (simp add: pcmu_offer_def)
  ultimately show ?thesis using answer_matches_offer[OF _ _ _ t] t by blast
qed

end
