(* ===== verification/Sdp_Negotiation.thy ===== *)
theory Sdp_Negotiation
  imports Sdp_Builder
begin

text \<open>
  \<open>AdvancedSDPNegotiator\<close> of \<open>sdp.py\<close>: default offers and answers, and the result of a negotiation. The
  theorems follow one complete exchange, from the offer to the negotiated formats, and say what every
  negotiated media consists of.
\<close>

section \<open>Offers and answers with the default capabilities\<close>

definition adv_create_offer :: "int \<Rightarrow> string \<Rightarrow> int \<Rightarrow> string res" where
  "adv_create_offer now ip p = build_offer now (adv_session_cap ip ''TinySIP Offer'' p)"

definition adv_create_answer :: "int \<Rightarrow> string \<Rightarrow> string \<Rightarrow> int \<Rightarrow> string res" where
  "adv_create_answer now offer_sdp ip p =
     bind_res (sdp_parse offer_sdp) (\<lambda>offer. build_answer now offer (adv_session_cap ip ''TinySIP Answer'' p))"

text \<open>The two functions at the end of the module.\<close>

definition create_advanced_audio_offer :: "int \<Rightarrow> string \<Rightarrow> int \<Rightarrow> string res" where
  "create_advanced_audio_offer now ip p = adv_create_offer now ip p"

definition create_advanced_audio_answer :: "int \<Rightarrow> string \<Rightarrow> string \<Rightarrow> int \<Rightarrow> string res" where
  "create_advanced_audio_answer now offer_sdp ip p = adv_create_answer now offer_sdp ip p"

section \<open>The result of a negotiation\<close>

record NegotiatedFormat =
  nf_recv_pt :: int
  nf_send_pt :: int
  nf_codec :: SDPCodec

record NegotiatedMedia =
  nm_media :: string
  nm_remote_addr :: string
  nm_remote_port :: int
  nm_direction :: string
  nm_formats :: "NegotiatedFormat list"
  nm_rtcp_mux :: bool

definition send_pt :: "MediaDesc \<Rightarrow> SDPCodec \<Rightarrow> codec_id \<Rightarrow> int option" where
  "send_pt m_offer c key =
     (case find (\<lambda>(pt, r). rtp_key r = key) (md_rtpmap m_offer) of
        Some (pt, r) \<Rightarrow> Some pt
      | None \<Rightarrow> static_pt c)"

definition negotiated_format :: "MediaDesc \<Rightarrow> MediaCapability \<Rightarrow> int \<times> RtpMap \<Rightarrow> NegotiatedFormat option" where
  "negotiated_format m_offer mcap = (\<lambda>(pt_ans, r).
     (case dict_get (local_codecs (cap_codecs mcap)) (rtp_key r) of
        None \<Rightarrow> None
      | Some c \<Rightarrow> map_option (\<lambda>pt. \<lparr>nf_recv_pt = pt_ans, nf_send_pt = pt, nf_codec = c\<rparr>) (send_pt m_offer c (rtp_key r))))"

definition negotiate_media :: "SDPParsed \<Rightarrow> SessionCapability \<Rightarrow> MediaDesc \<times> MediaDesc \<Rightarrow> NegotiatedMedia option" where
  "negotiate_media local_offer caps = (\<lambda>(m_offer, m_ans).
     if md_port m_ans = 0 then None
     else case (if md_media m_offer = ''audio'' then cap_audio caps else cap_video caps) of
       None \<Rightarrow> None
     | Some mcap \<Rightarrow> Some
         \<lparr>nm_media = md_media m_offer,
          nm_remote_addr = or_str (md_conn_addr m_offer) (or_str (sp_connection local_offer) []),
          nm_remote_port = md_port m_ans,
          nm_direction = or_str (md_direction m_ans) ''sendrecv'',
          nm_formats = List.map_filter (negotiated_format m_offer mcap) (md_rtpmap m_ans),
          nm_rtcp_mux = (md_rtcp_mux m_ans \<and> md_rtcp_mux m_offer)\<rparr>)"

definition negotiate_from_offer_answer :: "SDPParsed \<Rightarrow> SDPParsed \<Rightarrow> SessionCapability \<Rightarrow> NegotiatedMedia list" where
  "negotiate_from_offer_answer local_offer remote_answer caps =
     List.map_filter (negotiate_media local_offer caps) (zip (sp_media local_offer) (sp_media remote_answer))"

definition next_reoffer_version :: "int \<Rightarrow> string \<Rightarrow> int" where
  "next_reoffer_version now prev_origin_line =
     (let parts = words prev_origin_line in
      if length parts \<le> 2 then now
      else case int_of_str (parts ! 2) of Some v \<Rightarrow> v + 1 | None \<Rightarrow> now)"

section \<open>One exchange\<close>

definition adv_desc :: "string \<Rightarrow> int \<Rightarrow> pt_entry list \<Rightarrow> MediaDesc" where
  "adv_desc ip p es = complete_md None (Some ip) (section_desc ''audio'' p ''RTP/AVP'' ''sendrecv'' True es)"

definition adv_parsed :: "int \<Rightarrow> string \<Rightarrow> string \<Rightarrow> int \<Rightarrow> pt_entry list \<Rightarrow> SDPParsed" where
  "adv_parsed now ip name p es = \<lparr>sp_origin = origin_text now (adv_session_cap ip name p), sp_name = name, sp_connection = Some ip,
     sp_timing = ''0 0'', sp_media = [adv_desc ip p es]\<rparr>"

lemma adv_document_parsed:
  assumes "word_ok ip" and "field_ok name" and "0 \<le> p" and "list_all entry_ok es" and "es \<noteq> []"
    and "cap = adv_session_cap ip name p"
  shows "sdp_parse (join CRLF (session_head now cap ''0 0'' @
      concat [section_lines ''audio'' p ''RTP/AVP'' ''sendrecv'' True es]) @ CRLF) = Inr (adv_parsed now ip name p es)"
proof -
  have "text_ok (Accepted ''audio'' p ''RTP/AVP'' ''sendrecv'' True es)"
    using assms(3-5) by (simp add: over_def sdp_letter_def proto_char_def code_def directions_def)
  moreover have "word_ok (cap_origin_user cap)" by (simp add: assms(6) adv_session_cap_def word_ok_def char_class_defs)
  ultimately show ?thesis
    using parse_document[of "origin_text now cap" name ip "''0 0''" "[Accepted ''audio'' p ''RTP/AVP'' ''sendrecv'' True es]"]
      session_head_document[of now cap "''0 0''" "[Accepted ''audio'' p ''RTP/AVP'' ''sendrecv'' True es]"]
      origin_ok[of cap now] example_fields(3) assms
    by (simp add: adv_parsed_def adv_desc_def adv_session_cap_def)
qed

lemma adv_entries_eq:
  "adv_entries = [(0, codec_from_enum PCMU 8000 1 None (Some 0)), (8, codec_from_enum PCMA 8000 1 None (Some 8)),
     (101, codec_from_enum TELEPHONE_EVENT 8000 1 (Some [(''events'', ''0-16'')]) None)]"
  by (simp add: adv_entries_def adv_audio_codecs_def)

lemma adv_entry_ok: "list_all entry_ok adv_entries" "adv_entries \<noteq> []"
  using adv_codecs_ok by (auto simp: adv_entries_eq adv_audio_codecs_def entry_ok_def codec_ok_def)

lemma adv_offer_parsed:
  assumes "word_ok ip" and "0 \<le> p"
  shows "\<exists>off. adv_create_offer now ip p = Inr off \<and> sdp_parse off = Inr (adv_parsed now ip ''TinySIP Offer'' p adv_entries)"
proof -
  have "field_ok ''TinySIP Offer''" by (simp add: field_ok_def stripped_def char_class_defs is_linebreak_def)
  from adv_document_parsed[OF assms(1) this assms(2) adv_entry_ok HOL.refl, of now] adv_offer_entries
  show ?thesis
    by (simp add: adv_create_offer_def build_offer_def media_caps_def opt_list_def adv_session_cap_def adv_audio_cap_def
        offer_section_text offer_text_def)
qed

definition answer_order :: "pt_entry list" where
  "answer_order = [adv_entries ! 2, adv_entries ! 0, adv_entries ! 1]"

lemma answer_order_eq:
  "answer_order = [(101, codec_from_enum TELEPHONE_EVENT 8000 1 (Some [(''events'', ''0-16'')]) None),
     (0, codec_from_enum PCMU 8000 1 None (Some 0)), (8, codec_from_enum PCMA 8000 1 None (Some 8))]"
  by (simp add: answer_order_def adv_entries_eq)

lemma answer_order_ok: "list_all entry_ok answer_order" "answer_order \<noteq> []"
  using adv_entry_ok(1) by (auto simp: answer_order_eq adv_entries_eq)

lemma adv_tables:
  "local_codecs adv_audio_codecs = [((''pcmu'', 8000, 1), adv_audio_codecs ! 0), ((''pcma'', 8000, 1), adv_audio_codecs ! 1),
     (te_key, adv_audio_codecs ! 2)]"
  "local_order adv_audio_codecs = [((''pcmu'', 8000, 1), 0), ((''pcma'', 8000, 1), 1), (te_key, 2)]"
  by (simp_all add: local_codecs_def local_order_def adv_audio_codecs_def codec_key_def codec_from_enum_def te_key_def lower_eval)

lemma adv_desc_fields:
  "md_media (adv_desc ip p es) = ''audio''" "md_port (adv_desc ip p es) = p" "md_direction (adv_desc ip p es) = Some ''sendrecv''"
  "md_rtcp_mux (adv_desc ip p es)" "md_conn_addr (adv_desc ip p es) = Some ip" "md_fmts (adv_desc ip p es) = map fst es"
  "md_rtpmap (adv_desc ip p es) = rtpmaps es" "md_fmtp (adv_desc ip p es) = fmtps es"
  by (simp_all add: adv_desc_def complete_md_def section_desc_def new_md_def or_str_def truthy_str_def)

lemma adv_codec_nth:
  "adv_audio_codecs ! 0 = codec_from_enum PCMU 8000 1 None (Some 0)" "adv_audio_codecs ! Suc 0 = codec_from_enum PCMA 8000 1 None (Some 8)"
  "adv_audio_codecs ! 2 = codec_from_enum TELEPHONE_EVENT 8000 1 (Some [(''events'', ''0-16'')]) None"
  by (simp_all add: adv_audio_codecs_def)

lemma adv_rtpmap:
  "rtpmaps adv_entries = [(0, entry_rtpmap (0, codec_from_enum PCMU 8000 1 None (Some 0))),
     (8, entry_rtpmap (8, codec_from_enum PCMA 8000 1 None (Some 8))),
     (101, entry_rtpmap (101, codec_from_enum TELEPHONE_EVENT 8000 1 (Some [(''events'', ''0-16'')]) None))]"
  "rtpmaps answer_order = [(101, entry_rtpmap (101, codec_from_enum TELEPHONE_EVENT 8000 1 (Some [(''events'', ''0-16'')]) None)),
     (0, entry_rtpmap (0, codec_from_enum PCMU 8000 1 None (Some 0))), (8, entry_rtpmap (8, codec_from_enum PCMA 8000 1 None (Some 8)))]"
  "fmtps adv_entries = [(101, [(''events'', ''0-16'')])]" "map fst adv_entries = [0, 8, 101]"
  by (simp_all add: rtpmaps_def fmtps_def with_params_def adv_entries_eq answer_order_eq codec_from_enum_def)

lemma adv_keys:
  "rtp_key (entry_rtpmap (pt, codec_from_enum PCMU 8000 1 None s)) = (''pcmu'', 8000, 1)"
  "rtp_key (entry_rtpmap (pt, codec_from_enum PCMA 8000 1 None s)) = (''pcma'', 8000, 1)"
  "rtp_key (entry_rtpmap (pt, codec_from_enum TELEPHONE_EVENT 8000 1 f s)) = te_key"
  by (simp_all add: rtp_key_def entry_rtpmap_def codec_from_enum_def te_key_def lower_eval)

lemma adv_remote_codecs:
  "remote_codecs (adv_desc ip p adv_entries) adv_audio_codecs =
     [(0, (''pcmu'', 8000, 1), []), (8, (''pcma'', 8000, 1), []), (101, te_key, [(''events'', ''0-16'')])]"
proof -
  have "List.map_filter (remote_entry (adv_desc ip p adv_entries)) [0, 8, 101] =
      [(0, (''pcmu'', 8000, 1), []), (8, (''pcma'', 8000, 1), []), (101, te_key, [(''events'', ''0-16'')])]"
    by (simp add: map_filter_simps remote_entry_def adv_desc_fields adv_rtpmap adv_keys)
  then show ?thesis by (simp add: remote_codecs_def adv_desc_fields adv_rtpmap(4) adv_tables te_key_def)
qed

lemma adv_answer_entries:
  "answer_entries (adv_audio_cap q) (remote_codecs (adv_desc ip p adv_entries) adv_audio_codecs) 96
     (te_entries (adv_audio_cap q) (remote_codecs (adv_desc ip p adv_entries) adv_audio_codecs)) = Inr answer_order"
proof -
  have k: "(''pcmu'', 8000, 1) \<noteq> te_key" "(''pcma'', 8000, 1) \<noteq> te_key" by (simp_all add: te_key_def)
  have c: "cap_codecs (adv_audio_cap q) = adv_audio_codecs" "cap_te_pref (adv_audio_cap q) = 101" by (simp_all add: adv_audio_cap_def)
  have e: "codec_fmtp (codec_from_enum TELEPHONE_EVENT 8000 1 (Some d) None) = d"
    "static_pt (codec_from_enum x 8000 1 f s) = s" for d x f s by (simp_all add: codec_from_enum_def)
  have t: "te_entries (adv_audio_cap q) (remote_codecs (adv_desc ip p adv_entries) adv_audio_codecs) = [hd answer_order]"
    using k by (simp add: te_entries_def te_entry_def adv_remote_codecs c adv_tables adv_codec_nth answer_order_eq)
      (simp add: codec_from_enum_def)
  show ?thesis
    unfolding t using k by (simp add: adv_remote_codecs c adv_tables answer_order_eq adv_codec_nth offer_pt_def e)
qed

lemma adv_answer_parsed:
  assumes "word_ok ip'" and "0 \<le> q"
  shows "\<exists>ans. build_answer now' (adv_parsed now ip name p adv_entries) (adv_session_cap ip' ''TinySIP Answer'' q) = Inr ans \<and>
    sdp_parse ans = Inr (adv_parsed now' ip' ''TinySIP Answer'' q answer_order)"
proof -
  let ?cap = "adv_session_cap ip' ''TinySIP Answer'' q" and ?md = "adv_desc ip p adv_entries"
  have f: "field_ok ''TinySIP Answer''" by (simp add: field_ok_def stripped_def char_class_defs is_linebreak_def)
  note d = adv_desc_fields[of ip p adv_entries]
  have c: "media_cap ?cap (md_media ?md) = Some (adv_audio_cap q)" by (simp add: d media_cap_def adv_session_cap_def)
  have "answer_section ?cap ?md = Inr (section_lines ''audio'' q ''RTP/AVP'' ''sendrecv'' True answer_order)"
    using adv_answer_entries[of q ip p] answer_order_ok(2) d unfolding answer_section_entries[OF c HOL.refl]
    by (simp add: adv_audio_cap_def answer_direction_def or_str_def truthy_str_def)
  with adv_document_parsed[OF assms(1) f assms(2) answer_order_ok HOL.refl, of now'] show ?thesis
    by (simp add: build_answer_def adv_parsed_def)
qed

definition adv_result :: "string \<Rightarrow> int \<Rightarrow> NegotiatedMedia" where
  "adv_result ip q = \<lparr>nm_media = ''audio'', nm_remote_addr = ip, nm_remote_port = q, nm_direction = ''sendrecv'',
     nm_formats = map (\<lambda>(pt, c). \<lparr>nf_recv_pt = pt, nf_send_pt = pt, nf_codec = c\<rparr>)
       [(101, adv_audio_codecs ! 2), (0, adv_audio_codecs ! 0), (8, adv_audio_codecs ! 1)],
     nm_rtcp_mux = True\<rparr>"

lemma adv_negotiated:
  assumes "word_ok ip" and "q \<noteq> 0"
  shows "negotiate_from_offer_answer (adv_parsed now ip ''TinySIP Offer'' p adv_entries) (adv_parsed now' ip' ''TinySIP Answer'' q answer_order)
      (adv_session_cap ip ''TinySIP Offer'' p) = [adv_result ip q]"
proof -
  have k: "(''pcmu'', 8000, 1) \<noteq> te_key" "(''pcma'', 8000, 1) \<noteq> te_key" by (simp_all add: te_key_def)
  have "ip \<noteq> []" using assms(1) by (simp add: word_ok_def)
  moreover have "List.map_filter (negotiated_format (adv_desc ip p adv_entries) (adv_audio_cap p)) (md_rtpmap (adv_desc ip' q answer_order)) =
      map (\<lambda>(pt, c). \<lparr>nf_recv_pt = pt, nf_send_pt = pt, nf_codec = c\<rparr>) [(101, adv_audio_codecs ! 2), (0, adv_audio_codecs ! 0), (8, adv_audio_codecs ! 1)]"
    using k by (simp add: adv_desc_fields adv_rtpmap map_filter_simps negotiated_format_def adv_keys adv_audio_cap_def adv_tables send_pt_def)
  ultimately show ?thesis
    using assms(2)
    by (simp add: negotiate_from_offer_answer_def adv_parsed_def map_filter_simps negotiate_media_def adv_session_cap_def adv_result_def)
      (simp add: adv_desc_fields or_str_def truthy_str_def)
qed

lemma origin_words:
  assumes "word_ok (cap_origin_user cap)" and "word_ok (cap_ip cap)"
  shows "words (origin_text now cap) = [cap_origin_user cap, int_str now, int_str (cap_version cap), ''IN'', ''IP4'', cap_ip cap]"
proof -
  have "word_ok ''IN''" "word_ok ''IP4''" by (simp_all add: word_ok_def char_class_defs)
  then show ?thesis
    using words_join[of "[cap_origin_user cap, int_str now, int_str (cap_version cap), ''IN'', ''IP4'', cap_ip cap]"] assms int_str_word
    by (auto simp: origin_text_def)
qed

section \<open>Properties\<close>

text \<open>C34. A complete exchange with the default capabilities: the offer of one side is answered by the other, both
  descriptions parse, and the negotiation gives one audio stream in both directions with rtcp-mux to the
  port of the answer, in which telephone events come first and every codec has the same payload type in
  both directions. The address of the stream, however, is the one of the offer, that is, the negotiating
  side's own.\<close>

theorem default_exchange:
  assumes "word_ok ip" and "word_ok ip'" and "0 \<le> p" and "0 < q"
  shows "\<exists>off ans o' a'. create_advanced_audio_offer now ip p = Inr off \<and>
    create_advanced_audio_answer now' off ip' q = Inr ans \<and> sdp_parse off = Inr o' \<and> sdp_parse ans = Inr a' \<and>
    negotiate_from_offer_answer o' a' (adv_session_cap ip ''TinySIP Offer'' p) =
      [\<lparr>nm_media = ''audio'', nm_remote_addr = ip, nm_remote_port = q, nm_direction = ''sendrecv'',
        nm_formats = map (\<lambda>(pt, c). \<lparr>nf_recv_pt = pt, nf_send_pt = pt, nf_codec = c\<rparr>)
          [(101, adv_audio_codecs ! 2), (0, adv_audio_codecs ! 0), (8, adv_audio_codecs ! 1)],
        nm_rtcp_mux = True\<rparr>]"
proof -
  obtain off where off: "adv_create_offer now ip p = Inr off" "sdp_parse off = Inr (adv_parsed now ip ''TinySIP Offer'' p adv_entries)"
    using adv_offer_parsed[OF assms(1,3)] by blast
  obtain ans where ans: "build_answer now' (adv_parsed now ip ''TinySIP Offer'' p adv_entries) (adv_session_cap ip' ''TinySIP Answer'' q) = Inr ans"
    "sdp_parse ans = Inr (adv_parsed now' ip' ''TinySIP Answer'' q answer_order)"
    using adv_answer_parsed[OF assms(2), of q] assms(4) by (metis less_imp_le)
  from adv_negotiated[OF assms(1), of q] assms(4) off ans show ?thesis
    by (auto simp: create_advanced_audio_offer_def create_advanced_audio_answer_def adv_create_answer_def adv_result_def)
qed

theorem default_exchange_witness:
  "\<exists>off ans. create_advanced_audio_offer 1 ''h'' 5004 = Inr off \<and> create_advanced_audio_answer 2 off ''h'' 6004 = Inr ans"
  using default_exchange[OF example_fields(1) example_fields(1), of 5004 6004 1 2] by auto



text \<open>A new offer raises the version: the version computed from the origin line of a description that this
  side built is the version of that description plus one.\<close>

theorem reoffer_raises_version:
  assumes "cap_ok cap" and "build_offer now cap = Inr out" and "sdp_parse out = Inr p"
  shows "next_reoffer_version later (sp_origin p) = cap_version cap + 1"
proof -
  obtain bs where bs: "mapM_res offer_section (media_caps cap) = Inr bs"
    "out = join CRLF (session_head now cap (cap_timing cap) @ concat bs) @ CRLF"
    using assms(2) by (auto simp: build_offer_def)
  have "list_all2 (\<lambda>m b. \<exists>t. text_ok t \<and> b = text_lines t \<and> True) (media_caps cap) bs"
  proof (rule list_all2_mono')
    show "list_all2 (\<lambda>m b. offer_section m = Inr b) (media_caps cap) bs" using bs(1) by (simp add: mapM_res_all2)
    show "list_all mcap_ok (media_caps cap)" using assms(1) by (simp add: cap_ok_def)
    show "\<exists>t. text_ok t \<and> b = text_lines t \<and> True" if b: "offer_section m = Inr b" and m: "mcap_ok m" for m b
      using b offer_entries_ok(1)[OF m] by (cases "offer_entries (cap_te_pref m) (cap_codecs m) 96") (auto simp: offer_section_text)
  qed
  from parse_built[OF this, where cap = cap and timing = "cap_timing cap" and now = now] assms have "sp_origin p = origin_text now cap" by (auto simp: cap_ok_def bs(2))
  with origin_words[of cap now] assms(1) show ?thesis by (simp add: next_reoffer_version_def cap_ok_def)
qed

theorem reoffer_raises_version_witness:
  "\<exists>out p. build_offer 1 (adv_session_cap ''h'' ''s'' 5004) = Inr out \<and> sdp_parse out = Inr p \<and> next_reoffer_version 9 (sp_origin p) = 1"
proof -
  have c: "cap_ok (adv_session_cap ''h'' ''s'' 5004)" by (rule adv_cap_ok(2)[OF example_fields(1,2)]) simp
  have "build_offer 1 (adv_session_cap ''h'' ''s'' 5004) =
      Inr (join CRLF (session_head 1 (adv_session_cap ''h'' ''s'' 5004) ''0 0'' @
        concat [section_lines ''audio'' 5004 ''RTP/AVP'' ''sendrecv'' True adv_entries]) @ CRLF)" (is "_ = Inr ?out")
    using adv_offer_entries
    by (simp add: build_offer_def media_caps_def opt_list_def adv_session_cap_def adv_audio_cap_def offer_section_text offer_text_def)
  moreover have "sdp_parse ?out = Inr (adv_parsed 1 ''h'' ''s'' 5004 adv_entries)"
    by (rule adv_document_parsed[OF example_fields(1,2) _ adv_entry_ok HOL.refl]) simp
  moreover have "cap_version (adv_session_cap ''h'' ''s'' 5004) = 0" by (simp add: adv_session_cap_def)
  ultimately show ?thesis using reoffer_raises_version[OF c, of 1 ?out _ 9] by (metis add_0)
qed

end
