(* ===== verification/Ladder.thy ===== *)
theory Ladder
  imports Py_Strings
begin

text \<open>
  The ladder diagram of \<open>ladder.py\<close>: columns for the participants, one row per message with its time, an
  arrow between two columns and a label on it. A row is a list of cells; the box-drawing characters of the
  source are constructors. What is printed is the header, the rows with the style of their arrow, and the
  legend, which is the same for every ladder.
\<close>

section \<open>Cells and rows\<close>

datatype cell = Ch char | Lifeline | Rail | ArrowRight | ArrowLeft

type_synonym row = "cell list"

text \<open>Item assignment \<open>row[i] = v\<close>: negative indices count from the end, others out of range raise.\<close>

definition set_item :: "int \<Rightarrow> 'a \<Rightarrow> 'a list \<Rightarrow> 'a list res" where
  "set_item i v xs =
     (if 0 \<le> i \<and> i < int (length xs) then Inr (xs[nat i := v])
      else if - int (length xs) \<le> i \<and> i < 0 then Inr (xs[nat (i + int (length xs)) := v])
      else Inl IndexError)"

definition ljust :: "nat \<Rightarrow> string \<Rightarrow> string" where
  "ljust n s = s @ replicate (n - length s) CHR '' ''"

text \<open>\<open>str.center\<close>: of an odd margin the extra space goes left when the width is odd.\<close>

definition center :: "int \<Rightarrow> string \<Rightarrow> string" where
  "center w s =
     (let marg = w - int (length s) in
      if marg \<le> 0 then s
      else
        let left = marg div 2 + (if odd marg \<and> odd w then 1 else 0)
        in replicate (nat left) CHR '' '' @ s @ replicate (nat (marg - left)) CHR '' '')"

fun index_of :: "'a list \<Rightarrow> 'a \<Rightarrow> nat res" where
  "index_of [] x = Inl ValueError"
| "index_of (y # ys) x = (if y = x then Inr 0 else map_res Suc (index_of ys x))"

section \<open>Messages and geometry\<close>

record ladder_message =
  lm_timestamp :: "string option"
  lm_source :: string
  lm_dest :: string
  lm_method :: string
  lm_status :: "string option"

definition color_for :: "string \<Rightarrow> string" where
  "color_for meth =
     (let m = upper meth in
      if starts_with m ''100'' \<or> starts_with m ''180'' \<or> starts_with m ''183'' then ''yellow''
      else if starts_with m ''2'' then ''bold green''
      else if take 1 m \<in> set [''3'', ''4'', ''5'', ''6''] then ''bold red''
      else if contains ''INVITE'' m then ''bold cyan''
      else if contains ''BYE'' m \<or> contains ''CANCEL'' m then ''red''
      else if contains ''ACK'' m then ''green''
      else ''white'')"

definition add_participant :: "string \<Rightarrow> string list \<Rightarrow> string list" where
  "add_participant p ps = (if p \<in> set ps then ps else ps @ [p])"

definition participants_of :: "ladder_message list \<Rightarrow> string list" where
  "participants_of ms = fold (\<lambda>m ps. add_participant (lm_dest m) (add_participant (lm_source m) ps)) ms []"

definition ts_width :: nat where
  "ts_width = 16"

definition total_width :: "nat \<Rightarrow> int \<Rightarrow> int \<Rightarrow> int" where
  "total_width n col_width gap = int ts_width + int n * col_width + (int n - 1) * gap"

definition column_centers :: "nat \<Rightarrow> int \<Rightarrow> int \<Rightarrow> int list" where
  "column_centers n col_width gap = map (\<lambda>i. int ts_width + int i * (col_width + gap) + col_width div 2) [0..<n]"

definition header_text :: "string list \<Rightarrow> int \<Rightarrow> int \<Rightarrow> string" where
  "header_text ps col_width gap =
     replicate ts_width CHR '' '' @ join (replicate (nat gap) CHR '' '') (map (center col_width) ps)"

definition lifeline_template :: "nat \<Rightarrow> int \<Rightarrow> int \<Rightarrow> row res" where
  "lifeline_template n col_width gap =
     fold_res (\<lambda>c. set_item c Lifeline) (column_centers n col_width gap)
       (replicate (nat (total_width n col_width gap)) (Ch CHR '' ''))"

section \<open>One row\<close>

definition put_timestamp :: "string \<Rightarrow> row \<Rightarrow> row" where
  "put_timestamp ts r = map Ch (ljust ts_width (take ts_width ts)) @ drop ts_width r"

text \<open>The rail of the arrow: every cell from \<open>a\<close> up to \<open>b\<close> that is not on a lifeline.\<close>

definition draw_rail :: "int list \<Rightarrow> int \<Rightarrow> int \<Rightarrow> row \<Rightarrow> row res" where
  "draw_rail cs a b = fold_res (\<lambda>x r. if x \<in> set cs then Inr r else set_item x Rail r) [a..b - 1]"

definition draw_head :: "int \<Rightarrow> int \<Rightarrow> int \<Rightarrow> int \<Rightarrow> row \<Rightarrow> row res" where
  "draw_head s d a b r = (if s < d then set_item b ArrowRight r else set_item (a - 1) ArrowLeft r)"

text \<open>The loop that writes the label; its state is the row and what is left of the label.\<close>

definition draw_label_cell :: "int list \<Rightarrow> int \<Rightarrow> row \<times> string \<Rightarrow> (row \<times> string) res" where
  "draw_label_cell cs x st =
     (case st of
        (r, []) \<Rightarrow> Inr (r, [])
      | (r, c # l) \<Rightarrow> if x \<in> set cs then Inr (r, c # l) else map_res (\<lambda>r'. (r', l)) (set_item x (Ch c) r))"

definition label_start :: "int \<Rightarrow> int \<Rightarrow> string \<Rightarrow> int" where
  "label_start a b label = max a ((a + b - int (length label)) div 2)"

definition draw_label :: "int list \<Rightarrow> int \<Rightarrow> int \<Rightarrow> string \<Rightarrow> row \<Rightarrow> row res" where
  "draw_label cs a b label r =
     (let x0 = label_start a b label;
          x1 = min b (x0 + int (length label))
      in map_res fst (fold_res (draw_label_cell cs) [x0..x1 - 1] (r, label)))"

definition draw_arrow :: "int list \<Rightarrow> int \<Rightarrow> int \<Rightarrow> string \<Rightarrow> row \<Rightarrow> row res" where
  "draw_arrow cs s d label r =
     (let a = (if s < d then s else d) + 2;
          b = (if s < d then d else s) - 2
      in bind_res (draw_rail cs a b r) (\<lambda>r1. bind_res (draw_head s d a b r1) (draw_label cs a b label)))"

text \<open>A printed row: its cells, and the style of the cells from the first number up to the second.\<close>

type_synonym styled_row = "row \<times> string \<times> int \<times> int"

definition arrow_style :: "int \<Rightarrow> int \<Rightarrow> string \<Rightarrow> row \<Rightarrow> styled_row" where
  "arrow_style s d color r = (r, color, (if s < d then s else d) + 2, (if s < d then d else s) - 2 + 1)"

definition message_label :: "ladder_message \<Rightarrow> string" where
  "message_label m = lm_method m @ (if truthy_str (lm_status m) then '' | '' @ the (lm_status m) else [])"

definition ladder_row :: "string list \<Rightarrow> int \<Rightarrow> int \<Rightarrow> row \<Rightarrow> ladder_message \<Rightarrow> styled_row res" where
  "ladder_row ps col_width gap template m =
     (let cs = column_centers (length ps) col_width gap;
          r = put_timestamp (or_str (lm_timestamp m) []) template
      in bind_res (index_of ps (lm_source m)) (\<lambda>si.
         bind_res (index_of ps (lm_dest m)) (\<lambda>di.
         map_res (arrow_style (cs ! si) (cs ! di) (color_for (lm_method m)))
           (draw_arrow cs (cs ! si) (cs ! di) (message_label m) r))))"

definition render_sip_ladder :: "ladder_message list \<Rightarrow> int \<Rightarrow> int \<Rightarrow> (string \<times> styled_row list) res" where
  "render_sip_ladder ms col_width gap =
     (let ps = participants_of ms
      in bind_res (lifeline_template (length ps) col_width gap) (\<lambda>template.
         map_res (Pair (header_text ps col_width gap)) (mapM_res (ladder_row ps col_width gap template) ms)))"

text \<open>The legend, printed after the rows of every ladder, and the messages the module draws when it is run.\<close>

definition ladder_legend :: "(row \<times> string) list" where
  "ladder_legend =
     [([Lifeline], ''dim''), (map Ch '' lifeline  '', ''dim''), ([Rail, ArrowRight, Ch CHR ''/'', ArrowLeft], ''bold white''),
      (map Ch '' fluxo  '', ''bold white''), (map Ch ''1xx'', ''yellow''), (map Ch '' provisional  '', ''yellow''),
      (map Ch ''2xx'', ''bold green''), (map Ch '' sucesso  '', ''bold green''), (map Ch ''4xx-6xx'', ''bold red''), (map Ch '' erro'', ''bold red'')]"

definition demo_msgs :: "ladder_message list" where
  "demo_msgs = map (\<lambda>(t, a, b, meth). \<lparr>lm_timestamp = Some t, lm_source = a, lm_dest = b, lm_method = meth, lm_status = None\<rparr>)
     [(''15:01:30.395894'', ''10.10.1.142:5061'', ''10.10.9.40:5060'', ''INVITE''),
      (''15:01:30.396222'', ''10.10.9.40:5060'', ''10.10.1.142:5061'', ''401 Unauthorized''),
      (''15:01:30.401112'', ''10.10.1.142:5061'', ''10.10.9.40:5060'', ''ACK''),
      (''15:01:30.405455'', ''10.10.1.142:5061'', ''10.10.9.40:5060'', ''INVITE (SDP)''),
      (''15:01:30.405906'', ''10.10.9.40:5060'', ''10.10.1.142:5061'', ''100 Trying''),
      (''15:01:30.735636'', ''10.10.9.40:5060'', ''10.10.1.245:5063'', ''INVITE (SDP)''),
      (''15:01:30.741073'', ''10.10.1.245:5063'', ''10.10.9.40:5060'', ''100 Trying''),
      (''15:01:30.755964'', ''10.10.1.245:5063'', ''10.10.9.40:5060'', ''180 Ringing''),
      (''15:01:30.756674'', ''10.10.9.40:5060'', ''10.10.1.142:5061'', ''180 Ringing''),
      (''15:01:32.435633'', ''10.10.1.245:5063'', ''10.10.9.40:5060'', ''BYE''),
      (''15:01:32.435880'', ''10.10.9.40:5060'', ''10.10.1.245:5063'', ''200 OK'')]"

definition ladder_demo :: "(string \<times> styled_row list) res" where
  "ladder_demo = render_sip_ladder demo_msgs 23 8"

section \<open>Writing cells\<close>

lemma set_item_in: "0 \<le> i \<Longrightarrow> i < int (length r) \<Longrightarrow> set_item i v r = Inr (r[nat i := v])"
  by (simp add: set_item_def)

lemma fold_set_items:
  assumes "\<forall>x \<in> set xs. 0 \<le> x \<and> x < int (length r)"
  shows "\<exists>r'. fold_res (\<lambda>x r. if P x then Inr r else set_item x v r) xs r = Inr r' \<and> length r' = length r \<and>
    (\<forall>k < length r. r' ! k = (if int k \<in> set xs \<and> \<not> P (int k) then v else r ! k))"
  using assms
proof (induction xs arbitrary: r)
  case (Cons x xs)
  show ?case
  proof (cases "P x")
    case True
    then show ?thesis using Cons.IH[of r] Cons.prems by fastforce
  next
    case False
    let ?r = "r[nat x := v]"
    obtain r' where r': "fold_res (\<lambda>x r. if P x then Inr r else set_item x v r) xs ?r = Inr r'" "length r' = length r"
        "\<forall>k < length r. r' ! k = (if int k \<in> set xs \<and> \<not> P (int k) then v else ?r ! k)"
      using Cons.IH[of ?r] Cons.prems by auto
    have "?r ! k = (if int k = x then v else r ! k)" if "k < length r" for k
      using that Cons.prems by (auto simp: nth_list_update)
    with r' False Cons.prems show ?thesis by (auto simp: set_item_in)
  qed
qed simp

lemma draw_rail_cells:
  assumes "a < b \<Longrightarrow> 0 \<le> a \<and> b \<le> int (length r)"
  shows "\<exists>r'. draw_rail cs a b r = Inr r' \<and> length r' = length r \<and>
    (\<forall>k < length r. r' ! k = (if a \<le> int k \<and> int k < b \<and> int k \<notin> set cs then Rail else r ! k))"
  using fold_set_items[of "[a..b - 1]" r "\<lambda>x. x \<in> set cs" Rail] assms unfolding draw_rail_def by force

text \<open>The label loop writes the characters one by one into the cells that are free.\<close>

definition write_cells :: "(int \<times> char) list \<Rightarrow> row \<Rightarrow> row" where
  "write_cells = fold (\<lambda>(x, c) r. r[nat x := Ch c])"

lemma write_cells_simps [simp]: "write_cells [] r = r" "write_cells ((x, c) # xs) r = write_cells xs (r[nat x := Ch c])"
  by (simp_all add: write_cells_def)

lemma length_write_cells [simp]: "length (write_cells xs r) = length r"
  by (induction xs arbitrary: r) auto

lemma write_cells_other: "\<forall>(x, c) \<in> set xs. nat x \<noteq> k \<Longrightarrow> write_cells xs r ! k = r ! k"
  by (induction xs arbitrary: r) auto

lemma write_cells_nth:
  "distinct (map fst xs) \<Longrightarrow> \<forall>(x, c) \<in> set xs. 0 \<le> x \<and> x < int (length r) \<Longrightarrow> (x, c) \<in> set xs \<Longrightarrow>
   write_cells xs r ! nat x = Ch c"
proof (induction xs arbitrary: r)
  case (Cons y xs)
  obtain z e where y: "y = (z, e)" by (cases y)
  show ?case
  proof (cases "(x, c) \<in> set xs")
    case True
    with Cons y show ?thesis by auto
  next
    case False
    with Cons.prems(3) y have "x = z" "c = e" by auto
    moreover have "\<forall>(x', c') \<in> set xs. nat x' \<noteq> nat z" using Cons.prems(1,2) y by force
    ultimately show ?thesis using Cons.prems(2) y by (simp add: write_cells_other nat_less_iff)
  qed
qed simp

lemma draw_label_loop:
  "\<forall>x \<in> set xs. 0 \<le> x \<and> x < int (length r) \<Longrightarrow>
   fold_res (draw_label_cell cs) xs (r, l) =
     Inr (write_cells (zip (filter (\<lambda>x. x \<notin> set cs) xs) l) r, drop (length (filter (\<lambda>x. x \<notin> set cs) xs)) l)"
proof (induction xs arbitrary: r l)
  case (Cons x xs)
  then show ?case by (cases l) (auto simp: draw_label_cell_def set_item_in)
qed simp

definition label_cells :: "int list \<Rightarrow> int \<Rightarrow> int \<Rightarrow> string \<Rightarrow> int list" where
  "label_cells cs a b label =
     filter (\<lambda>x. x \<notin> set cs) [label_start a b label..min b (label_start a b label + int (length label)) - 1]"

lemma label_cells_range: "x \<in> set (label_cells cs a b label) \<Longrightarrow> a \<le> x \<and> x < b \<and> x \<notin> set cs"
  by (auto simp: label_cells_def label_start_def)

lemma distinct_label_cells: "distinct (label_cells cs a b label)"
  by (simp add: label_cells_def)

lemma draw_label_cells:
  assumes "a < b \<Longrightarrow> 0 \<le> a \<and> b \<le> int (length r)"
  shows "draw_label cs a b label r = Inr (write_cells (zip (label_cells cs a b label) label) r)"
proof -
  have "\<forall>x \<in> set [label_start a b label..min b (label_start a b label + int (length label)) - 1]. 0 \<le> x \<and> x < int (length r)"
    using assms by (auto simp: label_start_def)
  from draw_label_loop[OF this] show ?thesis by (simp add: draw_label_def label_cells_def Let_def)
qed

section \<open>Arrows\<close>

text \<open>Columns far enough from the time area, from the right end and from each other.\<close>

definition columns_ok :: "int list \<Rightarrow> int \<Rightarrow> bool" where
  "columns_ok cs len = (\<forall>c \<in> set cs. 17 \<le> c \<and> c + 1 < len \<and> (\<forall>c' \<in> set cs. c = c' \<or> 3 \<le> \<bar>c - c'\<bar>))"

lemma columns_okD:
  "columns_ok cs len \<Longrightarrow> c \<in> set cs \<Longrightarrow> 17 \<le> c \<and> c + 1 < len"
  "columns_ok cs len \<Longrightarrow> c \<in> set cs \<Longrightarrow> c' \<in> set cs \<Longrightarrow> c \<noteq> c' \<Longrightarrow> 3 \<le> \<bar>c - c'\<bar>"
  by (auto simp: columns_ok_def)

definition head_pos :: "int \<Rightarrow> int \<Rightarrow> int" where
  "head_pos s d = (if s < d then d - 2 else d + 1)"

definition head_cell :: "int \<Rightarrow> int \<Rightarrow> cell" where
  "head_cell s d = (if s < d then ArrowRight else ArrowLeft)"

definition rail_from :: "int \<Rightarrow> int \<Rightarrow> int" where
  "rail_from s d = min s d + 2"

definition rail_to :: "int \<Rightarrow> int \<Rightarrow> int" where
  "rail_to s d = max s d - 2"

lemma draw_arrow_cells:
  assumes ok: "columns_ok cs (int (length r))" and s: "s \<in> set cs" and d: "d \<in> set cs"
  defines "a \<equiv> rail_from s d" and "b \<equiv> rail_to s d"
  shows "\<exists>r1. draw_arrow cs s d label r = Inr (write_cells (zip (label_cells cs a b label) label) (r1[nat (head_pos s d) := head_cell s d])) \<and>
    length r1 = length r \<and>
    (\<forall>k < length r. r1 ! k = (if a \<le> int k \<and> int k < b \<and> int k \<notin> set cs then Rail else r ! k))"
proof -
  note cs = columns_okD(1)[OF ok s] columns_okD(1)[OF ok d] columns_okD(2)[OF ok s d]
  have ab: "(if s < d then s else d) + 2 = a" "(if s < d then d else s) - 2 = b"
    by (auto simp: a_def b_def rail_from_def rail_to_def)
  have r: "a < b \<Longrightarrow> 0 \<le> a \<and> b \<le> int (length r)" using cs by (auto simp: a_def b_def rail_from_def rail_to_def)
  obtain r1 where r1: "draw_rail cs a b r = Inr r1" "length r1 = length r"
      "\<forall>k < length r. r1 ! k = (if a \<le> int k \<and> int k < b \<and> int k \<notin> set cs then Rail else r ! k)"
    using draw_rail_cells[OF r, of cs] by blast
  have "draw_head s d a b r1 = Inr (r1[nat (head_pos s d) := head_cell s d])"
    using cs r1(2) by (auto simp: draw_head_def head_pos_def head_cell_def a_def b_def rail_from_def rail_to_def set_item_in add.commute)
  with r1 r show ?thesis by (intro exI[of _ r1] conjI) (simp_all add: draw_arrow_def Let_def ab draw_label_cells)
qed

text \<open>What an arrow keeps and what it shows.\<close>

lemma draw_arrow_row:
  assumes ok: "columns_ok cs (int (length r))" and s: "s \<in> set cs" and d: "d \<in> set cs"
    and res: "draw_arrow cs s d label r = Inr r'"
  shows "length r' = length r"
    and "k < length r \<Longrightarrow> int k < 17 \<or> int k \<in> set cs \<Longrightarrow> r' ! k = r ! k"
    and "r' ! nat (head_pos s d) = head_cell s d"
    and "(x, c) \<in> set (zip (label_cells cs (rail_from s d) (rail_to s d) label) label) \<Longrightarrow> r' ! nat x = Ch c"
proof -
  let ?a = "rail_from s d" and ?b = "rail_to s d"
  let ?ls = "zip (label_cells cs ?a ?b label) label"
  note cs = columns_okD(1)[OF ok s] columns_okD(1)[OF ok d] columns_okD(2)[OF ok s d]
  obtain r1 where r1: "r' = write_cells ?ls (r1[nat (head_pos s d) := head_cell s d])" "length r1 = length r"
      "\<forall>k < length r. r1 ! k = (if ?a \<le> int k \<and> int k < ?b \<and> int k \<notin> set cs then Rail else r ! k)"
    using draw_arrow_cells[OF ok s d, of label] res by auto
  show len: "length r' = length r" by (simp add: r1(1,2))
  have ls: "?a \<le> x \<and> x < ?b \<and> x \<notin> set cs" if "(x, c) \<in> set ?ls" for x c
    using label_cells_range set_zip_leftD[OF that] by blast
  have pos: "0 \<le> x \<and> x < int (length r)" if "(x, c) \<in> set ?ls" for x c
    using ls[OF that] cs by (auto simp: rail_from_def rail_to_def)
  have hd_pos: "18 \<le> head_pos s d" "head_pos s d < int (length r)" "head_pos s d < ?a \<or> ?b \<le> head_pos s d"
    using cs by (auto simp: head_pos_def rail_from_def rail_to_def)
  have hd_col: "head_pos s d \<notin> set cs"
  proof
    assume h: "head_pos s d \<in> set cs"
    show False using columns_okD(2)[OF ok h d] by (cases "s < d") (simp_all add: head_pos_def)
  qed
  show "r' ! k = r ! k" if k: "k < length r" "int k < 17 \<or> int k \<in> set cs"
  proof -
    have "\<forall>(x, c) \<in> set ?ls. nat x \<noteq> k" using ls pos k(2) cs by (fastforce simp: rail_from_def)
    moreover have "nat (head_pos s d) \<noteq> k" using hd_pos(1) hd_col k(2) by auto
    moreover have "r1 ! k = r ! k" using r1(3) k cs by (auto simp: rail_from_def)
    ultimately show ?thesis by (simp add: r1(1) write_cells_other)
  qed
  show "r' ! nat (head_pos s d) = head_cell s d"
  proof -
    have "\<forall>(x, c) \<in> set ?ls. nat x \<noteq> nat (head_pos s d)" using ls pos hd_pos by fastforce
    then show ?thesis using hd_pos(1,2) by (simp add: r1(1,2) write_cells_other)
  qed
  show "r' ! nat x = Ch c" if "(x, c) \<in> set ?ls"
    unfolding r1(1) using that pos r1(2) distinct_label_cells
    by (intro write_cells_nth) (auto simp: map_fst_zip_take)
qed

section \<open>Geometry\<close>

lemma index_of_nth: "index_of xs x = Inr i \<Longrightarrow> i < length xs \<and> xs ! i = x"
  by (induction xs arbitrary: i) (auto split: if_splits)

lemma index_of_member: "x \<in> set xs \<Longrightarrow> \<exists>i. index_of xs x = Inr i"
  by (induction xs) auto

lemma set_centers:
  "c \<in> set (column_centers n col gap) \<longleftrightarrow> (\<exists>i < n. c = int ts_width + int i * (col + gap) + col div 2)"
  by (auto simp: column_centers_def)

lemma columns_ok_centers:
  assumes "3 \<le> col" and "0 \<le> gap"
  shows "columns_ok (column_centers n col gap) (total_width n col gap)"
  unfolding columns_ok_def
proof (intro ballI conjI)
  fix c c'
  assume "c \<in> set (column_centers n col gap)" "c' \<in> set (column_centers n col gap)"
  then obtain i j where i: "i < n" "c = 16 + int i * (col + gap) + col div 2" and j: "c' = 16 + int j * (col + gap) + col div 2"
    by (auto simp: set_centers ts_width_def)
  have half: "1 \<le> col div 2" "col div 2 + 1 < col" using assms(1) by linarith+
  have "0 \<le> int i * (col + gap)" using assms by simp
  with half(1) i(2) show "17 \<le> c" by linarith
  have "(int n - 1 - int i) * (col + gap) \<ge> 0" using i(1) assms by (intro mult_nonneg_nonneg) auto
  then have "int i * (col + gap) \<le> (int n - 1) * (col + gap)" by (simp add: algebra_simps)
  moreover have "total_width n col gap = 16 + (int n - 1) * (col + gap) + col"
    by (simp add: total_width_def ts_width_def algebra_simps)
  ultimately show "c + 1 < total_width n col gap" using half(2) i(2) by linarith
  show "c = c' \<or> 3 \<le> \<bar>c - c'\<bar>"
  proof (cases "i = j")
    case False
    have "\<bar>c - c'\<bar> = \<bar>int i - int j\<bar> * \<bar>col + gap\<bar>" unfolding i(2) j by (simp add: abs_mult[symmetric] algebra_simps)
    moreover have "1 * 3 \<le> \<bar>int i - int j\<bar> * \<bar>col + gap\<bar>" using False assms by (intro mult_mono) auto
    ultimately show ?thesis by simp
  qed (simp add: i j)
qed

text \<open>A blank row: all lifelines drawn, nothing else.\<close>

lemma lifeline_template_cells:
  assumes "3 \<le> col" and "0 \<le> gap"
  shows "\<exists>r. lifeline_template n col gap = Inr r \<and> length r = nat (total_width n col gap) \<and>
    (\<forall>c \<in> set (column_centers n col gap). r ! nat c = Lifeline)"
proof -
  let ?r = "replicate (nat (total_width n col gap)) (Ch CHR '' '')"
  note ok = columns_okD(1)[OF columns_ok_centers[OF assms, of n]]
  have "\<forall>x \<in> set (column_centers n col gap). 0 \<le> x \<and> x < int (length ?r)" using ok by fastforce
  from fold_set_items[OF this, of "\<lambda>_. False" Lifeline]
  obtain r where "lifeline_template n col gap = Inr r" "length r = length ?r"
      "\<forall>k < length ?r. r ! k = (if int k \<in> set (column_centers n col gap) then Lifeline else ?r ! k)"
    by (auto simp: lifeline_template_def)
  then show ?thesis using ok by (intro exI[of _ r]) (fastforce simp: nat_less_iff)
qed

text \<open>What a row shows for a message of the ladder.\<close>

definition shows_row :: "string list \<Rightarrow> int \<Rightarrow> int \<Rightarrow> string \<Rightarrow> string \<Rightarrow> string \<Rightarrow> string \<Rightarrow> row \<Rightarrow> bool" where
  "shows_row ps col gap ts src dst label r =
     (length r = nat (total_width (length ps) col gap) \<and>
      take ts_width r = map Ch (ljust ts_width (take ts_width ts)) \<and>
      (\<forall>c \<in> set (column_centers (length ps) col gap). r ! nat c = Lifeline) \<and>
      (\<exists>s d. index_of ps src = Inr s \<and> index_of ps dst = Inr d \<and>
         (let cs = column_centers (length ps) col gap in
          r ! nat (head_pos (cs ! s) (cs ! d)) = head_cell (cs ! s) (cs ! d) \<and>
          (\<forall>(x, c) \<in> set (zip (label_cells cs (rail_from (cs ! s) (cs ! d)) (rail_to (cs ! s) (cs ! d)) label) label).
             r ! nat x = Ch c))))"

lemma length_ljust: "length (ljust n (take n s)) = n"
  by (simp add: ljust_def)

lemma arrow_on_template:
  assumes geo: "3 \<le> col" "0 \<le> gap" and tmpl: "lifeline_template (length ps) col gap = Inr tmpl"
    and src: "index_of ps src = Inr s" and dst: "index_of ps dst = Inr d"
  defines "cs \<equiv> column_centers (length ps) col gap"
  shows "\<exists>r. draw_arrow cs (cs ! s) (cs ! d) label (put_timestamp ts tmpl) = Inr r \<and> shows_row ps col gap ts src dst label r"
proof -
  obtain t where "lifeline_template (length ps) col gap = Inr t" "length t = nat (total_width (length ps) col gap)"
      "\<forall>c \<in> set cs. t ! nat c = Lifeline" using lifeline_template_cells[OF geo, of "length ps"] by (auto simp: cs_def)
  then have t: "length tmpl = nat (total_width (length ps) col gap)" "\<forall>c \<in> set cs. tmpl ! nat c = Lifeline"
    using tmpl by auto
  have ok: "columns_ok cs (total_width (length ps) col gap)" unfolding cs_def by (rule columns_ok_centers[OF geo])
  have s: "cs ! s \<in> set cs" "cs ! d \<in> set cs" using index_of_nth[OF src] index_of_nth[OF dst] by (auto intro!: nth_mem simp: cs_def column_centers_def)
  have w: "18 < total_width (length ps) col gap" using columns_okD(1)[OF ok s(1)] by linarith
  define r0 where "r0 = put_timestamp ts tmpl"
  have len: "length r0 = nat (total_width (length ps) col gap)" using t(1) w by (simp add: r0_def put_timestamp_def length_ljust ts_width_def)
  have ts: "take ts_width r0 = map Ch (ljust ts_width (take ts_width ts))"
    by (simp add: r0_def put_timestamp_def length_ljust)
  have life: "r0 ! nat c = Lifeline" if "c \<in> set cs" for c
  proof -
    have "16 \<le> nat c" "16 \<le> length tmpl" using columns_okD(1)[OF ok that] t(1) by auto
    with t(2) that show ?thesis by (simp add: r0_def put_timestamp_def length_ljust nth_append ts_width_def)
  qed
  have ok': "columns_ok cs (int (length r0))" using ok len w by simp
  obtain r where r: "draw_arrow cs (cs ! s) (cs ! d) label r0 = Inr r" using draw_arrow_cells[OF ok' s, of label] by blast
  note f = draw_arrow_row[OF ok' s r]
  have "take ts_width r = take ts_width r0" using len w by (intro nth_equalityI) (auto simp: f(1,2) ts_width_def)
  moreover have "r ! nat c = r0 ! nat c" if "c \<in> set cs" for c
    using columns_okD(1)[OF ok' that] that by (intro f(2)) auto
  ultimately have "shows_row ps col gap ts src dst label r"
    using f(1,3,4) len ts life src dst by (auto simp: shows_row_def cs_def[symmetric] Let_def)
  with r show ?thesis by (auto simp: r0_def)
qed

lemma participants_grow: "set ps \<subseteq> set (fold (\<lambda>m ps. add_participant (lm_dest m) (add_participant (lm_source m) ps)) ms ps)"
  by (induction ms arbitrary: ps) (fastforce simp: add_participant_def)+

lemma participants_complete:
  "m \<in> set ms \<Longrightarrow> lm_source m \<in> set (participants_of ms) \<and> lm_dest m \<in> set (participants_of ms)"
proof -
  have "lm_source m \<in> set (fold (\<lambda>m ps. add_participant (lm_dest m) (add_participant (lm_source m) ps)) ms ps) \<and>
     lm_dest m \<in> set (fold (\<lambda>m ps. add_participant (lm_dest m) (add_participant (lm_source m) ps)) ms ps)" if "m \<in> set ms" for ps
    using that
  proof (induction ms arbitrary: ps)
    case (Cons a ms)
    then show ?case using participants_grow[of "add_participant (lm_dest a) (add_participant (lm_source a) ps)" ms]
      by (auto simp: add_participant_def split: if_splits)
  qed simp
  then show "m \<in> set ms \<Longrightarrow> lm_source m \<in> set (participants_of ms) \<and> lm_dest m \<in> set (participants_of ms)"
    by (simp add: participants_of_def)
qed

lemma mapM_res_total:
  "(\<And>x. x \<in> set xs \<Longrightarrow> \<exists>y. f x = Inr y \<and> P x y) \<Longrightarrow> \<exists>ys. mapM_res f xs = Inr ys \<and> list_all2 P xs ys"
proof (induction xs)
  case (Cons x xs)
  obtain ys where "mapM_res f xs = Inr ys" "list_all2 P xs ys" using Cons by force
  moreover obtain y where "f x = Inr y" "P x y" using Cons.prems[of x] by auto
  ultimately show ?case by auto
qed simp

lemma ladder_total:
  assumes "3 \<le> col" and "0 \<le> gap"
  shows "\<exists>rows. render_sip_ladder ms col gap = Inr (header_text (participants_of ms) col gap, rows) \<and>
    list_all2 (\<lambda>m (r, color, _). color = color_for (lm_method m) \<and>
      shows_row (participants_of ms) col gap (or_str (lm_timestamp m) []) (lm_source m) (lm_dest m) (message_label m) r) ms rows"
proof -
  let ?ps = "participants_of ms"
  from lifeline_template_cells[OF assms, of "length ?ps"]
  obtain t where t: "lifeline_template (length ?ps) col gap = Inr t" by (elim exE conjE)
  let ?P = "\<lambda>m (r, color, _). color = color_for (lm_method m) \<and>
      shows_row ?ps col gap (or_str (lm_timestamp m) []) (lm_source m) (lm_dest m) (message_label m) r"
  have "\<exists>y. ladder_row ?ps col gap t m = Inr y \<and> ?P m y" if m: "m \<in> set ms" for m
  proof -
    obtain s d where sd: "index_of ?ps (lm_source m) = Inr s" "index_of ?ps (lm_dest m) = Inr d"
      using participants_complete[OF m] index_of_member[of "lm_source m" ?ps] index_of_member[of "lm_dest m" ?ps] by auto
    from arrow_on_template[OF assms t sd, of "message_label m" "or_str (lm_timestamp m) []"] sd show ?thesis
      by (auto simp: ladder_row_def arrow_style_def Let_def)
  qed
  from mapM_res_total[of ms "ladder_row ?ps col gap t" ?P, OF this] t show ?thesis
    by (auto simp: render_sip_ladder_def Let_def)
qed

lemma demo_drawn:
  "\<exists>rows. ladder_demo = Inr (header_text [''10.10.1.142:5061'', ''10.10.9.40:5060'', ''10.10.1.245:5063''] 23 8, rows) \<and> length rows = 11"
proof -
  have "participants_of demo_msgs = [''10.10.1.142:5061'', ''10.10.9.40:5060'', ''10.10.1.245:5063'']" "length demo_msgs = 11"
    by code_simp+
  with ladder_total[of 23 8 demo_msgs] show ?thesis by (fastforce simp: ladder_demo_def dest: list_all2_lengthD)
qed

section \<open>Properties\<close>

text \<open>C26. With columns of at least three cells every ladder is drawn without an error, and each row has the
  full width, begins with the time of its message, keeps every lifeline uncut, has the arrow head next to
  the column of the receiver, pointing at it, and shows the characters of the label one after the other in the
  free cells of the arrow, in the middle.\<close>

theorem ladder_drawn:
  assumes "3 \<le> col" and "0 \<le> gap"
  shows "\<exists>rows. render_sip_ladder ms col gap = Inr (header_text (participants_of ms) col gap, rows) \<and>
    list_all2 (\<lambda>m (r, color, _). color = color_for (lm_method m) \<and>
      shows_row (participants_of ms) col gap (or_str (lm_timestamp m) []) (lm_source m) (lm_dest m) (message_label m) r) ms rows"
  using assms by (rule ladder_total)

theorem ladder_drawn_witness:
  "\<exists>rows. render_sip_ladder [\<lparr>lm_timestamp = None, lm_source = ''a'', lm_dest = ''b'', lm_method = ''BYE'', lm_status = None\<rparr>] 23 6 =
     Inr (header_text [''a'', ''b''] 23 6, rows)"
  using ladder_drawn[of 23 6 "[\<lparr>lm_timestamp = None, lm_source = ''a'', lm_dest = ''b'', lm_method = ''BYE'', lm_status = None\<rparr>]"]
  by (auto simp: participants_of_def add_participant_def)

end
