(* ===== verification/Sip_Message.thy ===== *)
theory Sip_Message
  imports Sdp_Session Py_Regex
begin

text \<open>
  SIP messages (\<open>message.py\<close>): URIs, headers, bodies and messages with their constructors, header
  operations, validation, the printer and the parser. The facts cover the round trip between printer
  and parser, the header table, what a response takes over from its request, and what validation
  accepts.
\<close>

section \<open>Methods and URIs\<close>

datatype SIPMethod = INVITE | ACK | OPTIONS | BYE | CANCEL | REGISTER | INFO | MESSAGE

fun method_value :: "SIPMethod \<Rightarrow> string" where
  "method_value INVITE = ''INVITE''"
| "method_value ACK = ''ACK''"
| "method_value OPTIONS = ''OPTIONS''"
| "method_value BYE = ''BYE''"
| "method_value CANCEL = ''CANCEL''"
| "method_value REGISTER = ''REGISTER''"
| "method_value INFO = ''INFO''"
| "method_value MESSAGE = ''MESSAGE''"

definition method_of :: "string \<Rightarrow> SIPMethod res" where
  "method_of s =
     raise_if_none ValueError
       (find (\<lambda>m. method_value m = s) [INVITE, ACK, OPTIONS, BYE, CANCEL, REGISTER, INFO, MESSAGE])"

text \<open>\<open>urllib.parse.unquote\<close>: percent escapes of each run of ASCII characters, read as UTF-8.\<close>

definition hex_val :: "char \<Rightarrow> nat option" where
  "hex_val c =
     (let n = code c in
      if 48 \<le> n \<and> n \<le> 57 then Some (n - 48)
      else if 65 \<le> n \<and> n \<le> 70 then Some (n - 55)
      else if 97 \<le> n \<and> n \<le> 102 then Some (n - 87)
      else None)"

fun unquote_bytes :: "string \<Rightarrow> byte list" where
  "unquote_bytes (CHR ''%'' # a # b # s) =
     (case (hex_val a, hex_val b) of
        (Some x, Some y) \<Rightarrow> (16 * x + y) # unquote_bytes s
      | _ \<Rightarrow> code CHR ''%'' # unquote_bytes (a # b # s))"
| "unquote_bytes (c # s) = code c # unquote_bytes s"
| "unquote_bytes [] = []"

fun unquote_from :: "string \<Rightarrow> string \<Rightarrow> string" where
  "unquote_from acc [] = utf8_decode_replace (unquote_bytes (rev acc))"
| "unquote_from acc (c # s) =
     (if code c < 128 then unquote_from (c # acc) s
      else utf8_decode_replace (unquote_bytes (rev acc)) @ c # unquote_from [] s)"

definition unquote :: "string \<Rightarrow> string" where
  "unquote s = unquote_from [] s"

text \<open>A URI parameter has a value or is a flag.\<close>

datatype uri_param = PValue string | PTrue

record SIPURI =
  raw_uri :: string
  scheme :: string
  user :: "string option"
  password :: "string option"
  host :: string
  uri_port :: "int option"
  parameters :: "(string, uri_param) dict"
  uri_headers :: "(string, string) dict"

definition blank_uri :: "string \<Rightarrow> SIPURI" where
  "blank_uri raw = \<lparr>raw_uri = raw, scheme = ''sip'', user = None, password = None, host = [], uri_port = None,
     parameters = [], uri_headers = []\<rparr>"

definition uri_header_items :: "string \<Rightarrow> (string, string) dict" where
  "uri_header_items part =
     fold (\<lambda>h d. case partition_at ''='' h of None \<Rightarrow> d | Some (k, v) \<Rightarrow> dict_set k (unquote v) d)
       (split_on ''&'' part) []"

definition uri_param_items :: "string \<Rightarrow> (string, uri_param) dict" where
  "uri_param_items part =
     fold (\<lambda>p d. case partition_at ''='' p of None \<Rightarrow> dict_set p PTrue d | Some (k, v) \<Rightarrow> dict_set k (PValue v) d)
       (split_on '';'' part) []"

definition parse_host_port :: "string \<Rightarrow> SIPURI \<Rightarrow> SIPURI" where
  "parse_host_port hp u =
     (case rpartition_char (CHR '':'') hp of
        Some (h, p) \<Rightarrow>
          if starts_with hp ''['' then u\<lparr>host := hp\<rparr>
          else (case int_of_str p of
              Some n \<Rightarrow> u\<lparr>host := h, uri_port := Some n\<rparr>
            | None \<Rightarrow> u\<lparr>host := hp\<rparr>)
      | None \<Rightarrow> u\<lparr>host := hp\<rparr>)"

definition parse_user_host :: "string \<Rightarrow> SIPURI \<Rightarrow> SIPURI" where
  "parse_user_host rest u =
     (case rpartition_char (CHR ''@'') rest of
        Some (up, hp) \<Rightarrow>
          parse_host_port hp
            (case partition_at '':'' up of
               Some (a, b) \<Rightarrow> u\<lparr>user := Some a, password := Some b\<rparr>
             | None \<Rightarrow> u\<lparr>user := Some up\<rparr>)
      | None \<Rightarrow> parse_host_port rest u)"

definition parse_uri :: "string \<Rightarrow> SIPURI" where
  "parse_uri text =
     (let raw = strip text; u0 = blank_uri raw in
      if raw = [] then u0
      else case partition_at '':'' raw of
        None \<Rightarrow> u0
      | Some (sch, rest0) \<Rightarrow>
          let u1 = u0\<lparr>scheme := lower sch\<rparr>;
              (rest1, u2) = (case partition_at ''?'' rest0 of
                 Some (r, hp) \<Rightarrow> (r, u1\<lparr>uri_headers := uri_header_items hp\<rparr>) | None \<Rightarrow> (rest0, u1));
              (rest2, u3) = (case partition_at '';'' rest1 of
                 Some (r, pp) \<Rightarrow> (r, u2\<lparr>parameters := uri_param_items pp\<rparr>) | None \<Rightarrow> (rest1, u2))
          in parse_user_host rest2 u3)"

definition is_secure :: "SIPURI \<Rightarrow> bool" where
  "is_secure u = (scheme u = ''sips'')"

section \<open>Headers\<close>

record SIPHeader =
  hname :: string
  hvalue :: string

definition new_header :: "string \<Rightarrow> string \<Rightarrow> SIPHeader" where
  "new_header n v = \<lparr>hname = strip n, hvalue = strip v\<rparr>"

definition token_char :: "char \<Rightarrow> bool" where
  "token_char c =
     (let n = code c in
      48 \<le> n \<and> n \<le> 57 \<or> 65 \<le> n \<and> n \<le> 90 \<or> 97 \<le> n \<and> n \<le> 122 \<or> c \<in> set ''!#$%&*+-.^_`|~'' \<or> n = 39)"

definition control_char :: "char \<Rightarrow> bool" where
  "control_char c = (let n = code c in n \<le> 8 \<or> 10 \<le> n \<and> n \<le> 31 \<or> n = 127)"

definition header_validate :: "SIPHeader \<Rightarrow> bool" where
  "header_validate h =
     (if hname h = [] \<or> hvalue h = [] then False
      else if rx_first (RSeq (RRep1 token_char) REnd) (hname h) = None then False
      else if rx_search (RChr control_char) (hvalue h) \<noteq> None then False
      else True)"

definition header_encode :: "SIPHeader \<Rightarrow> string" where
  "header_encode h = hname h @ '': '' @ hvalue h"

section \<open>Bodies\<close>

record SIPBody =
  content :: string
  content_type :: string
  sdp :: "SDPSession option"

datatype body_arg = BStr string | BSdp SDPSession | BBody SIPBody

definition body_of_str :: "string \<Rightarrow> string \<Rightarrow> SIPBody" where
  "body_of_str s ct = \<lparr>content = s, content_type = ct, sdp = None\<rparr>"

definition body_of_sdp :: "SDPSession \<Rightarrow> SIPBody" where
  "body_of_sdp s = \<lparr>content = session_encode s, content_type = ''application/sdp'', sdp = Some s\<rparr>"

fun to_body :: "body_arg \<Rightarrow> string \<Rightarrow> SIPBody" where
  "to_body (BStr s) ct = body_of_str s ct"
| "to_body (BSdp s) ct = body_of_sdp s"
| "to_body (BBody b) ct = b"

definition content_length :: "SIPBody \<Rightarrow> nat" where
  "content_length b = length (utf8_encode (content b))"

definition is_sdp :: "SIPBody \<Rightarrow> bool" where
  "is_sdp b = (content_type b = ''application/sdp'' \<or> sdp b \<noteq> None)"

definition get_sdp :: "int \<Rightarrow> SIPBody \<Rightarrow> SDPSession option" where
  "get_sdp now b =
     (case sdp b of
        Some s \<Rightarrow> Some s
      | None \<Rightarrow>
          if is_sdp b then (case session_parse now (content b) of Inr s \<Rightarrow> Some s | Inl _ \<Rightarrow> None)
          else None)"

definition ascii_letter :: "char \<Rightarrow> bool" where
  "ascii_letter c = (let n = code c in 65 \<le> n \<and> n \<le> 90 \<or> 97 \<le> n \<and> n \<le> 122)"

definition subtype_char :: "char \<Rightarrow> bool" where
  "subtype_char c = (let n = code c in ascii_letter c \<or> 48 \<le> n \<and> n \<le> 57 \<or> c \<in> set ''-+.'')"

definition body_validate :: "int \<Rightarrow> SIPBody \<Rightarrow> bool" where
  "body_validate now b =
     (if rx_first (rx_seq [RRep1 ascii_letter, RChr (\<lambda>c. c = CHR ''/''), RRep1 subtype_char]) (content_type b) = None
      then False
      else if is_sdp b
      then (case get_sdp now b of Some s \<Rightarrow> fst (session_validate s) | None \<Rightarrow> True)
      else True)"

section \<open>Messages\<close>

record SIPMessage =
  headers :: "SIPHeader list"
  body :: "SIPBody option"
  "method" :: "SIPMethod option"
  uri :: "SIPURI option"
  status_code :: "int option"
  reason_phrase :: "string option"

definition sip_version :: string where
  "sip_version = ''SIP/2.0''"

definition new_message :: SIPMessage where
  "new_message = \<lparr>headers = [], body = None, method = None, uri = None, status_code = None, reason_phrase = None\<rparr>"

definition required_headers :: "string list" where
  "required_headers = [''via'', ''from'', ''to'', ''call-id'', ''cseq'', ''max-forwards'']"

definition reason_phrases :: "(int, string) dict" where
  "reason_phrases =
     [(100, ''Trying''), (180, ''Ringing''), (183, ''Session Progress''), (200, ''OK''), (202, ''Accepted''),
      (300, ''Multiple Choices''), (301, ''Moved Permanently''), (302, ''Moved Temporarily''),
      (400, ''Bad Request''), (401, ''Unauthorized''), (403, ''Forbidden''), (404, ''Not Found''),
      (405, ''Method Not Allowed''), (500, ''Internal Server Error''), (501, ''Not Implemented''),
      (502, ''Bad Gateway''), (503, ''Service Unavailable''), (600, ''Busy Everywhere''), (603, ''Decline'')]"

datatype SIPStatusCode =
    SC_TRYING | SC_RINGING | SC_SESSION_PROGRESS | SC_OK | SC_ACCEPTED
  | SC_MULTIPLE_CHOICES | SC_MOVED_PERMANENTLY | SC_BAD_REQUEST | SC_UNAUTHORIZED | SC_FORBIDDEN
  | SC_NOT_FOUND | SC_METHOD_NOT_ALLOWED | SC_INTERNAL_SERVER_ERROR | SC_NOT_IMPLEMENTED | SC_BAD_GATEWAY
  | SC_SERVICE_UNAVAILABLE | SC_BUSY_EVERYWHERE | SC_DECLINE

fun status_value :: "SIPStatusCode \<Rightarrow> int" where
  "status_value SC_TRYING = 100"
| "status_value SC_RINGING = 180"
| "status_value SC_SESSION_PROGRESS = 183"
| "status_value SC_OK = 200"
| "status_value SC_ACCEPTED = 202"
| "status_value SC_MULTIPLE_CHOICES = 300"
| "status_value SC_MOVED_PERMANENTLY = 301"
| "status_value SC_BAD_REQUEST = 400"
| "status_value SC_UNAUTHORIZED = 401"
| "status_value SC_FORBIDDEN = 403"
| "status_value SC_NOT_FOUND = 404"
| "status_value SC_METHOD_NOT_ALLOWED = 405"
| "status_value SC_INTERNAL_SERVER_ERROR = 500"
| "status_value SC_NOT_IMPLEMENTED = 501"
| "status_value SC_BAD_GATEWAY = 502"
| "status_value SC_SERVICE_UNAVAILABLE = 503"
| "status_value SC_BUSY_EVERYWHERE = 600"
| "status_value SC_DECLINE = 603"

definition is_request :: "SIPMessage \<Rightarrow> bool" where
  "is_request m = (method m \<noteq> None)"

definition is_response :: "SIPMessage \<Rightarrow> bool" where
  "is_response m = (status_code m \<noteq> None)"

definition add_header :: "string \<Rightarrow> string \<Rightarrow> SIPMessage \<Rightarrow> SIPMessage" where
  "add_header n v m = m\<lparr>headers := headers m @ [new_header n v]\<rparr>"

fun header_lookup :: "string \<Rightarrow> SIPHeader list \<Rightarrow> string option" where
  "header_lookup n [] = None"
| "header_lookup n (h # hs) = (if lower (hname h) = n then Some (hvalue h) else header_lookup n hs)"

definition get_header :: "SIPMessage \<Rightarrow> string \<Rightarrow> string option" where
  "get_header m n = header_lookup (lower n) (headers m)"

text \<open>The loop of \<open>set_header\<close>: the first header with the name gets the value; None if there is none.\<close>

fun header_update :: "string \<Rightarrow> string \<Rightarrow> SIPHeader list \<Rightarrow> SIPHeader list option" where
  "header_update n v [] = None"
| "header_update n v (h # hs) =
     (if lower (hname h) = n then Some (h\<lparr>hvalue := v\<rparr> # hs)
      else map_option ((#) h) (header_update n v hs))"

definition set_header :: "string \<Rightarrow> string \<Rightarrow> SIPMessage \<Rightarrow> SIPMessage" where
  "set_header n v m =
     (case header_update (lower n) v (headers m) of
        Some hs \<Rightarrow> m\<lparr>headers := hs\<rparr>
      | None \<Rightarrow> add_header n v m)"

definition remove_header :: "string \<Rightarrow> SIPMessage \<Rightarrow> SIPMessage" where
  "remove_header n m = m\<lparr>headers := filter (\<lambda>h. lower (hname h) \<noteq> lower n) (headers m)\<rparr>"

definition set_body :: "body_arg \<Rightarrow> string \<Rightarrow> SIPMessage \<Rightarrow> SIPMessage" where
  "set_body arg ct m =
     (let b = to_body arg ct in
      set_header ''Content-Length'' (nat_str (content_length b))
        (set_header ''Content-Type'' (content_type b) (m\<lparr>body := Some b\<rparr>)))"

text \<open>\<open>if body:\<close> is false for a missing body and for the empty string.\<close>

definition attach_body :: "body_arg option \<Rightarrow> SIPMessage \<Rightarrow> SIPMessage" where
  "attach_body arg m =
     (case arg of
        None \<Rightarrow> m
      | Some (BStr []) \<Rightarrow> m
      | Some a \<Rightarrow> m\<lparr>body := Some (to_body a ''text/plain'')\<rparr>)"

definition create_request ::
  "SIPMethod \<Rightarrow> string \<Rightarrow> (string, string) dict \<Rightarrow> body_arg option \<Rightarrow> SIPMessage" where
  "create_request meth u extra arg =
     attach_body arg
       (fold (\<lambda>(n, v) m. add_header n v m) extra
         (new_message\<lparr>method := Some meth, uri := Some (parse_uri u)\<rparr>))"

text \<open>
  What a response copies from its request. The first argument is the object identity used as the tag of
  a \<open>To\<close> header that has none.
\<close>

definition copy_header :: "SIPMessage \<Rightarrow> string \<Rightarrow> string \<Rightarrow> SIPMessage \<Rightarrow> SIPMessage" where
  "copy_header request src dst m =
     (let v = get_header request src in if truthy_str v then add_header dst (the v) m else m)"

definition to_with_tag :: "int \<Rightarrow> string \<Rightarrow> string" where
  "to_with_tag ident v = (if contains '';tag='' (lower v) then v else v @ '';tag='' @ int_str ident)"

definition copy_to :: "int \<Rightarrow> SIPMessage \<Rightarrow> SIPMessage \<Rightarrow> SIPMessage" where
  "copy_to ident request m =
     (let v = get_header request ''to'' in
      if truthy_str v then add_header ''To'' (to_with_tag ident (the v)) m else m)"

definition create_response ::
  "int \<Rightarrow> int \<Rightarrow> string option \<Rightarrow> SIPMessage option \<Rightarrow> (string, string) dict \<Rightarrow> body_arg option \<Rightarrow> SIPMessage" where
  "create_response ident status reason request extra arg =
     (let m0 = new_message\<lparr>status_code := Some status,
            reason_phrase := Some (or_str reason
              (case dict_get reason_phrases status of Some p \<Rightarrow> p | None \<Rightarrow> ''Unknown''))\<rparr>;
          m1 = (case request of
             Some req \<Rightarrow>
               if is_request req
               then copy_to ident req (copy_header req ''via'' ''Via''
                 (copy_header req ''from'' ''From'' (copy_header req ''cseq'' ''Cseq''
                   (copy_header req ''call-id'' ''Call-Id'' m0))))
               else m0
           | None \<Rightarrow> m0)
      in attach_body arg (fold (\<lambda>(n, v) m. set_header n v m) extra m1))"

lemma status_value_phrase: "\<exists>p. dict_get reason_phrases (status_value c) = Some p \<and> p \<noteq> []"
  by (cases c) (simp_all add: reason_phrases_def)

section \<open>Printing\<close>

definition show_opt :: "('a \<Rightarrow> string) \<Rightarrow> 'a option \<Rightarrow> string" where
  "show_opt f x = (case x of None \<Rightarrow> ''None'' | Some y \<Rightarrow> f y)"

definition start_line :: "SIPMessage \<Rightarrow> string" where
  "start_line m =
     (case method m of
        Some meth \<Rightarrow> method_value meth @ '' '' @ show_opt raw_uri (uri m) @ '' '' @ sip_version
      | None \<Rightarrow> sip_version @ '' '' @ show_opt int_str (status_code m) @ '' '' @ show_opt id (reason_phrase m))"

definition message_lines :: "SIPMessage \<Rightarrow> string list" where
  "message_lines m =
     [start_line m] @ map header_encode (headers m)
     @ (case body m of
          Some b \<Rightarrow>
            if truthy_str (get_header m ''content-length'') then []
            else [''Content-Length: '' @ nat_str (content_length b)]
        | None \<Rightarrow> [])
     @ ['''']
     @ (case body m of Some b \<Rightarrow> [content b] | None \<Rightarrow> [])"

definition message_str :: "SIPMessage \<Rightarrow> string" where
  "message_str m = join CRLF (message_lines m)"

definition message_encode :: "SIPMessage \<Rightarrow> byte list" where
  "message_encode m = utf8_encode (message_str m)"

section \<open>Parsing\<close>

text \<open>The header loop: the headers read, and the lines behind the first blank line if there is one.\<close>

fun parse_header_lines :: "string list \<Rightarrow> SIPHeader list \<times> string list option" where
  "parse_header_lines [] = ([], None)"
| "parse_header_lines (l # ls) =
     (if strip l = [] then ([], Some ls)
      else let (hs, rest) = parse_header_lines ls in
        case partition_at '':'' l of
          Some (n, v) \<Rightarrow> (new_header (strip n) (strip v) # hs, rest)
        | None \<Rightarrow> (hs, rest))"

definition parse_start_line :: "string \<Rightarrow> SIPMessage \<Rightarrow> SIPMessage res" where
  "parse_start_line l m =
     (if starts_with l ''SIP/''
      then (case split_max 2 '' '' l of
          p0 # p1 # ps \<Rightarrow>
            map_res (\<lambda>n. m\<lparr>status_code := Some n, reason_phrase := Some (case ps of [] \<Rightarrow> [] | p2 # _ \<Rightarrow> p2)\<rparr>)
              (parse_int p1)
        | _ \<Rightarrow> Inr m)
      else (case split_max 2 '' '' l of
          p0 # p1 # ps \<Rightarrow> map_res (\<lambda>meth. m\<lparr>method := Some meth, uri := Some (parse_uri p1)\<rparr>) (method_of p0)
        | _ \<Rightarrow> Inr m))"

definition parse_body :: "string list option \<Rightarrow> SIPMessage \<Rightarrow> SIPMessage" where
  "parse_body rest m =
     (case rest of
        None \<Rightarrow> m
      | Some [] \<Rightarrow> m
      | Some ls \<Rightarrow>
          let text = join CRLF ls in
          if strip text = [] then m
          else m\<lparr>body := Some (body_of_str text
            (case header_lookup ''content-type'' (headers m) of Some ct \<Rightarrow> ct | None \<Rightarrow> ''text/plain''))\<rparr>)"

definition message_parse :: "string \<Rightarrow> SIPMessage res" where
  "message_parse text =
     (case split_on CRLF (strip text) of
        [] \<Rightarrow> Inl ValueError
      | l # ls \<Rightarrow>
          map_res (\<lambda>m. let (hs, rest) = parse_header_lines ls in parse_body rest (m\<lparr>headers := hs\<rparr>))
            (parse_start_line (strip l) new_message))"

section \<open>Validation\<close>

datatype message_problem =
    NoKind
  | MissingHeader string
  | BadHeader string
  | BadBody
  | NoHost

definition message_validate :: "int \<Rightarrow> SIPMessage \<Rightarrow> bool \<times> message_problem list" where
  "message_validate now m =
     (let errors =
        (if method m = None \<and> \<not> truthy_int (status_code m) then [NoKind] else [])
        @ (if method m \<noteq> None
           then map MissingHeader
             (filter (\<lambda>r. r \<notin> set (map (\<lambda>h. lower (hname h)) (headers m))) required_headers) else [])
        @ map (\<lambda>h. BadHeader (hname h)) (filter (\<lambda>h. \<not> header_validate h) (headers m))
        @ (case body m of Some b \<Rightarrow> if body_validate now b then [] else [BadBody] | None \<Rightarrow> [])
        @ (if method m \<noteq> None \<and> (case uri m of Some u \<Rightarrow> host u = [] | None \<Rightarrow> False) then [NoHost] else [])
      in (errors = [], errors))"

section \<open>The header table\<close>

lemma header_update_None: "header_update n v hs = None \<longleftrightarrow> header_lookup n hs = None"
  by (induction hs) auto

lemma header_update_Some:
  "header_update n v hs = Some hs' \<Longrightarrow>
   header_lookup k hs' = (if k = n then Some v else header_lookup k hs) \<and> map hname hs' = map hname hs"
proof (induction hs arbitrary: hs')
  case (Cons h hs)
  then show ?case by (cases "lower (hname h) = n") auto
qed simp

lemma header_lookup_append:
  "header_lookup n (hs @ ks) = (case header_lookup n hs of Some v \<Rightarrow> Some v | None \<Rightarrow> header_lookup n ks)"
  by (induction hs) auto

lemma header_lookup_filter:
  "header_lookup k (filter (\<lambda>h. lower (hname h) \<noteq> n) hs) = (if k = n then None else header_lookup k hs)"
  by (induction hs) auto

lemma get_header_set:
  assumes "stripped n"
  shows "get_header (set_header n v m) k =
     (if lower k = lower n then Some (if get_header m n = None then strip v else v) else get_header m k)"
proof (cases "header_update (lower n) v (headers m)")
  case None
  then show ?thesis
    using assms header_update_None[of "lower n" v "headers m"]
    by (auto simp: set_header_def add_header_def get_header_def new_header_def header_lookup_append strip_id
        split: option.split)
next
  case (Some hs)
  with header_update_None[of "lower n" v "headers m"] header_update_Some[OF Some] show ?thesis
    by (auto simp: set_header_def get_header_def)
qed

lemma set_header_frame [simp]:
  "method (set_header n v m) = method m" "uri (set_header n v m) = uri m" "body (set_header n v m) = body m"
  "status_code (set_header n v m) = status_code m" "reason_phrase (set_header n v m) = reason_phrase m"
  by (simp_all add: set_header_def add_header_def split: option.split)

lemma get_header_add:
  "get_header (add_header n v m) k =
     (case get_header m k of Some x \<Rightarrow> Some x
      | None \<Rightarrow> if lower (strip n) = lower k then Some (strip v) else None)"
  by (simp add: get_header_def add_header_def header_lookup_append new_header_def split: option.split)

lemma get_header_remove: "get_header (remove_header n m) k = (if lower k = lower n then None else get_header m k)"
  by (simp add: get_header_def remove_header_def header_lookup_filter)

section \<open>Messages that survive the wire\<close>

definition header_ok :: "SIPHeader \<Rightarrow> bool" where
  "header_ok h =
     (hname h \<noteq> [] \<and> stripped (hname h) \<and> CHR '':'' \<notin> set (hname h) \<and> CR \<notin> set (hname h) \<and>
      hvalue h \<noteq> [] \<and> stripped (hvalue h) \<and> CR \<notin> set (hvalue h))"

definition start_ok :: "SIPMessage \<Rightarrow> bool" where
  "start_ok m =
     (case method m of
        Some _ \<Rightarrow>
          (case uri m of Some u \<Rightarrow> word_ok (raw_uri u) \<and> u = parse_uri (raw_uri u) | None \<Rightarrow> False) \<and>
          status_code m = None \<and> reason_phrase m = None
      | None \<Rightarrow>
          uri m = None \<and> status_code m \<noteq> None \<and>
          (case reason_phrase m of Some r \<Rightarrow> r \<noteq> [] \<and> rstripped r \<and> CR \<notin> set r | None \<Rightarrow> False))"

definition message_ok :: "SIPMessage \<Rightarrow> bool" where
  "message_ok m =
     (start_ok m \<and> list_all header_ok (headers m) \<and>
      (case body m of Some b \<Rightarrow> content b \<noteq> [] \<and> rstripped (content b) | None \<Rightarrow> True))"

text \<open>The headers that go out, and the message the other side reads.\<close>

definition wire_headers :: "SIPMessage \<Rightarrow> SIPHeader list" where
  "wire_headers m =
     headers m @
     (case body m of
        Some b \<Rightarrow>
          if truthy_str (get_header m ''content-length'') then []
          else [\<lparr>hname = ''Content-Length'', hvalue = nat_str (content_length b)\<rparr>]
      | None \<Rightarrow> [])"

definition received :: "SIPMessage \<Rightarrow> SIPMessage" where
  "received m =
     m\<lparr>headers := wire_headers m,
       body := map_option (\<lambda>b. body_of_str (content b)
         (case header_lookup ''content-type'' (wire_headers m) of Some ct \<Rightarrow> ct | None \<Rightarrow> ''text/plain'')) (body m)\<rparr>"

definition wire_line :: "string \<Rightarrow> bool" where
  "wire_line l = (l \<noteq> [] \<and> stripped l \<and> CR \<notin> set l)"

lemma wire_headers_ok:
  assumes "list_all header_ok (headers m)"
  shows "list_all header_ok (wire_headers m)"
proof -
  have "stripped ''Content-Length''" by (simp add: stripped_def char_class_defs)
  moreover have "CR \<notin> set (nat_str n)" for n
    using word_ok_no_space[OF int_str_word[of "int n"]] by (simp add: int_str_nat)
  ultimately have "header_ok \<lparr>hname = ''Content-Length'', hvalue = nat_str n\<rparr>" for n
    by (simp add: header_ok_def nat_str_stripped)
  with assms show ?thesis by (simp add: wire_headers_def split: option.split)
qed

lemma header_line:
  assumes "header_ok h"
  shows "wire_line (header_encode h)"
  using assms by (auto simp: header_ok_def wire_line_def header_encode_def stripped_def char_class_defs)

lemma parse_header_line:
  assumes "header_ok h"
  shows "partition_at '':'' (header_encode h) = Some (hname h, CHR '' '' # hvalue h)"
    and "new_header (strip (hname h)) (strip (CHR '' '' # hvalue h)) = h"
  using assms by (auto simp: header_ok_def header_encode_def new_header_def partition_at_char strip_id strip_lead_space)

lemma parse_header_lines_encode:
  "list_all header_ok hs \<Longrightarrow>
   parse_header_lines (map header_encode hs @ ls) = (hs @ fst (parse_header_lines ls), snd (parse_header_lines ls))"
proof (induction hs)
  case (Cons h hs)
  have "strip (header_encode h) \<noteq> []"
    using header_line[of h] Cons.prems by (simp add: wire_line_def strip_id)
  with Cons parse_header_line[of h] show ?case by (simp add: split_beta)
qed simp

lemma method_roundtrip [simp]: "method_of (method_value meth) = Inr meth"
  by (cases meth) (simp_all add: method_of_def)

lemma method_value_word: "word_ok (method_value meth) \<and> \<not> starts_with (method_value meth @ s) ''SIP/''"
  by (cases meth) (simp_all add: word_ok_def char_class_defs)

lemma raw_host_port [simp]: "raw_uri (parse_host_port hp u) = raw_uri u"
  by (simp add: parse_host_port_def split: option.split prod.split)

lemma raw_user_host [simp]: "raw_uri (parse_user_host r u) = raw_uri u"
  by (simp add: parse_user_host_def split: option.split prod.split)

text \<open>The parser after the scheme, as one function.\<close>

definition parse_after_scheme :: "string \<Rightarrow> SIPURI \<Rightarrow> SIPURI" where
  "parse_after_scheme rest0 u1 =
     (let q = (case partition_at ''?'' rest0 of
                 Some (r, hp) \<Rightarrow> (r, u1\<lparr>uri_headers := uri_header_items hp\<rparr>) | None \<Rightarrow> (rest0, u1));
          p = (case partition_at '';'' (fst q) of
                 Some (r, pp) \<Rightarrow> (r, (snd q)\<lparr>parameters := uri_param_items pp\<rparr>) | None \<Rightarrow> q)
      in parse_user_host (fst p) (snd p))"

lemma raw_after_scheme [simp]: "raw_uri (parse_after_scheme r u) = raw_uri u"
  by (simp add: parse_after_scheme_def Let_def split: option.split)

lemma parse_uri_after_scheme:
  "parse_uri text =
     (case partition_at '':'' (strip text) of
        None \<Rightarrow> blank_uri (strip text)
      | Some (sch, rest) \<Rightarrow> parse_after_scheme rest ((blank_uri (strip text))\<lparr>scheme := lower sch\<rparr>))"
  by (auto simp: parse_uri_def parse_after_scheme_def Let_def split_beta split: option.split)

lemma raw_parse_uri [simp]: "raw_uri (parse_uri r) = strip r"
  by (simp add: parse_uri_after_scheme blank_uri_def split: option.split)

lemma start_line_body [simp]: "start_line (m\<lparr>body := b\<rparr>) = start_line m"
  by (cases "method m") (simp_all add: start_line_def)

lemma start_line_wire:
  assumes "start_ok m"
  shows "wire_line (start_line m)"
proof (cases "method m")
  case (Some meth)
  then obtain u where u: "uri m = Some u" "word_ok (raw_uri u)"
    using assms by (auto simp: start_ok_def split: option.splits)
  have "CR \<notin> set (raw_uri u)" "CR \<notin> set (method_value meth)"
    using u word_ok_no_space method_value_word by blast+
  with Some u method_value_word[of meth "[]"] show ?thesis
    by (auto simp: start_line_def wire_line_def show_opt_def sip_version_def stripped_def word_ok_def char_class_defs)
next
  case None
  then obtain n r where r: "status_code m = Some n" "reason_phrase m = Some r" "r \<noteq> []" "rstripped r" "CR \<notin> set r"
    using assms by (auto simp: start_ok_def split: option.splits)
  have "CR \<notin> set (int_str n)" using word_ok_no_space[OF int_str_word] by blast
  with None r show ?thesis
    by (auto simp: start_line_def wire_line_def show_opt_def sip_version_def stripped_def rstripped_def char_class_defs)
qed

lemma split_max_2:
  assumes "CHR '' '' \<notin> set a" and "CHR '' '' \<notin> set b"
  shows "split_max 2 '' '' (a @ '' '' @ b @ '' '' @ c) = [a, b, c]"
  using assms by (simp add: numeral_2_eq_2 partition_at_char)

lemma parse_start_line_encode:
  assumes "start_ok m"
  shows "parse_start_line (start_line m) new_message = Inr (m\<lparr>headers := [], body := None\<rparr>)"
proof (cases "method m")
  case (Some meth)
  then obtain u where u: "uri m = Some u" "word_ok (raw_uri u)" "u = parse_uri (raw_uri u)"
    and n: "status_code m = None" "reason_phrase m = None"
    using assms by (auto simp: start_ok_def split: option.splits)
  have "split_max 2 '' '' (start_line m) = [method_value meth, raw_uri u, sip_version]"
    unfolding start_line_def Some u(1) option.case show_opt_def
    using u(2) word_ok_no_space method_value_word by (intro split_max_2) blast+
  moreover have "\<not> starts_with (start_line m) ''SIP/''"
    using method_value_word by (simp add: start_line_def Some)
  ultimately show ?thesis using Some u n by (simp add: parse_start_line_def new_message_def)
next
  case None
  then obtain n r where r: "status_code m = Some n" "reason_phrase m = Some r" and u: "uri m = None"
    using assms by (auto simp: start_ok_def split: option.splits)
  have "split_max 2 '' '' (start_line m) = [sip_version, int_str n, r]"
    unfolding start_line_def None r option.case show_opt_def id_def
    using word_ok_no_space[OF int_str_word] by (intro split_max_2) (auto simp: sip_version_def)
  moreover have "starts_with (start_line m) ''SIP/''"
    by (simp add: start_line_def None sip_version_def)
  ultimately show ?thesis using None r u by (simp add: parse_start_line_def new_message_def)
qed

lemma message_lines_wire:
  "message_lines m = (start_line m # map header_encode (wire_headers m)) @ [[]]
     @ (case body m of Some b \<Rightarrow> [content b] | None \<Rightarrow> [])"
  by (simp add: message_lines_def wire_headers_def header_encode_def split: option.split)

lemma head_lines_wire:
  assumes "message_ok m" and "l \<in> set (start_line m # map header_encode (wire_headers m))"
  shows "wire_line l"
proof -
  have "list_all header_ok (wire_headers m)" using assms(1) wire_headers_ok by (simp add: message_ok_def)
  then show ?thesis
    using assms start_line_wire header_line by (auto simp: message_ok_def list_all_iff)
qed

lemma split_message_str:
  assumes "message_ok m"
  defines "ls \<equiv> start_line m # map header_encode (wire_headers m)"
  shows "split_on CRLF (strip (message_str m)) =
     ls @ (case body m of Some b \<Rightarrow> [] # split_on CRLF (content b) | None \<Rightarrow> [])"
proof -
  have wl: "\<And>l. l \<in> set ls \<Longrightarrow> wire_line l" using head_lines_wire[OF assms(1)] by (simp add: ls_def)
  have ne: "ls \<noteq> []" by (simp add: ls_def)
  have st: "stripped (join CRLF ls) \<and> join CRLF ls \<noteq> []"
    using wl by (intro stripped_join[OF ne]) (simp add: wire_line_def)
  have cr: "\<And>l. l \<in> set ls \<Longrightarrow> CR \<notin> set l" using wl by (simp add: wire_line_def)
  show ?thesis
  proof (cases "body m")
    case None
    then have "message_str m = join CRLF ls @ CRLF"
      using ne by (simp add: message_str_def message_lines_wire ls_def[symmetric] join_append)
    moreover have "strip (join CRLF ls @ CRLF) = join CRLF ls"
      using st by (subst strip_append_spaces) (simp_all add: strip_id char_class_defs)
    moreover have "split_on CRLF (join CRLF ls) = ls"
      using cr contains_set[of CRLF] by (intro split_on_join_pair ne) fastforce+
    ultimately show ?thesis using None by simp
  next
    case (Some b)
    have b: "content b \<noteq> []" "rstripped (content b)" using assms(1) Some by (simp_all add: message_ok_def)
    have str: "message_str m = join CRLF (ls @ [[]]) @ CRLF @ content b"
      using ne Some join_append[of "ls @ [[]]" "[content b]" CRLF]
      by (simp add: message_str_def message_lines_wire ls_def[symmetric])
    have "stripped (message_str m)"
      using st b ne by (auto simp: str stripped_def rstripped_def join_append)
    moreover have "split_on CRLF (message_str m) = (ls @ [[]]) @ split_on CRLF (content b)"
      unfolding str using cr by (intro split_on_join_rest) auto
    ultimately show ?thesis using Some by (simp add: strip_id)
  qed
qed

lemma parse_message_str:
  assumes "message_ok m"
  shows "message_parse (message_str m) = Inr (received m)"
proof -
  have s: "start_ok m" and h: "list_all header_ok (wire_headers m)"
    using assms wire_headers_ok by (auto simp: message_ok_def)
  have sl: "strip (start_line m) = start_line m"
    using start_line_wire[OF s] by (simp add: wire_line_def strip_id)
  show ?thesis
  proof (cases "body m")
    case None
    then show ?thesis
      using parse_header_lines_encode[OF h, of "[]"]
      by (simp add: message_parse_def split_message_str[OF assms] sl parse_start_line_encode[OF s] parse_body_def
          received_def)
  next
    case (Some b)
    have b: "content b \<noteq> []" "rstripped (content b)" using assms Some by (simp_all add: message_ok_def)
    have "strip (content b) \<noteq> []"
      unfolding strip_eq_Nil using b by (auto simp: rstripped_def)
    then have "parse_body (Some (split_on CRLF (content b))) m' =
        m'\<lparr>body := Some (body_of_str (content b)
          (case header_lookup ''content-type'' (headers m') of Some ct \<Rightarrow> ct | None \<Rightarrow> ''text/plain''))\<rparr>" for m'
      using join_split_on[of CRLF "content b"] split_on_nonempty[of CRLF "content b"]
      by (cases "split_on CRLF (content b)") (simp_all add: parse_body_def del: join.simps)
    with Some show ?thesis
      using parse_header_lines_encode[OF h, of "[] # split_on CRLF (content b)"]
      by (simp add: message_parse_def split_message_str[OF assms] sl parse_start_line_encode[OF s] received_def)
  qed
qed

lemma parse_trailing_space:
  "list_all is_space ws \<Longrightarrow> message_parse (t @ ws) = message_parse t"
  by (simp add: message_parse_def list_all_iff strip_append_spaces)

section \<open>Responses, bodies and URIs\<close>

lemma strip_to_with_tag:
  assumes "v \<noteq> []" and "stripped v"
  shows "stripped (to_with_tag ident v)"
  using assms int_str_word[of ident] by (auto simp: to_with_tag_def stripped_def word_ok_def)

lemma to_with_tag_tagged: "contains '';tag='' (lower (to_with_tag ident v))"
proof (cases "contains '';tag='' (lower v)")
  case False
  have "lower '';tag='' = '';tag=''" by (simp add: lower_eval)
  then show ?thesis
    using False by (auto simp: to_with_tag_def contains_iff)
qed (simp add: to_with_tag_def)

definition uri_part_ok :: "string \<Rightarrow> bool" where
  "uri_part_ok s = (s \<noteq> [] \<and> list_all (\<lambda>c. c \<notin> set '':?;@['' \<and> \<not> is_space c) s)"

lemma uri_part_chars:
  "uri_part_ok s \<Longrightarrow> CHR '':'' \<notin> set s" "uri_part_ok s \<Longrightarrow> CHR ''?'' \<notin> set s" "uri_part_ok s \<Longrightarrow> CHR '';'' \<notin> set s"
  "uri_part_ok s \<Longrightarrow> CHR ''@'' \<notin> set s" "uri_part_ok s \<Longrightarrow> CHR ''['' \<notin> set s" "uri_part_ok s \<Longrightarrow> word_ok s"
  by (auto simp: uri_part_ok_def list_all_iff word_ok_def)

lemma int_str_sep: "CHR '':'' \<notin> set (int_str p)" "CHR ''?'' \<notin> set (int_str p)" "CHR '';'' \<notin> set (int_str p)"
  "CHR ''@'' \<notin> set (int_str p)"
  using int_str_chars[of "CHR '':''" p] int_str_chars[of "CHR ''?''" p] int_str_chars[of "CHR '';''" p]
    int_str_chars[of "CHR ''@''" p]
  by (auto simp: char_class_defs)

lemma parse_after_scheme_user_host:
  assumes "uri_part_ok usr" and "uri_part_ok h"
  shows "parse_after_scheme (usr @ ''@'' @ h @ '':'' @ int_str p) u
     = u\<lparr>user := Some usr, host := h, uri_port := Some p\<rparr>"
proof -
  let ?r = "usr @ CHR ''@'' # h @ CHR '':'' # int_str p"
  have "partition_at ''?'' ?r = None" "partition_at '';'' ?r = None"
    using assms uri_part_chars int_str_sep by (auto simp: partition_at_char_None)
  moreover have "rpartition_char (CHR ''@'') ?r = Some (usr, h @ CHR '':'' # int_str p)"
    using assms uri_part_chars int_str_sep by (auto simp: rpartition_char_Some)
  moreover have "partition_at '':'' usr = None" using assms uri_part_chars by (auto simp: partition_at_char_None)
  moreover have "rpartition_char (CHR '':'') (h @ CHR '':'' # int_str p) = Some (h, int_str p)"
    using int_str_sep by (auto simp: rpartition_char_Some)
  moreover have "\<not> starts_with (h @ CHR '':'' # int_str p) ''[''"
    using assms(2) uri_part_chars(5)[OF assms(2)] by (cases h) (auto simp: uri_part_ok_def)
  ultimately show ?thesis by (simp add: parse_after_scheme_def parse_user_host_def parse_host_port_def)
qed

text \<open>A small request used in the examples.\<close>

definition options_example :: SIPMessage where
  "options_example = \<lparr>headers =
       [\<lparr>hname = ''Via'', hvalue = ''SIP/2.0/UDP h''\<rparr>, \<lparr>hname = ''From'', hvalue = ''<sip:a@b>''\<rparr>,
        \<lparr>hname = ''To'', hvalue = ''<sip:c@d>''\<rparr>, \<lparr>hname = ''Call-ID'', hvalue = ''abc''\<rparr>,
        \<lparr>hname = ''CSeq'', hvalue = ''1 OPTIONS''\<rparr>, \<lparr>hname = ''Content-Length'', hvalue = ''5''\<rparr>],
     body = None, method = Some OPTIONS, uri = Some (parse_uri ''sip:c@d''), status_code = None, reason_phrase = None\<rparr>"

lemma options_example_ok: "message_ok options_example"
proof -
  have "word_ok ''sip:c@d''" by (simp add: word_ok_def char_class_defs)
  moreover have "strip ''sip:c@d'' = ''sip:c@d''" by (intro strip_id) (simp add: stripped_def char_class_defs)
  moreover have "list_all header_ok (headers options_example)"
    by (simp add: options_example_def header_ok_def stripped_def char_class_defs)
  ultimately show ?thesis by (simp add: message_ok_def start_ok_def options_example_def)
qed

section \<open>Properties\<close>

text \<open>C1. Sending a well-formed message over the wire keeps it: the bytes of the message, decoded and
  parsed by the receiver, give the same start line, the same headers in the same order (with a
  Content-Length added if there is a body and none was set) and the same body text.\<close>

theorem message_roundtrip:
  assumes "message_ok m"
  shows "message_parse (utf8_decode_ignore (message_encode m)) = Inr (received m)"
  using parse_message_str[OF assms] by (simp add: message_encode_def)

theorem message_roundtrip_witness:
  "message_parse (utf8_decode_ignore (message_encode
      (create_request MESSAGE ''sip:bob@example.com'' [(''Call-ID'', ''abc'')] (Some (BStr ''hello'')))))
   = Inr (received (create_request MESSAGE ''sip:bob@example.com'' [(''Call-ID'', ''abc'')] (Some (BStr ''hello''))))"
proof (rule message_roundtrip)
  have "word_ok ''sip:bob@example.com''" by (simp add: word_ok_def char_class_defs)
  moreover from this have "strip ''sip:bob@example.com'' = ''sip:bob@example.com''"
    by (intro strip_id) (simp add: stripped_def char_class_defs)
  moreover have "header_ok (new_header ''Call-ID'' ''abc'')"
  proof -
    have "stripped ''Call-ID''" "stripped ''abc''" by (simp_all add: stripped_def char_class_defs)
    then show ?thesis by (simp add: header_ok_def new_header_def strip_id)
  qed
  ultimately show
    "message_ok (create_request MESSAGE ''sip:bob@example.com'' [(''Call-ID'', ''abc'')] (Some (BStr ''hello'')))"
    by (simp add: message_ok_def start_ok_def create_request_def attach_body_def add_header_def new_message_def
        body_of_str_def rstripped_def char_class_defs)
qed

text \<open>A body that ends in CRLF, as every printed session description does, does not survive: the parser
  drops the line end, so the body read is two bytes shorter than the Content-Length that was sent.\<close>

theorem body_line_end_lost:
  assumes "message_ok (m\<lparr>body := Some (b\<lparr>content := c\<rparr>)\<rparr>)" and "truthy_str (get_header m ''content-length'')"
  shows "message_parse (message_str (m\<lparr>body := Some (b\<lparr>content := c @ CRLF\<rparr>)\<rparr>))
      = Inr (received (m\<lparr>body := Some (b\<lparr>content := c\<rparr>)\<rparr>)) \<and>
    content_length (b\<lparr>content := c @ CRLF\<rparr>) = content_length (b\<lparr>content := c\<rparr>) + 2"
proof -
  let ?m = "m\<lparr>body := Some (b\<lparr>content := c\<rparr>)\<rparr>" and ?n = "m\<lparr>body := Some (b\<lparr>content := c @ CRLF\<rparr>)\<rparr>"
  have "wire_headers ?n = wire_headers ?m" using assms(2) by (simp add: wire_headers_def get_header_def)
  then have "message_str ?n = message_str ?m @ CRLF"
    using join_append[of "(start_line ?m # map header_encode (wire_headers ?m)) @ [[]]" "[c]" CRLF]
      join_append[of "(start_line ?m # map header_encode (wire_headers ?m)) @ [[]]" "[c @ CRLF]" CRLF]
    by (simp add: message_str_def message_lines_wire del: join.simps(3))
  moreover have "list_all is_space CRLF" by simp
  ultimately show ?thesis
    using parse_message_str[OF assms(1)] parse_trailing_space[of CRLF "message_str ?m"]
    by (simp add: content_length_def utf8_encode_def utf8_char_def code_def)
qed

theorem body_line_end_lost_witness:
  "message_parse (message_str (options_example\<lparr>body := Some \<lparr>content = ''v=0'' @ CRLF, content_type = ''application/sdp'', sdp = None\<rparr>\<rparr>))
      = Inr (received (options_example\<lparr>body := Some \<lparr>content = ''v=0'', content_type = ''application/sdp'', sdp = None\<rparr>\<rparr>))"
proof -
  let ?b = "\<lparr>content = ''v=0'', content_type = ''application/sdp'', sdp = None\<rparr>"
  have "message_ok (options_example\<lparr>body := Some (?b\<lparr>content := ''v=0''\<rparr>)\<rparr>)"
    using options_example_ok by (simp add: message_ok_def start_ok_def rstripped_def char_class_defs cong: option.case_cong)
  moreover have "truthy_str (get_header options_example ''content-length'')"
    by (simp add: options_example_def get_header_def lower_eval)
  ultimately show ?thesis using body_line_end_lost[of "''v=0''" ?b options_example] by simp
qed

text \<open>Header lookup and update are a table indexed by the lower-cased name: after setting a header its
  name, in any case, gives the new value (trimmed when the header is new) and every other name gives what
  it gave before; after removing it the name gives nothing and the others are unchanged.\<close>

theorem header_table:
  assumes "stripped n"
  shows "get_header (set_header n v m) k =
      (if lower k = lower n then Some (if get_header m n = None then strip v else v) else get_header m k) \<and>
    get_header (remove_header n m) k = (if lower k = lower n then None else get_header m k)"
  using get_header_set[OF assms] get_header_remove by simp

theorem header_table_witness:
  "get_header (set_header ''Expires'' ''60'' new_message) ''EXPIRES'' = Some ''60''"
proof -
  have "stripped ''Expires''" and "strip ''60'' = ''60''"
    by (simp_all add: stripped_def strip_id char_class_defs)
  moreover have "lower ''EXPIRES'' = lower ''Expires''" by (simp add: lower_eval)
  ultimately show ?thesis
    using header_table[of "''Expires''" "''60''" new_message "''EXPIRES''"]
    by (simp add: get_header_def new_message_def)
qed

text \<open>A response to a request takes over Call-ID, CSeq, From and the top Via of the request, in that
  order, and its To header has a tag: the request's own if it had one, else a new one.\<close>

theorem response_copies_request:
  assumes "is_request req"
    and "get_header req ''call-id'' = Some cid" and "get_header req ''cseq'' = Some cseq"
    and "get_header req ''from'' = Some frm" and "get_header req ''via'' = Some via" and "get_header req ''to'' = Some to"
    and "cid \<noteq> []" and "cseq \<noteq> []" and "frm \<noteq> []" and "via \<noteq> []" and "to \<noteq> []"
    and "stripped cid" and "stripped cseq" and "stripped frm" and "stripped via" and "stripped to"
  shows "headers (create_response ident status reason (Some req) [] arg) =
      [\<lparr>hname = ''Call-Id'', hvalue = cid\<rparr>, \<lparr>hname = ''Cseq'', hvalue = cseq\<rparr>, \<lparr>hname = ''From'', hvalue = frm\<rparr>,
       \<lparr>hname = ''Via'', hvalue = via\<rparr>, \<lparr>hname = ''To'', hvalue = to_with_tag ident to\<rparr>] \<and>
    contains '';tag='' (lower (to_with_tag ident to)) \<and>
    is_response (create_response ident status reason (Some req) [] arg)"
proof -
  have names: "strip ''Call-Id'' = ''Call-Id''" "strip ''Cseq'' = ''Cseq''" "strip ''From'' = ''From''"
    "strip ''Via'' = ''Via''" "strip ''To'' = ''To''"
    by (intro strip_id; simp add: stripped_def char_class_defs)+
  have "headers (attach_body arg m) = headers m" "status_code (attach_body arg m) = status_code m" for m
    by (auto simp: attach_body_def split: option.split body_arg.split list.split)
  with assms names strip_to_with_tag[of to ident] to_with_tag_tagged[of ident to] show ?thesis
    by (simp add: create_response_def copy_header_def copy_to_def add_header_def new_header_def new_message_def
        strip_id is_response_def truthy_str_def)
qed

theorem response_copies_request_witness:
  "headers (create_response 77 200 None (Some options_example) [] None) =
     [\<lparr>hname = ''Call-Id'', hvalue = ''abc''\<rparr>, \<lparr>hname = ''Cseq'', hvalue = ''1 OPTIONS''\<rparr>,
      \<lparr>hname = ''From'', hvalue = ''<sip:a@b>''\<rparr>, \<lparr>hname = ''Via'', hvalue = ''SIP/2.0/UDP h''\<rparr>,
      \<lparr>hname = ''To'', hvalue = to_with_tag 77 ''<sip:c@d>''\<rparr>]"
proof -
  have g: "get_header options_example ''call-id'' = Some ''abc''" "get_header options_example ''cseq'' = Some ''1 OPTIONS''"
    "get_header options_example ''from'' = Some ''<sip:a@b>''" "get_header options_example ''via'' = Some ''SIP/2.0/UDP h''"
    "get_header options_example ''to'' = Some ''<sip:c@d>''" "is_request options_example"
    by (simp_all add: options_example_def get_header_def lower_eval is_request_def)
  have "stripped ''abc''" "stripped ''1 OPTIONS''" "stripped ''<sip:a@b>''" "stripped ''SIP/2.0/UDP h''" "stripped ''<sip:c@d>''"
    by (simp_all add: stripped_def char_class_defs)
  then show ?thesis
    using response_copies_request[OF g(6,1,2,3,4,5), of 77 200 None None] by simp
qed

text \<open>Validation accepts exactly: a request with a non-empty host (if it has a URI) and all six
  mandatory headers, or a response with a non-zero status code, whose headers are all valid and whose
  body, if any, is valid.\<close>

theorem message_validate_iff:
  "fst (message_validate now m) \<longleftrightarrow>
     (if is_request m
      then list_all (\<lambda>r. get_header m r \<noteq> None) required_headers \<and>
        (case uri m of Some u \<Rightarrow> host u \<noteq> [] | None \<Rightarrow> True)
      else truthy_int (status_code m)) \<and>
     list_all header_validate (headers m) \<and> (case body m of Some b \<Rightarrow> body_validate now b | None \<Rightarrow> True)"
proof -
  have look: "header_lookup r hs = None \<longleftrightarrow> r \<notin> set (map (\<lambda>h. lower (hname h)) hs)" for r hs
    by (induction hs) auto
  have low: "list_all (\<lambda>r. lower r = r) required_headers"
    by (simp add: required_headers_def lower_eval)
  then have "list_all (\<lambda>r. get_header m r \<noteq> None) required_headers
      \<longleftrightarrow> filter (\<lambda>r. r \<notin> set (map (\<lambda>h. lower (hname h)) (headers m))) required_headers = []"
    unfolding get_header_def look list_all_iff filter_empty_conv by auto
  then show ?thesis
    by (auto simp: message_validate_def Let_def is_request_def filter_empty_conv list_all_iff split: option.split)
qed

text \<open>Setting a body announces it correctly: Content-Type is the body's type, Content-Length the number
  of bytes of its UTF-8 text, and those bytes end the encoded message.\<close>

theorem set_body_announced:
  assumes "stripped (content_type (to_body arg ct))"
  shows "body (set_body arg ct m) = Some (to_body arg ct) \<and>
    get_header (set_body arg ct m) ''content-type'' = Some (content_type (to_body arg ct)) \<and>
    get_header (set_body arg ct m) ''content-length'' = Some (nat_str (length (utf8_encode (content (to_body arg ct))))) \<and>
    message_encode (set_body arg ct m) =
      utf8_encode (join CRLF (start_line m # map header_encode (headers (set_body arg ct m))) @ CRLF @ CRLF)
      @ utf8_encode (content (to_body arg ct))"
proof -
  let ?b = "to_body arg ct" and ?m = "set_body arg ct m"
  have names: "stripped ''Content-Type''" "stripped ''Content-Length''" by (simp_all add: stripped_def char_class_defs)
  have low: "lower ''content-type'' = lower ''Content-Type''" "lower ''content-length'' = lower ''Content-Length''"
    "lower ''content-type'' \<noteq> lower ''Content-Length''"
    by (simp_all add: lower_eval)
  have b: "body ?m = Some ?b" by (simp add: set_body_def Let_def)
  have t: "get_header ?m ''content-type'' = Some (content_type ?b)"
    using names low assms by (simp add: set_body_def Let_def get_header_set strip_id)
  have l: "get_header ?m ''content-length'' = Some (nat_str (content_length ?b))"
    using names low by (simp add: set_body_def Let_def get_header_set strip_id nat_str_stripped)
  have s: "start_line ?m = start_line m"
    by (cases "method m") (simp_all add: set_body_def Let_def start_line_def)
  have "message_str ?m = join CRLF (start_line m # map header_encode (headers ?m)) @ CRLF @ CRLF @ content ?b"
    using b l s join_append[of "start_line m # map header_encode (headers ?m)" "[[], content ?b]" CRLF]
    by (simp add: message_str_def message_lines_wire wire_headers_def del: join.simps(3)) simp
  with b t l show ?thesis by (simp add: message_encode_def content_length_def) (simp add: utf8_encode_def)
qed

theorem set_body_announced_witness:
  "get_header (set_body (BStr ''hello'') ''text/plain'' new_message) ''content-length'' = Some (nat_str 5)"
proof -
  have "stripped ''text/plain''" by (simp add: stripped_def char_class_defs)
  then have "stripped (content_type (to_body (BStr ''hello'') ''text/plain''))" by (simp add: body_of_str_def)
  from set_body_announced[OF this, of new_message] show ?thesis
    by (simp add: body_of_str_def utf8_encode_def utf8_char_def code_def eval_nat_numeral)
qed

text \<open>A URI of the form \<open>scheme:user@host:port\<close> is taken apart into exactly these parts: scheme in
  lower case, user, host and the port number, no password, no parameters and no headers.\<close>

theorem uri_user_host_port:
  assumes "uri_part_ok sch" and "uri_part_ok usr" and "uri_part_ok h"
  shows "parse_uri (sch @ '':'' @ usr @ ''@'' @ h @ '':'' @ int_str p) =
     \<lparr>raw_uri = sch @ '':'' @ usr @ ''@'' @ h @ '':'' @ int_str p, scheme = lower sch, user = Some usr,
      password = None, host = h, uri_port = Some p, parameters = [], uri_headers = []\<rparr>"
proof -
  let ?t = "sch @ CHR '':'' # usr @ ''@'' @ h @ '':'' @ int_str p"
  have "word_ok sch" "word_ok (int_str p)" using assms(1) uri_part_chars int_str_word by blast+
  then have "strip ?t = ?t" by (intro strip_id) (auto simp: stripped_def word_ok_def)
  moreover have "partition_at '':'' ?t = Some (sch, usr @ ''@'' @ h @ '':'' @ int_str p)"
    using assms(1) uri_part_chars by (intro partition_at_char) blast
  ultimately show ?thesis
    using parse_after_scheme_user_host[OF assms(2,3), of p]
    by (simp add: parse_uri_after_scheme blank_uri_def)
qed

theorem uri_user_host_port_witness:
  "uri_port (parse_uri (''sips'' @ '':'' @ ''bob'' @ ''@'' @ ''example.com'' @ '':'' @ int_str 5061)) = Some 5061"
proof -
  have "uri_part_ok ''sips''" "uri_part_ok ''bob''" "uri_part_ok ''example.com''"
    by (simp_all add: uri_part_ok_def char_class_defs)
  from uri_user_host_port[OF this, of 5061] show ?thesis by simp
qed

end
