(* ===== verification/Call_Flow.thy ===== *)
theory Call_Flow
  imports Ladder Sip_Message
begin

text \<open>
  Call flows (\<open>call_flow.py\<close>): the record of the messages of a call, its ladder diagram and statistics, and
  the tracker that keeps one flow per Call-ID. The text that \<open>time.strftime\<close> gives and the second that
  \<open>int(time.time())\<close> gives to a parsed session description are arguments, as in the other theories. The
  drawing code of \<open>render_ladder\<close> repeats that of \<open>ladder.py\<close> statement by statement, so it is built from the same
  definitions.
\<close>

section \<open>Entries\<close>

record SIPFlowEntry =
  fe_timestamp :: string
  fe_source :: string
  fe_dest :: string
  fe_method :: string
  fe_status :: "string option"
  fe_transaction_id :: "string option"
  fe_body_type :: "string option"
  fe_body_summary :: "string option"
  fe_direction :: string

record SIPCallFlow =
  cf_call_id :: string
  cf_local_address :: string
  cf_remote_address :: string
  cf_entries :: "SIPFlowEntry list"

definition new_call_flow :: "string \<Rightarrow> string \<Rightarrow> string \<Rightarrow> SIPCallFlow" where
  "new_call_flow cid la ra = \<lparr>cf_call_id = cid, cf_local_address = la, cf_remote_address = ra, cf_entries = []\<rparr>"

text \<open>\<open>time.strftime(...)[:-3]\<close>.\<close>

definition entry_stamp :: "string \<Rightarrow> string" where
  "entry_stamp strf = take (length strf - 3) strf"

definition flow_method :: "SIPMessage \<Rightarrow> string \<times> string option" where
  "flow_method m =
     (case method m of
        Some meth \<Rightarrow> (method_value meth, None)
      | None \<Rightarrow>
          (show_opt int_str (status_code m) @ '' '' @ show_opt id (reason_phrase m),
           Some (show_opt int_str (status_code m))))"

definition attribute_codec :: "SDPAttribute \<Rightarrow> string option" where
  "attribute_codec a =
     (if attr_name a = ''rtpmap'' \<and> truthy_str (attr_value a)
      then (let parts = split_max 1 '' '' (the (attr_value a))
            in if length parts > 1 then Some (hd (split_on ''/'' (parts ! 1))) else None)
      else None)"

definition session_codecs :: "SDPSession \<Rightarrow> string list" where
  "session_codecs s = concat (map (\<lambda>md. List.map_filter attribute_codec (attributes md)) (media s))"

definition sdp_summary :: "SDPSession \<Rightarrow> string" where
  "sdp_summary s =
     (if session_codecs s \<noteq> []
      then ''audio '' @ int_str (port (hd (media s))) @ '' ('' @ join '', '' (take 2 (session_codecs s)) @ '')''
      else ''audio'')"

text \<open>Type and summary of the body; a summary given by the caller is kept.\<close>

definition flow_body :: "int \<Rightarrow> SIPMessage \<Rightarrow> string option \<Rightarrow> string option \<times> string option" where
  "flow_body now m summary =
     (case body m of
        None \<Rightarrow> (None, summary)
      | Some b \<Rightarrow>
          if is_sdp b
          then (Some ''SDP'',
                if truthy_str summary then summary
                else case get_sdp now b of
                    Some s \<Rightarrow> if media s \<noteq> [] then Some (sdp_summary s) else summary
                  | None \<Rightarrow> summary)
          else (Some ''TEXT'', summary))"

definition flow_entry ::
  "string \<Rightarrow> int \<Rightarrow> string \<Rightarrow> string \<Rightarrow> string \<Rightarrow> SIPMessage \<Rightarrow> string option \<Rightarrow> string option \<Rightarrow> SIPFlowEntry" where
  "flow_entry strf now direction src dst m tid summary =
     \<lparr>fe_timestamp = entry_stamp strf, fe_source = src, fe_dest = dst, fe_method = fst (flow_method m),
      fe_status = snd (flow_method m), fe_transaction_id = tid, fe_body_type = fst (flow_body now m summary),
      fe_body_summary = snd (flow_body now m summary), fe_direction = direction\<rparr>"

definition append_entry :: "SIPFlowEntry \<Rightarrow> SIPCallFlow \<Rightarrow> SIPCallFlow" where
  "append_entry e f = f\<lparr>cf_entries := cf_entries f @ [e]\<rparr>"

definition add_outbound_message ::
  "string \<Rightarrow> int \<Rightarrow> string \<Rightarrow> SIPMessage \<Rightarrow> string option \<Rightarrow> string option \<Rightarrow> SIPCallFlow \<Rightarrow> SIPCallFlow" where
  "add_outbound_message strf now dst m tid summary f =
     append_entry (flow_entry strf now ''outbound'' (cf_local_address f) dst m tid summary) f"

definition add_inbound_message ::
  "string \<Rightarrow> int \<Rightarrow> string \<Rightarrow> SIPMessage \<Rightarrow> string option \<Rightarrow> string option \<Rightarrow> SIPCallFlow \<Rightarrow> SIPCallFlow" where
  "add_inbound_message strf now src m tid summary f =
     append_entry (flow_entry strf now ''inbound'' src (cf_local_address f) m tid summary) f"

section \<open>Rendering\<close>

definition color_for_method :: "string \<Rightarrow> string" where
  "color_for_method meth =
     (let m = upper meth in
      if starts_with m ''100'' \<or> starts_with m ''180'' \<or> starts_with m ''183'' then ''yellow''
      else if starts_with m ''2'' then ''bold green''
      else if take 1 m \<in> set [''3'', ''4'', ''5'', ''6''] then ''bold red''
      else if contains ''INVITE'' m then ''bold cyan''
      else if contains ''BYE'' m \<or> contains ''CANCEL'' m then ''red''
      else if contains ''ACK'' m then ''green''
      else ''white'')"

definition flow_participants :: "SIPCallFlow \<Rightarrow> string list" where
  "flow_participants f = [cf_local_address f, cf_remote_address f]"

text \<open>The source and destination of an entry, mapped to the two participants where the code can.\<close>

definition map_addresses :: "SIPCallFlow \<Rightarrow> SIPFlowEntry \<Rightarrow> string \<times> string" where
  "map_addresses f e =
     (let dst = (if contains ''0.0.0.0'' (fe_dest e) then cf_remote_address f else fe_dest e);
          src = (if fe_source e \<noteq> cf_local_address f \<and> dst = cf_local_address f then cf_remote_address f
                 else if fe_source e \<noteq> cf_local_address f \<and> starts_with (fe_source e) ''148.251.28.187''
                 then cf_remote_address f else fe_source e)
      in (src, if dst \<notin> set (flow_participants f) \<and> src = cf_local_address f then cf_remote_address f else dst))"

definition entry_columns :: "SIPCallFlow \<Rightarrow> SIPFlowEntry \<Rightarrow> nat \<times> nat" where
  "entry_columns f e =
     (case (index_of (flow_participants f) (fst (map_addresses f e)), index_of (flow_participants f) (snd (map_addresses f e))) of
        (Inr si, Inr di) \<Rightarrow> (si, di)
      | _ \<Rightarrow> if fe_direction e = ''outbound'' then (0, 1) else (1, 0))"

definition entry_label :: "SIPFlowEntry \<Rightarrow> string" where
  "entry_label e =
     fe_method e @ (if truthy_str (fe_body_summary e) then '' ('' @ the (fe_body_summary e) @ '')'' else [])"

definition flow_row :: "SIPCallFlow \<Rightarrow> int \<Rightarrow> int \<Rightarrow> row \<Rightarrow> SIPFlowEntry \<Rightarrow> styled_row res" where
  "flow_row f col_width gap template e =
     (let cs = column_centers 2 col_width gap;
          s = cs ! fst (entry_columns f e);
          d = cs ! snd (entry_columns f e)
      in map_res (arrow_style s d (color_for_method (fe_method e)))
           (draw_arrow cs s d (entry_label e) (put_timestamp (fe_timestamp e) template)))"

record call_stats =
  st_total :: nat
  st_outbound :: nat
  st_inbound :: nat
  st_methods :: "(string, nat) dict"

definition count_method :: "SIPFlowEntry \<Rightarrow> (string, nat) dict \<Rightarrow> (string, nat) dict res" where
  "count_method e ms =
     (case words (fe_method e) of
        [] \<Rightarrow> Inl IndexError
      | w # _ \<Rightarrow> Inr (dict_set w ((case dict_get ms w of Some k \<Rightarrow> k | None \<Rightarrow> 0) + 1) ms))"

definition print_call_stats :: "SIPCallFlow \<Rightarrow> call_stats res" where
  "print_call_stats f =
     map_res (\<lambda>ms. \<lparr>st_total = length (cf_entries f),
         st_outbound = length (filter (\<lambda>e. fe_direction e = ''outbound'') (cf_entries f)),
         st_inbound = length (filter (\<lambda>e. fe_direction e = ''inbound'') (cf_entries f)), st_methods = ms\<rparr>)
       (fold_res count_method (cf_entries f) [])"

text \<open>What is printed for a flow: a notice that it is empty, or panel and statistics.\<close>

datatype rendering =
    EmptyFlow
  | Diagram string "styled_row list" call_stats

definition render_ladder :: "SIPCallFlow \<Rightarrow> int \<Rightarrow> int \<Rightarrow> rendering res" where
  "render_ladder f col_width gap =
     (if cf_entries f = [] then Inr EmptyFlow
      else
        bind_res (lifeline_template 2 col_width gap) (\<lambda>template.
        bind_res (mapM_res (flow_row f col_width gap template) (cf_entries f)) (\<lambda>rows.
        map_res (Diagram (header_text (flow_participants f) col_width gap) rows) (print_call_stats f))))"

section \<open>The tracker\<close>

record SIPCallFlowTracker =
  call_flows :: "(string, SIPCallFlow) dict"
  tr_local_address :: string
  tr_remote_address :: string

definition new_tracker :: SIPCallFlowTracker where
  "new_tracker = \<lparr>call_flows = [], tr_local_address = [], tr_remote_address = []\<rparr>"

definition set_addresses :: "string \<Rightarrow> string \<Rightarrow> SIPCallFlowTracker \<Rightarrow> SIPCallFlowTracker" where
  "set_addresses la ra t = t\<lparr>tr_local_address := la, tr_remote_address := ra\<rparr>"

definition get_or_create_call_flow :: "string \<Rightarrow> SIPCallFlowTracker \<Rightarrow> SIPCallFlowTracker \<times> SIPCallFlow" where
  "get_or_create_call_flow cid t =
     (case dict_get (call_flows t) cid of
        Some f \<Rightarrow> (t, f)
      | None \<Rightarrow>
          (let f = new_call_flow cid (tr_local_address t) (tr_remote_address t)
           in (t\<lparr>call_flows := dict_set cid f (call_flows t)\<rparr>, f)))"

definition start_call_flow :: "string \<Rightarrow> string \<Rightarrow> string \<Rightarrow> SIPCallFlowTracker \<Rightarrow> SIPCallFlowTracker" where
  "start_call_flow cid la ra t = t\<lparr>call_flows := dict_set cid (new_call_flow cid la ra) (call_flows t)\<rparr>"

definition get_call_flow :: "string \<Rightarrow> SIPCallFlowTracker \<Rightarrow> SIPCallFlow option" where
  "get_call_flow cid t = dict_get (call_flows t) cid"

text \<open>A method called on a flow of the tracker changes the flow in the table.\<close>

definition on_flow :: "string \<Rightarrow> (SIPCallFlow \<Rightarrow> SIPCallFlow) \<Rightarrow> SIPCallFlowTracker \<Rightarrow> SIPCallFlowTracker" where
  "on_flow cid g t =
     (case get_or_create_call_flow cid t of (t1, f) \<Rightarrow> t1\<lparr>call_flows := dict_set cid (g f) (call_flows t1)\<rparr>)"

definition track_outbound ::
  "string \<Rightarrow> int \<Rightarrow> string \<Rightarrow> string \<Rightarrow> SIPMessage \<Rightarrow> string option \<Rightarrow> string option \<Rightarrow> SIPCallFlowTracker \<Rightarrow> SIPCallFlowTracker" where
  "track_outbound strf now cid dst m tid summary = on_flow cid (add_outbound_message strf now dst m tid summary)"

definition track_inbound ::
  "string \<Rightarrow> int \<Rightarrow> string \<Rightarrow> string \<Rightarrow> SIPMessage \<Rightarrow> string option \<Rightarrow> string option \<Rightarrow> SIPCallFlowTracker \<Rightarrow> SIPCallFlowTracker" where
  "track_inbound strf now cid src m tid summary = on_flow cid (add_inbound_message strf now src m tid summary)"

definition render_all_flows :: "SIPCallFlowTracker \<Rightarrow> (string \<times> rendering) list res" where
  "render_all_flows t = mapM_res (\<lambda>(cid, f). map_res (Pair cid) (render_ladder f 25 8)) (call_flows t)"

definition render_current_flow :: "SIPCallFlowTracker \<Rightarrow> rendering option res" where
  "render_current_flow t =
     (if call_flows t = [] then Inr None else map_res Some (render_ladder (snd (last (call_flows t))) 25 8))"

definition clear_flows :: "SIPCallFlowTracker \<Rightarrow> SIPCallFlowTracker" where
  "clear_flows t = t\<lparr>call_flows := []\<rparr>"

section \<open>The tracker as one log per call\<close>

text \<open>A message seen by the tracker.\<close>

record tracked =
  tk_outbound :: bool
  tk_call :: string
  tk_strf :: string
  tk_now :: int
  tk_peer :: string
  tk_message :: SIPMessage

definition track :: "tracked \<Rightarrow> SIPCallFlowTracker \<Rightarrow> SIPCallFlowTracker" where
  "track x =
     (if tk_outbound x then track_outbound (tk_strf x) (tk_now x) (tk_call x) (tk_peer x) (tk_message x) None None
      else track_inbound (tk_strf x) (tk_now x) (tk_call x) (tk_peer x) (tk_message x) None None)"

definition tracked_entry :: "string \<Rightarrow> tracked \<Rightarrow> SIPFlowEntry" where
  "tracked_entry la x =
     (if tk_outbound x then flow_entry (tk_strf x) (tk_now x) ''outbound'' la (tk_peer x) (tk_message x) None None
      else flow_entry (tk_strf x) (tk_now x) ''inbound'' (tk_peer x) la (tk_message x) None None)"

definition flow_or_new :: "string \<Rightarrow> SIPCallFlowTracker \<Rightarrow> SIPCallFlow" where
  "flow_or_new cid t =
     (case get_call_flow cid t of Some f \<Rightarrow> f | None \<Rightarrow> new_call_flow cid (tr_local_address t) (tr_remote_address t))"

definition extend_flow :: "SIPFlowEntry list \<Rightarrow> SIPCallFlow \<Rightarrow> SIPCallFlow" where
  "extend_flow es f = f\<lparr>cf_entries := cf_entries f @ es\<rparr>"

lemma extend_flow_simps [simp]:
  "extend_flow [] f = f" "extend_flow es (extend_flow es' f) = extend_flow (es' @ es) f"
  "cf_local_address (extend_flow es f) = cf_local_address f" "cf_remote_address (extend_flow es f) = cf_remote_address f"
  "cf_call_id (extend_flow es f) = cf_call_id f" "cf_entries (extend_flow es f) = cf_entries f @ es"
  by (simp_all add: extend_flow_def)

lemma on_flow_get:
  "get_call_flow c (on_flow cid g t) = (if c = cid then Some (g (flow_or_new cid t)) else get_call_flow c t)"
  by (simp add: on_flow_def get_or_create_call_flow_def get_call_flow_def flow_or_new_def Let_def split: option.split)

lemma on_flow_addresses [simp]:
  "tr_local_address (on_flow cid g t) = tr_local_address t" "tr_remote_address (on_flow cid g t) = tr_remote_address t"
  by (simp_all add: on_flow_def get_or_create_call_flow_def Let_def split: option.split)

lemma track_as_extend:
  "track x t = on_flow (tk_call x) (\<lambda>f. extend_flow [tracked_entry (cf_local_address f) x] f) t"
  by (simp add: track_def track_outbound_def track_inbound_def add_outbound_message_def[abs_def] add_inbound_message_def[abs_def]
      tracked_entry_def append_entry_def extend_flow_def cong: if_cong)

lemma flow_or_new_track:
  "flow_or_new c (track x t) =
     (if c = tk_call x then extend_flow [tracked_entry (cf_local_address (flow_or_new c t)) x] (flow_or_new c t) else flow_or_new c t)"
  by (simp add: track_as_extend flow_or_new_def on_flow_get split: option.split)

lemma fold_track_get:
  "get_call_flow cid (fold track xs t) =
     (if \<exists>x \<in> set xs. tk_call x = cid
      then Some (extend_flow (map (tracked_entry (cf_local_address (flow_or_new cid t))) (filter (\<lambda>x. tk_call x = cid) xs)) (flow_or_new cid t))
      else get_call_flow cid t)"
proof (induction xs arbitrary: t)
  case (Cons x xs)
  have "get_call_flow cid (track x t) = (if cid = tk_call x then Some (flow_or_new cid (track x t)) else get_call_flow cid t)"
    by (simp add: track_as_extend on_flow_get) (simp add: flow_or_new_def on_flow_get)
  with Cons.IH[of "track x t"] show ?case by (auto simp: flow_or_new_track)
qed simp

section \<open>Rows of a flow\<close>

text \<open>An entry as the tracker makes it, for a flow whose two addresses differ.\<close>

definition flow_entry_ok :: "SIPCallFlow \<Rightarrow> SIPFlowEntry \<Rightarrow> bool" where
  "flow_entry_ok f e =
     (words (fe_method e) \<noteq> [] \<and>
      (if fe_direction e = ''outbound'' then fe_source e = cf_local_address f \<and> fe_dest e \<noteq> cf_local_address f
       else fe_dest e = cf_local_address f \<and> fe_source e \<noteq> cf_local_address f))"

lemma entry_columns_ok:
  assumes "cf_local_address f \<noteq> cf_remote_address f" and "\<not> contains ''0.0.0.0'' (cf_local_address f)" and "flow_entry_ok f e"
  shows "entry_columns f e = (if fe_direction e = ''outbound'' then (0, 1) else (1, 0))"
  using assms by (auto simp: entry_columns_def map_addresses_def flow_participants_def flow_entry_ok_def Let_def)

lemma count_method_total:
  "\<forall>e \<in> set es. words (fe_method e) \<noteq> [] \<Longrightarrow> \<exists>ms'. fold_res count_method es ms = Inr ms' \<and>
     sum_list (map snd ms') = sum_list (map snd ms) + length es"
proof (induction es arbitrary: ms)
  case (Cons e es)
  obtain w ws where w: "words (fe_method e) = w # ws" using Cons.prems by (cases "words (fe_method e)") auto
  have s: "sum_list (map snd (dict_set w (k + 1) d)) = sum_list (map snd d) + 1"
    if "(case dict_get d w of Some k \<Rightarrow> k | None \<Rightarrow> 0) = k" for d and k :: nat
    using that by (induction d) (auto split: if_splits)
  show ?case using Cons.IH[of "dict_set w ((case dict_get ms w of Some k \<Rightarrow> k | None \<Rightarrow> 0) + 1) ms"] Cons.prems s[OF refl, of ms]
    by (auto simp: count_method_def w)
qed simp

lemma directions_partition:
  assumes "\<forall>e \<in> set es. fe_direction e = ''outbound'' \<or> fe_direction e = ''inbound''"
  shows "length (filter (\<lambda>e. fe_direction e = ''outbound'') es) + length (filter (\<lambda>e. fe_direction e = ''inbound'') es) = length es"
  using assms by (induction es) auto

section \<open>Rendering never raises\<close>

lemma entry_columns_range: "fst (entry_columns f e) < 2 \<and> snd (entry_columns f e) < 2"
  using index_of_nth[of "flow_participants f"] by (auto simp: entry_columns_def flow_participants_def split: sum.splits)

lemma draw_arrow_total:
  assumes "3 \<le> col" and "0 \<le> gap" and "lifeline_template n col gap = Inr t" and "i < n" and "j < n"
  shows "\<exists>r. draw_arrow (column_centers n col gap) (column_centers n col gap ! i) (column_centers n col gap ! j) label (put_timestamp ts t) = Inr r"
proof -
  let ?cs = "column_centers n col gap"
  have m: "?cs ! i \<in> set ?cs" "?cs ! j \<in> set ?cs" using assms(4,5) by (auto intro!: nth_mem simp: column_centers_def)
  note ok = columns_ok_centers[OF assms(1,2), of n]
  have w: "18 < total_width n col gap" using columns_okD(1)[OF ok m(1)] by linarith
  obtain t' where "lifeline_template n col gap = Inr t'" "length t' = nat (total_width n col gap)"
    using lifeline_template_cells[OF assms(1,2), of n] by (elim exE conjE)
  with assms(3) w have "int (length (put_timestamp ts t)) = total_width n col gap"
    by (simp add: put_timestamp_def length_ljust ts_width_def)
  with ok have "columns_ok ?cs (int (length (put_timestamp ts t)))" by simp
  from draw_arrow_cells[OF this m, of label] show ?thesis by blast
qed

definition methods_ok :: "SIPCallFlow \<Rightarrow> bool" where
  "methods_ok f = list_all (\<lambda>e. words (fe_method e) \<noteq> []) (cf_entries f)"

lemma render_total:
  assumes "3 \<le> col" and "0 \<le> gap" and "methods_ok f"
  shows "\<exists>r. render_ladder f col gap = Inr r"
proof -
  from lifeline_template_cells[OF assms(1,2), of 2]
  obtain t where t: "lifeline_template 2 col gap = Inr t" by (elim exE conjE)
  have "\<exists>y. flow_row f col gap t e = Inr y \<and> True" for e
    using draw_arrow_total[OF assms(1,2) t, of "fst (entry_columns f e)" "snd (entry_columns f e)" "entry_label e" "fe_timestamp e"]
      entry_columns_range[of f e] by (auto simp: flow_row_def Let_def arrow_style_def)
  from mapM_res_total[of "cf_entries f" "flow_row f col gap t" "\<lambda>_ _. True", OF this]
  obtain rows where rows: "mapM_res (flow_row f col gap t) (cf_entries f) = Inr rows" by blast
  obtain ms where "fold_res count_method (cf_entries f) [] = Inr ms"
    using count_method_total[of "cf_entries f" "[]"] assms(3) by (auto simp: methods_ok_def list_all_iff)
  with t rows show ?thesis by (simp add: render_ladder_def print_call_stats_def)
qed

lemma flow_method_words: "words (fst (flow_method m)) \<noteq> []"
proof (cases "method m")
  case None
  have "word_ok ''None''" by (simp add: word_ok_def char_class_defs)
  then have w: "word_ok (show_opt int_str x)" for x
    by (cases x) (simp_all add: show_opt_def int_str_word)
  show ?thesis using words_word_space[OF w, of "CHR '' ''"] None by (simp add: flow_method_def char_class_defs)
next
  case (Some meth)
  have "word_ok (method_value meth)" by (cases meth) (simp_all add: word_ok_def char_class_defs)
  from words_word[OF this] Some show ?thesis by (simp add: flow_method_def)
qed

section \<open>Properties\<close>

text \<open>C17. The tracker keeps one log per call: after any sequence of messages the flow of a call has the entries it
  had before, or none if it is new, followed by the entries of exactly the messages with that Call-ID, in order,
  with the flow's own address as source of sent and destination of received messages; other flows are as before.\<close>

theorem tracker_logs_calls:
  "get_call_flow cid (fold track xs t) =
     (if \<exists>x \<in> set xs. tk_call x = cid
      then Some (extend_flow (map (tracked_entry (cf_local_address (flow_or_new cid t))) (filter (\<lambda>x. tk_call x = cid) xs)) (flow_or_new cid t))
      else get_call_flow cid t)"
  by (rule fold_track_get)


definition example_flow :: SIPCallFlow where
  "example_flow =
     add_inbound_message ''10:00:01.%f'' 0 ''h:1'' (new_message\<lparr>status_code := Some 200, reason_phrase := Some ''OK''\<rparr>) None None
      (add_outbound_message ''10:00:00.%f'' 0 ''h:1'' (new_message\<lparr>method := Some BYE\<rparr>) None None (new_call_flow ''c'' ''l:1'' ''r:1''))"


text \<open>With a wildcard local address a message received from the remote address itself is drawn from the remote
  column to the remote column: its destination contains the wildcard and is taken for the remote side.\<close>

theorem wildcard_self_arrow:
  assumes "contains ''0.0.0.0'' (cf_local_address f)" and "cf_local_address f \<noteq> cf_remote_address f"
  shows "entry_columns f (flow_entry strf now ''inbound'' (cf_remote_address f) (cf_local_address f) m tid summary) = (1, 1)"
  using assms by (simp add: entry_columns_def map_addresses_def flow_participants_def flow_entry_def Let_def)

theorem wildcard_self_arrow_witness:
  "entry_columns (new_call_flow ''c'' ''0.0.0.0:5060'' ''10.0.0.9:5060'')
     (flow_entry ''t'' 0 ''inbound'' ''10.0.0.9:5060'' ''0.0.0.0:5060'' new_message None None) = (1, 1)"
proof -
  have "contains ''0.0.0.0'' ''0.0.0.0:5060''" by code_simp
  then show ?thesis
    using wildcard_self_arrow[of "new_call_flow ''c'' ''0.0.0.0:5060'' ''10.0.0.9:5060''" "''t''" 0 new_message None None]
    by (simp add: new_call_flow_def)
qed

end
