(* ===== verification/Fsm_Transaction.thy ===== *)
theory Fsm_Transaction
  imports Complex_Main Sip_Message
begin

text \<open>
  SIP transactions (\<open>fsm.py\<close>, the enumerations, \<open>SIPTimers\<close>, \<open>SIPTransaction\<close> and its four subclasses).
  A handler of the code is a sequence of actions between awaits, chosen by the state and the message when
  it starts; here it is the list of these actions, and one function runs an action on a transaction. A
  raised exception drops the rest of the list. A callback is an action that only reports what is called;
  the user agent gives it its meaning.
\<close>

section \<open>States, timers, transactions\<close>

datatype TxState = INITIAL | TRYING | PROCEEDING | COMPLETED | ACCEPTED | CONFIRMED | TERMINATED

datatype TxKind = INVITE_CLIENT | INVITE_SERVER | NON_INVITE_CLIENT | NON_INVITE_SERVER

datatype TimerType =
    TIMER_E | TIMER_F | TIMER_K
  | TIMER_A | TIMER_B | TIMER_D | TIMER_G | TIMER_H | TIMER_I
  | TIMER_J | TIMER_L | TIMER_M

record SIPTimers =
  T1 :: rat
  T2 :: rat
  T4 :: rat

definition default_timers :: SIPTimers where
  "default_timers = \<lparr>T1 = 1 / 2, T2 = 4, T4 = 5\<rparr>"

fun timer_value :: "SIPTimers \<Rightarrow> TimerType \<Rightarrow> rat" where
  "timer_value c TIMER_A = T1 c"
| "timer_value c TIMER_B = 64 * T1 c"
| "timer_value c TIMER_D = 32"
| "timer_value c TIMER_E = T1 c"
| "timer_value c TIMER_F = 64 * T1 c"
| "timer_value c TIMER_G = T1 c"
| "timer_value c TIMER_H = 64 * T1 c"
| "timer_value c TIMER_I = T4 c"
| "timer_value c TIMER_J = 64 * T1 c"
| "timer_value c TIMER_K = T4 c"
| "timer_value c TIMER_L = 64 * T1 c"
| "timer_value c TIMER_M = 64 * T1 c"

text \<open>
  A transaction. \<open>active_timers\<close> holds the timers that are running, with their durations: a task that has
  finished stays in the code's table, where cancelling it has no effect. \<open>cleanups\<close> counts the clean-up
  tasks that were created and have not run.
\<close>

record Tx =
  tx_id :: string
  kind :: TxKind
  state :: TxState
  timers :: "SIPTimers option"
  request :: "SIPMessage option"
  response :: "SIPMessage option"
  active_timers :: "(TimerType, rat) dict"
  terminated_event :: bool
  retransmission_count :: nat
  cleanups :: nat

definition max_retransmissions :: nat where
  "max_retransmissions = 7"

text \<open>
  \<open>self.timers = timers or SIPTimers()\<close> is overwritten by \<open>self.timers = timers\<close>: the argument is stored as
  it is, None included.
\<close>

definition new_tx :: "string \<Rightarrow> TxKind \<Rightarrow> SIPTimers option \<Rightarrow> Tx" where
  "new_tx i k c = \<lparr>tx_id = i, kind = k, state = INITIAL, timers = c, request = None, response = None,
     active_timers = [], terminated_event = False, retransmission_count = 0, cleanups = 0\<rparr>"

section \<open>Where messages are sent\<close>

definition via_rx :: rx where
  "via_rx = rx_seq [rx_lit ''SIP/2.0/'', RRep1 is_word, RRep1 is_space,
     RGrp 1 (RRep1 (\<lambda>c. c \<noteq> CHR '';'' \<and> c \<noteq> CHR '':'' \<and> \<not> is_space c)),
     ROpt (RSeq (RChr (\<lambda>c. c = CHR '':'')) (RGrp 2 (RRep1 is_digit)))]"

text \<open>An address: host and port.\<close>

type_synonym address = "string \<times> int"

definition via_address :: "string \<Rightarrow> address option" where
  "via_address via =
     (case rx_search via_rx via of
        Some m \<Rightarrow> Some (the (group_of m 1),
          if truthy_str (group_of m 2) then the (int_of_str (the (group_of m 2))) else 5060)
      | None \<Rightarrow> None)"

definition uri_address :: "SIPURI option \<Rightarrow> address" where
  "uri_address u =
     (case u of
        Some v \<Rightarrow> (host v, if truthy_int (uri_port v) then the (uri_port v) else 5060)
      | None \<Rightarrow> (''127.0.0.1'', 5060))"

definition extract_destination :: "SIPMessage \<Rightarrow> address" where
  "extract_destination req =
     (let via = get_header req ''via'' in
      if truthy_str via
      then (case via_address (the via) of Some a \<Rightarrow> a | None \<Rightarrow> uri_address (uri req))
      else uri_address (uri req))"

definition extract_response_destination :: "SIPMessage \<Rightarrow> address" where
  "extract_response_destination resp =
     (let via = get_header resp ''via'' in
      if truthy_str via
      then (case via_address (the via) of Some a \<Rightarrow> a | None \<Rightarrow> (''127.0.0.1'', 5060))
      else (''127.0.0.1'', 5060))"

section \<open>Actions\<close>

datatype tx_callback =
    OnProvisional SIPMessage
  | OnFinal SIPMessage
  | OnRequest SIPMessage
  | OnTimeout TimerType
  | OnTransportError
  | OnTerminated

datatype tx_action =
    SetRequest SIPMessage
  | SetResponse SIPMessage
  | Transition TxState
  | StartTimer TimerType
  | CancelTimer TimerType
  | SendRequest
  | SendResponse
  | Retransmit TimerType
  | Raise py_error
  | Notify tx_callback

text \<open>What a transaction does to the outside: a message handed to the transport, or a callback.\<close>

datatype tx_out = Sent string address | Callback tx_callback

definition transition_to :: "TxState \<Rightarrow> Tx \<Rightarrow> Tx" where
  "transition_to s t =
     (let t1 = t\<lparr>state := s\<rparr> in
      if s = TERMINATED then t1\<lparr>terminated_event := True, cleanups := cleanups t + 1\<rparr> else t1)"

definition start_timer :: "TimerType \<Rightarrow> rat \<Rightarrow> Tx \<Rightarrow> Tx" where
  "start_timer ty d t = t\<lparr>active_timers := dict_set ty d (active_timers t)\<rparr>"

definition cancel_timer :: "TimerType \<Rightarrow> Tx \<Rightarrow> Tx" where
  "cancel_timer ty t = t\<lparr>active_timers := dict_del ty (active_timers t)\<rparr>"

text \<open>The first argument tells for each message and address whether the transport accepts it.\<close>

type_synonym network = "string \<Rightarrow> address \<Rightarrow> bool"

definition send_raw :: "network \<Rightarrow> string \<Rightarrow> address \<Rightarrow> tx_out list" where
  "send_raw net raw a = (if net raw a then [Sent raw a] else [Callback OnTransportError])"

definition send_request :: "network \<Rightarrow> Tx \<Rightarrow> tx_out list" where
  "send_request net t =
     (case request t of
        None \<Rightarrow> []
      | Some r \<Rightarrow> send_raw net (message_str r) (extract_destination r))"

definition send_response :: "network \<Rightarrow> Tx \<Rightarrow> tx_out list" where
  "send_response net t =
     (case response t of
        None \<Rightarrow> []
      | Some r \<Rightarrow> send_raw net (message_str r) (extract_response_destination r))"

definition is_client :: "TxKind \<Rightarrow> bool" where
  "is_client k = (k = INVITE_CLIENT \<or> k = NON_INVITE_CLIENT)"

definition backoff :: "SIPTimers \<Rightarrow> nat \<Rightarrow> rat" where
  "backoff c n = min (T2 c) (2 ^ n * T1 c)"

definition handle_retransmission :: "network \<Rightarrow> TimerType \<Rightarrow> Tx \<Rightarrow> Tx \<times> tx_out list \<times> unit res" where
  "handle_retransmission net ty t =
     (if retransmission_count t \<ge> max_retransmissions then (transition_to TERMINATED t, [], Inr ())
      else
        let t1 = t\<lparr>retransmission_count := retransmission_count t + 1\<rparr>;
            out = (if is_client (kind t) then send_request net t1 else send_response net t1)
        in case timers t of
             None \<Rightarrow> (t1, out, Inl AttributeError)
           | Some c \<Rightarrow> (start_timer ty (backoff c (retransmission_count t1)) t1, out, Inr ()))"

fun exec_action :: "network \<Rightarrow> tx_action \<Rightarrow> Tx \<Rightarrow> Tx \<times> tx_out list \<times> unit res" where
  "exec_action net (SetRequest r) t = (t\<lparr>request := Some r\<rparr>, [], Inr ())"
| "exec_action net (SetResponse r) t = (t\<lparr>response := Some r\<rparr>, [], Inr ())"
| "exec_action net (Transition s) t = (transition_to s t, [], Inr ())"
| "exec_action net (StartTimer ty) t =
     (case timers t of
        None \<Rightarrow> (t, [], Inl AttributeError)
      | Some c \<Rightarrow> (start_timer ty (timer_value c ty) t, [], Inr ()))"
| "exec_action net (CancelTimer ty) t = (cancel_timer ty t, [], Inr ())"
| "exec_action net SendRequest t = (t, send_request net t, Inr ())"
| "exec_action net SendResponse t = (t, send_response net t, Inr ())"
| "exec_action net (Retransmit ty) t = handle_retransmission net ty t"
| "exec_action net (Raise e) t = (t, [], Inl e)"
| "exec_action net (Notify c) t = (t, [Callback c], Inr ())"

fun exec_actions :: "network \<Rightarrow> tx_action list \<Rightarrow> Tx \<Rightarrow> Tx \<times> tx_out list \<times> unit res" where
  "exec_actions net [] t = (t, [], Inr ())"
| "exec_actions net (a # as) t =
     (case exec_action net a t of
        (t1, o1, Inl e) \<Rightarrow> (t1, o1, Inl e)
      | (t1, o1, Inr _) \<Rightarrow> (case exec_actions net as t1 of (t2, o2, r) \<Rightarrow> (t2, o1 @ o2, r)))"

section \<open>Handlers common to all transactions\<close>

definition on_timer_fired :: "TimerType \<Rightarrow> tx_action list" where
  "on_timer_fired ty =
     [Notify (OnTimeout ty)]
     @ (if ty \<in> set [TIMER_B, TIMER_F] then [Transition TERMINATED]
        else if ty \<in> set [TIMER_D, TIMER_I, TIMER_J, TIMER_K] then [Transition TERMINATED]
        else if ty \<in> set [TIMER_A, TIMER_E, TIMER_G] then [Retransmit ty]
        else [])"

text \<open>A timer task that wakes up is over; then it runs the handler.\<close>

definition fire_timer :: "network \<Rightarrow> TimerType \<Rightarrow> Tx \<Rightarrow> Tx \<times> tx_out list \<times> unit res" where
  "fire_timer net ty t = exec_actions net (on_timer_fired ty) (cancel_timer ty t)"

definition cleanup :: "Tx \<Rightarrow> Tx \<times> tx_out list" where
  "cleanup t = (t\<lparr>active_timers := [], cleanups := cleanups t - 1\<rparr>, [Callback OnTerminated])"

section \<open>Client transactions\<close>

definition invite_client_start :: "SIPMessage \<Rightarrow> tx_action list" where
  "invite_client_start req =
     [SetRequest req, Transition TRYING, SendRequest, StartTimer TIMER_A, StartTimer TIMER_B]"

definition invite_client_process :: "TxState \<Rightarrow> SIPMessage \<Rightarrow> tx_action list" where
  "invite_client_process st resp =
     (case status_code resp of
        None \<Rightarrow> []
      | Some sc \<Rightarrow>
          if st = TRYING then
            if 100 \<le> sc \<and> sc \<le> 199 then
              [Transition PROCEEDING, CancelTimer TIMER_A, Notify (OnProvisional resp)]
            else if 200 \<le> sc \<and> sc \<le> 299 then
              [Transition ACCEPTED, CancelTimer TIMER_A, CancelTimer TIMER_B, Notify (OnFinal resp), StartTimer TIMER_L]
            else if sc \<ge> 300 then
              [Transition COMPLETED, CancelTimer TIMER_A, CancelTimer TIMER_B, Notify (OnFinal resp), StartTimer TIMER_D]
            else []
          else if st = PROCEEDING then
            if 200 \<le> sc \<and> sc \<le> 299 then [Transition ACCEPTED, Notify (OnFinal resp), StartTimer TIMER_L]
            else if sc \<ge> 300 then [Transition COMPLETED, Notify (OnFinal resp), StartTimer TIMER_D]
            else [Notify (OnProvisional resp)]
          else [])"

definition non_invite_client_start :: "SIPMessage \<Rightarrow> tx_action list" where
  "non_invite_client_start req =
     [SetRequest req, Transition TRYING, SendRequest, StartTimer TIMER_E, StartTimer TIMER_F]"

definition non_invite_client_process :: "TxState \<Rightarrow> SIPMessage \<Rightarrow> tx_action list" where
  "non_invite_client_process st resp =
     (case status_code resp of
        None \<Rightarrow> []
      | Some sc \<Rightarrow>
          if st = TRYING then
            if 100 \<le> sc \<and> sc \<le> 199 then
              [Transition PROCEEDING, CancelTimer TIMER_E, Notify (OnProvisional resp)]
            else if sc \<ge> 200 then
              [Transition TERMINATED, CancelTimer TIMER_E, CancelTimer TIMER_F, Notify (OnFinal resp)]
            else []
          else if st = PROCEEDING then
            if sc \<ge> 200 then [Transition TERMINATED, Notify (OnFinal resp)]
            else [Notify (OnProvisional resp)]
          else [])"

section \<open>Server transactions\<close>

text \<open>\<open>_create_response\<close>; the first argument is the identity of the new message object.\<close>

definition tx_create_response :: "int \<Rightarrow> SIPMessage option \<Rightarrow> int \<Rightarrow> string \<Rightarrow> string option \<Rightarrow> SIPMessage res" where
  "tx_create_response ident req sc reason bd =
     (case req of
        None \<Rightarrow> Inl ValueError
      | Some r \<Rightarrow>
          (let m = create_response ident sc (Some reason) (Some r) [] None
           in Inr (if truthy_str bd then set_body (BStr (the bd)) ''application/sdp'' m else m)))"

text \<open>An action list that starts with building a response.\<close>

definition with_response :: "SIPMessage res \<Rightarrow> (SIPMessage \<Rightarrow> tx_action list) \<Rightarrow> tx_action list" where
  "with_response r f = (case r of Inl e \<Rightarrow> [Raise e] | Inr m \<Rightarrow> f m)"

definition invite_server_start :: "SIPMessage \<Rightarrow> tx_action list" where
  "invite_server_start req = [SetRequest req, Transition PROCEEDING, Notify (OnRequest req)]"

definition invite_server_provisional :: "int \<Rightarrow> int \<Rightarrow> string \<Rightarrow> Tx \<Rightarrow> tx_action list" where
  "invite_server_provisional ident sc reason t =
     (if state t \<noteq> PROCEEDING then []
      else with_response (tx_create_response ident (request t) sc reason None)
        (\<lambda>m. [SetResponse m, SendResponse]))"

definition invite_server_final :: "int \<Rightarrow> int \<Rightarrow> string \<Rightarrow> string option \<Rightarrow> Tx \<Rightarrow> tx_action list" where
  "invite_server_final ident sc reason bd t =
     (if state t \<noteq> PROCEEDING then []
      else with_response (tx_create_response ident (request t) sc reason bd)
        (\<lambda>m. (if 200 \<le> sc \<and> sc \<le> 299 then [Transition ACCEPTED, StartTimer TIMER_L]
              else [Transition COMPLETED, StartTimer TIMER_H, StartTimer TIMER_G])
             @ [SetResponse m, SendResponse]))"

definition invite_server_process :: "SIPMessage \<Rightarrow> Tx \<Rightarrow> tx_action list" where
  "invite_server_process msg t =
     (if is_request msg then
        if method msg = Some ACK then
          if state t = ACCEPTED then [Transition CONFIRMED, CancelTimer TIMER_L, StartTimer TIMER_I]
          else if state t = COMPLETED then
            [Transition CONFIRMED, CancelTimer TIMER_G, CancelTimer TIMER_H, StartTimer TIMER_I]
          else []
        else if state t = PROCEEDING then
          (case response t of Some r \<Rightarrow> [SetResponse r, SendResponse] | None \<Rightarrow> [])
        else []
      else [])"

definition non_invite_server_start :: "SIPMessage \<Rightarrow> tx_action list" where
  "non_invite_server_start req = [SetRequest req, Transition TRYING, Notify (OnRequest req)]"

definition non_invite_server_provisional :: "int \<Rightarrow> int \<Rightarrow> string \<Rightarrow> Tx \<Rightarrow> tx_action list" where
  "non_invite_server_provisional ident sc reason t =
     (if state t \<noteq> TRYING then []
      else [Transition PROCEEDING]
        @ with_response (tx_create_response ident (request t) sc reason None) (\<lambda>m. [SetResponse m, SendResponse]))"

definition non_invite_server_final :: "int \<Rightarrow> int \<Rightarrow> string \<Rightarrow> string option \<Rightarrow> Tx \<Rightarrow> tx_action list" where
  "non_invite_server_final ident sc reason bd t =
     (if state t \<noteq> TRYING \<and> state t \<noteq> PROCEEDING then []
      else [Transition COMPLETED]
        @ with_response (tx_create_response ident (request t) sc reason bd)
            (\<lambda>m. [SetResponse m, SendResponse, StartTimer TIMER_J]))"

definition non_invite_server_process :: "SIPMessage \<Rightarrow> Tx \<Rightarrow> tx_action list" where
  "non_invite_server_process msg t =
     (if state t = COMPLETED
      then (case response t of Some r \<Rightarrow> [SetResponse r, SendResponse] | None \<Rightarrow> [])
      else [])"

section \<open>Dispatch on the class\<close>

definition tx_start :: "TxKind \<Rightarrow> SIPMessage \<Rightarrow> tx_action list" where
  "tx_start k m =
     (case k of
        INVITE_CLIENT \<Rightarrow> invite_client_start m
      | NON_INVITE_CLIENT \<Rightarrow> non_invite_client_start m
      | INVITE_SERVER \<Rightarrow> invite_server_start m
      | NON_INVITE_SERVER \<Rightarrow> non_invite_server_start m)"

definition tx_process :: "SIPMessage \<Rightarrow> Tx \<Rightarrow> tx_action list" where
  "tx_process m t =
     (case kind t of
        INVITE_CLIENT \<Rightarrow> invite_client_process (state t) m
      | NON_INVITE_CLIENT \<Rightarrow> non_invite_client_process (state t) m
      | INVITE_SERVER \<Rightarrow> invite_server_process m t
      | NON_INVITE_SERVER \<Rightarrow> non_invite_server_process m t)"

text \<open>\<open>hasattr(tx, "send_final_response")\<close> holds for the server classes.\<close>

definition tx_final :: "int \<Rightarrow> int \<Rightarrow> string \<Rightarrow> string option \<Rightarrow> Tx \<Rightarrow> tx_action list" where
  "tx_final ident sc reason bd t =
     (case kind t of
        INVITE_SERVER \<Rightarrow> invite_server_final ident sc reason bd t
      | NON_INVITE_SERVER \<Rightarrow> non_invite_server_final ident sc reason bd t
      | _ \<Rightarrow> [])"

definition tx_provisional :: "int \<Rightarrow> int \<Rightarrow> string \<Rightarrow> Tx \<Rightarrow> tx_action list" where
  "tx_provisional ident sc reason t =
     (case kind t of
        INVITE_SERVER \<Rightarrow> invite_server_provisional ident sc reason t
      | NON_INVITE_SERVER \<Rightarrow> non_invite_server_provisional ident sc reason t
      | _ \<Rightarrow> [])"

section \<open>Steps of a transaction\<close>

datatype tx_input =
    Receive SIPMessage
  | Fire TimerType
  | AppFinal int int string "string option"
  | AppProvisional int int string
  | Cleanup

text \<open>What one input does; None when it cannot happen.\<close>

definition tx_react :: "network \<Rightarrow> tx_input \<Rightarrow> Tx \<Rightarrow> (Tx \<times> tx_out list) option" where
  "tx_react net i t =
     (let done = (\<lambda>(t', out, r). Some (t', out)) in
      case i of
        Receive m \<Rightarrow> done (exec_actions net (tx_process m t) t)
      | Fire ty \<Rightarrow> if dict_get (active_timers t) ty = None then None else done (fire_timer net ty t)
      | AppFinal ident sc reason bd \<Rightarrow> done (exec_actions net (tx_final ident sc reason bd t) t)
      | AppProvisional ident sc reason \<Rightarrow> done (exec_actions net (tx_provisional ident sc reason t) t)
      | Cleanup \<Rightarrow> if cleanups t = 0 then None else Some (cleanup t))"

inductive tx_step :: "Tx \<Rightarrow> Tx \<Rightarrow> bool" where
  step: "tx_react net i t = Some (t', out) \<Longrightarrow> tx_step t t'"

inductive tx_reach :: "Tx \<Rightarrow> Tx \<Rightarrow> bool" for t0 :: Tx where
  refl: "tx_reach t0 t0"
| step: "tx_reach t0 t \<Longrightarrow> tx_step t t' \<Longrightarrow> tx_reach t0 t'"

inductive_cases tx_stepE: "tx_step t t'"

section \<open>Facts about actions\<close>

lemma transition_to_simps [simp]:
  "state (transition_to s t) = s" "kind (transition_to s t) = kind t" "tx_id (transition_to s t) = tx_id t"
  "timers (transition_to s t) = timers t" "request (transition_to s t) = request t"
  "response (transition_to s t) = response t" "active_timers (transition_to s t) = active_timers t"
  "retransmission_count (transition_to s t) = retransmission_count t"
  "terminated_event (transition_to s t) = (if s = TERMINATED then True else terminated_event t)"
  "cleanups (transition_to s t) = (if s = TERMINATED then Suc (cleanups t) else cleanups t)"
  by (simp_all add: transition_to_def Let_def)

lemma start_timer_simps [simp]:
  "state (start_timer ty d t) = state t" "kind (start_timer ty d t) = kind t" "timers (start_timer ty d t) = timers t"
  "tx_id (start_timer ty d t) = tx_id t" "request (start_timer ty d t) = request t"
  "response (start_timer ty d t) = response t" "cleanups (start_timer ty d t) = cleanups t"
  "retransmission_count (start_timer ty d t) = retransmission_count t"
  "terminated_event (start_timer ty d t) = terminated_event t"
  "active_timers (start_timer ty d t) = dict_set ty d (active_timers t)"
  by (simp_all add: start_timer_def)

lemma cancel_timer_simps [simp]:
  "state (cancel_timer ty t) = state t" "kind (cancel_timer ty t) = kind t" "timers (cancel_timer ty t) = timers t"
  "tx_id (cancel_timer ty t) = tx_id t" "request (cancel_timer ty t) = request t"
  "response (cancel_timer ty t) = response t" "cleanups (cancel_timer ty t) = cleanups t"
  "retransmission_count (cancel_timer ty t) = retransmission_count t"
  "terminated_event (cancel_timer ty t) = terminated_event t"
  "active_timers (cancel_timer ty t) = dict_del ty (active_timers t)"
  by (simp_all add: cancel_timer_def)

lemma exec_keeps:
  "kind (fst (exec_action net a t)) = kind t \<and> timers (fst (exec_action net a t)) = timers t \<and>
   tx_id (fst (exec_action net a t)) = tx_id t"
  by (cases a) (auto simp: handle_retransmission_def Let_def split: option.split)

lemma exec_actions_fst:
  "fst (exec_actions net (a # as) t) =
     (case snd (snd (exec_action net a t)) of
        Inl e \<Rightarrow> fst (exec_action net a t)
      | Inr _ \<Rightarrow> fst (exec_actions net as (fst (exec_action net a t))))"
  by (simp split: prod.split sum.split)

lemma exec_actions_keep:
  "kind (fst (exec_actions net as t)) = kind t \<and> timers (fst (exec_actions net as t)) = timers t \<and>
   tx_id (fst (exec_actions net as t)) = tx_id t"
proof (induction as arbitrary: t)
  case (Cons a as)
  show ?case
    unfolding exec_actions_fst using Cons[of "fst (exec_action net a t)"] exec_keeps[of net a t]
    by (simp split: sum.split)
qed simp

lemmas exec_actions_keeps [simp] = conjunct1[OF exec_actions_keep]
  conjunct1[OF conjunct2[OF exec_actions_keep]] conjunct2[OF conjunct2[OF exec_actions_keep]]

section \<open>The contract of a transaction class\<close>

text \<open>How far a transaction has come.\<close>

fun tx_rank :: "TxState \<Rightarrow> nat" where
  "tx_rank INITIAL = 0"
| "tx_rank TRYING = 1"
| "tx_rank PROCEEDING = 2"
| "tx_rank COMPLETED = 3"
| "tx_rank ACCEPTED = 3"
| "tx_rank CONFIRMED = 4"
| "tx_rank TERMINATED = 5"

lemma tx_rank_le [simp]: "tx_rank s \<le> 5"
  by (cases s) simp_all

lemma tx_rank_top: "5 \<le> tx_rank s \<longleftrightarrow> s = TERMINATED"
  by (cases s) simp_all

text \<open>
  The invariant of a transaction, for a table of the timers that may run in each state: only these run, the
  termination event is set exactly in the last state, and the retransmission count keeps to its limit.
\<close>

definition running :: "Tx \<Rightarrow> TimerType set" where
  "running t = set (dict_keys (active_timers t))"

definition tx_inv :: "(TxState \<Rightarrow> TimerType set) \<Rightarrow> Tx \<Rightarrow> bool" where
  "tx_inv tm t =
     (running t \<subseteq> tm (state t) \<and> (terminated_event t \<longleftrightarrow> state t = TERMINATED) \<and>
      retransmission_count t \<le> max_retransmissions)"

definition tx_forward :: "(TxState \<Rightarrow> TimerType set) \<Rightarrow> Tx \<Rightarrow> Tx \<Rightarrow> bool" where
  "tx_forward tm t t' = (tx_inv tm t' \<and> tx_rank (state t) \<le> tx_rank (state t'))"

lemma running_simps [simp]:
  "running (transition_to s t) = running t"
  "running (start_timer ty d t) = insert ty (running t)"
  "running (t\<lparr>request := r\<rparr>) = running t" "running (t\<lparr>response := r'\<rparr>) = running t"
  "running (t\<lparr>retransmission_count := n\<rparr>) = running t"
  by (simp_all add: running_def dict_keys_set insert_absorb)

lemma running_cleared [simp]: "running (t\<lparr>active_timers := [], cleanups := c\<rparr>) = {}"
  by (simp add: running_def dict_keys_def)

lemma running_cancel [simp]: "running (cancel_timer ty t) = running t - {ty}"
proof -
  have "set (dict_keys (dict_del ty d)) = set (dict_keys d) - {ty}" for d :: "(TimerType, rat) dict"
    by (induction d) (auto simp: dict_keys_def)
  then show ?thesis by (simp add: running_def)
qed

locale transaction_class =
  fixes k :: TxKind
    and process :: "SIPMessage \<Rightarrow> Tx \<Rightarrow> tx_action list"
    and final :: "int \<Rightarrow> int \<Rightarrow> string \<Rightarrow> string option \<Rightarrow> Tx \<Rightarrow> tx_action list"
    and provisional :: "int \<Rightarrow> int \<Rightarrow> string \<Rightarrow> Tx \<Rightarrow> tx_action list"
    and tm :: "TxState \<Rightarrow> TimerType set"
  assumes dispatch: "kind t = k \<Longrightarrow> tx_process m t = process m t"
      "kind t = k \<Longrightarrow> tx_final ident sc reason bd t = final ident sc reason bd t"
      "kind t = k \<Longrightarrow> tx_provisional ident sc reason t = provisional ident sc reason t"
    and process_forward: "tx_inv tm t \<Longrightarrow> tx_forward tm t (fst (exec_actions net (process m t) t))"
    and final_forward: "tx_inv tm t \<Longrightarrow> tx_forward tm t (fst (exec_actions net (final ident sc reason bd t) t))"
    and provisional_forward:
      "tx_inv tm t \<Longrightarrow> tx_forward tm t (fst (exec_actions net (provisional ident sc reason t) t))"
    and last_timers: "tm s \<subseteq> tm TERMINATED"
begin

lemma fire_forward:
  assumes "tx_inv tm t" and "dict_get (active_timers t) ty \<noteq> None"
  shows "tx_forward tm t (fst (fire_timer net ty t))"
proof -
  have "ty \<in> running t" using assms(2) by (simp add: running_def dict_get_None_iff)
  with assms(1) have ty: "ty \<in> tm (state t)" by (auto simp: tx_inv_def)
  with assms(1) last_timers[of "state t"] show ?thesis
    by (cases ty)
      (auto simp: fire_timer_def on_timer_fired_def tx_forward_def tx_inv_def handle_retransmission_def Let_def
        max_retransmissions_def split: option.splits if_splits)
qed

lemma react_forward:
  assumes "kind t = k" and "tx_inv tm t" and "tx_react net i t = Some (t', out)"
  shows "kind t' = k \<and> tx_forward tm t t'"
proof (cases i)
  case (Receive m)
  then have "t' = fst (exec_actions net (process m t) t)"
    using assms(1,3) dispatch by (auto simp: tx_react_def split_beta)
  with process_forward[OF assms(2)] assms(1) show ?thesis by simp
next
  case (Fire ty)
  then have f: "dict_get (active_timers t) ty \<noteq> None" "t' = fst (fire_timer net ty t)"
    using assms(3) by (auto simp: tx_react_def split_beta split: if_splits)
  with fire_forward[OF assms(2), of ty net] assms(1) show ?thesis by (simp add: fire_timer_def)
next
  case (AppFinal ident sc reason bd)
  then have "t' = fst (exec_actions net (final ident sc reason bd t) t)"
    using assms(1,3) dispatch by (auto simp: tx_react_def split_beta)
  with final_forward[OF assms(2)] assms(1) show ?thesis by simp
next
  case (AppProvisional ident sc reason)
  then have "t' = fst (exec_actions net (provisional ident sc reason t) t)"
    using assms(1,3) dispatch by (auto simp: tx_react_def split_beta)
  with provisional_forward[OF assms(2)] assms(1) show ?thesis by simp
next
  case Cleanup
  then have "t' = t\<lparr>active_timers := [], cleanups := cleanups t - 1\<rparr>"
    using assms(3) by (auto simp: tx_react_def cleanup_def split: if_splits)
  with assms(1,2) show ?thesis by (simp add: tx_forward_def tx_inv_def)
qed

lemma reach_forward:
  assumes "tx_reach t0 t" and "kind t0 = k" and "tx_inv tm t0"
  shows "kind t = k \<and> tx_forward tm t0 t"
  using assms
proof (induction rule: tx_reach.induct)
  case refl
  then show ?case by (simp add: tx_forward_def)
next
  case (step t t')
  then obtain net i out where "tx_react net i t = Some (t', out)" by (auto elim: tx_stepE)
  with react_forward[of t net i t' out] step show ?case by (auto simp: tx_forward_def)
qed

end

section \<open>The four classes\<close>

definition no_final :: "int \<Rightarrow> int \<Rightarrow> string \<Rightarrow> string option \<Rightarrow> Tx \<Rightarrow> tx_action list" where
  "no_final ident sc reason bd t = []"

definition no_provisional :: "int \<Rightarrow> int \<Rightarrow> string \<Rightarrow> Tx \<Rightarrow> tx_action list" where
  "no_provisional ident sc reason t = []"

fun invite_client_timers :: "TxState \<Rightarrow> TimerType set" where
  "invite_client_timers TRYING = {TIMER_A, TIMER_B}"
| "invite_client_timers PROCEEDING = {TIMER_B}"
| "invite_client_timers ACCEPTED = {TIMER_B, TIMER_L}"
| "invite_client_timers COMPLETED = {TIMER_B, TIMER_D}"
| "invite_client_timers TERMINATED = {TIMER_A, TIMER_B, TIMER_D, TIMER_L}"
| "invite_client_timers _ = {}"

fun non_invite_client_timers :: "TxState \<Rightarrow> TimerType set" where
  "non_invite_client_timers TRYING = {TIMER_E, TIMER_F}"
| "non_invite_client_timers PROCEEDING = {TIMER_F}"
| "non_invite_client_timers TERMINATED = {TIMER_E, TIMER_F}"
| "non_invite_client_timers _ = {}"

fun invite_server_timers :: "TxState \<Rightarrow> TimerType set" where
  "invite_server_timers ACCEPTED = {TIMER_L}"
| "invite_server_timers COMPLETED = {TIMER_G, TIMER_H}"
| "invite_server_timers CONFIRMED = {TIMER_I}"
| "invite_server_timers TERMINATED = {TIMER_G, TIMER_H, TIMER_I, TIMER_L}"
| "invite_server_timers _ = {}"

fun non_invite_server_timers :: "TxState \<Rightarrow> TimerType set" where
  "non_invite_server_timers COMPLETED = {TIMER_J}"
| "non_invite_server_timers TERMINATED = {TIMER_J}"
| "non_invite_server_timers _ = {}"

lemmas tx_run_simps = tx_forward_def tx_inv_def with_response_def max_retransmissions_def

interpretation ict: transaction_class INVITE_CLIENT "\<lambda>m t. invite_client_process (state t) m"
  no_final no_provisional invite_client_timers
proof
  show "tx_forward invite_client_timers t (fst (exec_actions net (invite_client_process (state t) m) t))"
    if "tx_inv invite_client_timers t" for t net m
    using that
    by (cases "state t"; cases "status_code m"; cases "timers t")
      (auto simp: invite_client_process_def tx_run_simps)
  show "invite_client_timers s \<subseteq> invite_client_timers TERMINATED" for s by (cases s) auto
qed (auto simp: tx_process_def tx_final_def tx_provisional_def no_final_def no_provisional_def tx_forward_def)

interpretation nict: transaction_class NON_INVITE_CLIENT "\<lambda>m t. non_invite_client_process (state t) m"
  no_final no_provisional non_invite_client_timers
proof
  show "tx_forward non_invite_client_timers t (fst (exec_actions net (non_invite_client_process (state t) m) t))"
    if "tx_inv non_invite_client_timers t" for t net m
    using that
    by (cases "state t"; cases "status_code m"; cases "timers t")
      (auto simp: non_invite_client_process_def tx_run_simps)
  show "non_invite_client_timers s \<subseteq> non_invite_client_timers TERMINATED" for s by (cases s) auto
qed (auto simp: tx_process_def tx_final_def tx_provisional_def no_final_def no_provisional_def tx_forward_def)

interpretation ist: transaction_class INVITE_SERVER invite_server_process invite_server_final
  invite_server_provisional invite_server_timers
proof
  show "tx_forward invite_server_timers t (fst (exec_actions net (invite_server_process m t) t))"
    if "tx_inv invite_server_timers t" for t net m
    using that
    by (cases "state t"; cases "response t"; cases "timers t") (auto simp: invite_server_process_def tx_run_simps)
  show "tx_forward invite_server_timers t (fst (exec_actions net (invite_server_final ident sc reason bd t) t))"
    if "tx_inv invite_server_timers t" for t net ident sc reason bd
    using that
    by (cases "state t"; cases "tx_create_response ident (request t) sc reason bd"; cases "timers t")
      (auto simp: invite_server_final_def tx_run_simps)
  show "tx_forward invite_server_timers t (fst (exec_actions net (invite_server_provisional ident sc reason t) t))"
    if "tx_inv invite_server_timers t" for t net ident sc reason
    using that
    by (cases "state t"; cases "tx_create_response ident (request t) sc reason None")
      (auto simp: invite_server_provisional_def tx_run_simps)
  show "invite_server_timers s \<subseteq> invite_server_timers TERMINATED" for s by (cases s) auto
qed (auto simp: tx_process_def tx_final_def tx_provisional_def)

interpretation nist: transaction_class NON_INVITE_SERVER non_invite_server_process non_invite_server_final
  non_invite_server_provisional non_invite_server_timers
proof
  show "tx_forward non_invite_server_timers t (fst (exec_actions net (non_invite_server_process m t) t))"
    if "tx_inv non_invite_server_timers t" for t net m
    using that
    by (cases "state t"; cases "response t") (auto simp: non_invite_server_process_def tx_run_simps)
  show "tx_forward non_invite_server_timers t (fst (exec_actions net (non_invite_server_final ident sc reason bd t) t))"
    if "tx_inv non_invite_server_timers t" for t net ident sc reason bd
    using that
    by (cases "state t"; cases "tx_create_response ident (request t) sc reason bd"; cases "timers t")
      (auto simp: non_invite_server_final_def tx_run_simps)
  show "tx_forward non_invite_server_timers t (fst (exec_actions net (non_invite_server_provisional ident sc reason t) t))"
    if "tx_inv non_invite_server_timers t" for t net ident sc reason
    using that
    by (cases "state t"; cases "tx_create_response ident (request t) sc reason None")
      (auto simp: non_invite_server_provisional_def tx_run_simps)
  show "non_invite_server_timers s \<subseteq> non_invite_server_timers TERMINATED" for s by (cases s) auto
qed (auto simp: tx_process_def tx_final_def tx_provisional_def)

section \<open>Runs of started transactions\<close>

fun class_timers :: "TxKind \<Rightarrow> TxState \<Rightarrow> TimerType set" where
  "class_timers INVITE_CLIENT = invite_client_timers"
| "class_timers NON_INVITE_CLIENT = non_invite_client_timers"
| "class_timers INVITE_SERVER = invite_server_timers"
| "class_timers NON_INVITE_SERVER = non_invite_server_timers"

definition started :: "network \<Rightarrow> string \<Rightarrow> TxKind \<Rightarrow> SIPTimers option \<Rightarrow> SIPMessage \<Rightarrow> Tx" where
  "started net i k c m = fst (exec_actions net (tx_start k m) (new_tx i k c))"

lemma new_tx_simps [simp]:
  "state (new_tx i k c) = INITIAL" "kind (new_tx i k c) = k" "timers (new_tx i k c) = c"
  "running (new_tx i k c) = {}" "terminated_event (new_tx i k c) = False" "retransmission_count (new_tx i k c) = 0"
  "cleanups (new_tx i k c) = 0" "active_timers (new_tx i k c) = []" "request (new_tx i k c) = None" "response (new_tx i k c) = None"
  by (simp_all add: new_tx_def running_def dict_keys_def)

lemmas tx_start_defs = tx_start_def invite_client_start_def non_invite_client_start_def invite_server_start_def
  non_invite_server_start_def

lemma started_kind [simp]: "kind (started net i k c m) = k" "timers (started net i k c m) = c"
  by (simp_all add: started_def)

lemma started_inv: "tx_inv (class_timers k) (started net i k c m)"
  by (cases k; cases c) (auto simp: started_def tx_start_defs tx_inv_def)

lemma react_forward_kind:
  assumes "tx_inv (class_timers (kind t)) t" and "tx_react net i t = Some (t', out)"
  shows "kind t' = kind t \<and> tx_forward (class_timers (kind t)) t t'"
proof (cases "kind t")
  case INVITE_CLIENT
  from ict.react_forward[OF this _ assms(2)] assms(1) this show ?thesis by simp
next
  case INVITE_SERVER
  from ist.react_forward[OF this _ assms(2)] assms(1) this show ?thesis by simp
next
  case NON_INVITE_CLIENT
  from nict.react_forward[OF this _ assms(2)] assms(1) this show ?thesis by simp
next
  case NON_INVITE_SERVER
  from nist.react_forward[OF this _ assms(2)] assms(1) this show ?thesis by simp
qed

lemma reach_forward_kind:
  assumes "tx_inv (class_timers (kind t)) t" and "tx_reach t t'"
  shows "kind t' = kind t \<and> tx_forward (class_timers (kind t)) t t'"
proof (cases "kind t")
  case INVITE_CLIENT
  from ict.reach_forward[OF assms(2) this] assms(1) this show ?thesis by simp
next
  case INVITE_SERVER
  from ist.reach_forward[OF assms(2) this] assms(1) this show ?thesis by simp
next
  case NON_INVITE_CLIENT
  from nict.reach_forward[OF assms(2) this] assms(1) this show ?thesis by simp
next
  case NON_INVITE_SERVER
  from nist.reach_forward[OF assms(2) this] assms(1) this show ?thesis by simp
qed

text \<open>A run: inputs one after the other, with everything that was sent or reported.\<close>

fun tx_run :: "network \<Rightarrow> tx_input list \<Rightarrow> Tx \<Rightarrow> (Tx \<times> tx_out list) option" where
  "tx_run net [] t = Some (t, [])"
| "tx_run net (i # xs) t =
     (case tx_react net i t of
        None \<Rightarrow> None
      | Some (t1, o1) \<Rightarrow> map_option (\<lambda>r. (fst r, o1 @ snd r)) (tx_run net xs t1))"

definition sends :: "tx_out list \<Rightarrow> nat" where
  "sends outs = length (filter (\<lambda>x. case x of Sent _ _ \<Rightarrow> True | _ \<Rightarrow> False) outs)"

lemma sends_simps [simp]: "sends [] = 0" "sends (Sent r a # outs) = Suc (sends outs)" "sends (Callback c # outs) = sends outs"
  "sends (xs @ ys) = sends xs + sends ys"
  by (simp_all add: sends_def)

lemma sends_request [simp]: "sends (send_request net t) + n \<le> Suc n"
  by (simp add: send_request_def send_raw_def split: option.split)

lemma client_react_sends:
  assumes "is_client (kind t)" and "tx_react net i t = Some (t', out)"
  shows "sends out + retransmission_count t \<le> retransmission_count t'"
proof (cases i)
  case (Fire ty)
  with assms show ?thesis
    by (cases ty)
      (auto simp: tx_react_def fire_timer_def on_timer_fired_def handle_retransmission_def Let_def is_client_def
        sends_request split: option.splits if_splits)
next
  case (Receive m)
  with assms show ?thesis
    by (cases "status_code m"; cases "state t"; cases "timers t")
      (auto simp: tx_react_def tx_process_def invite_client_process_def non_invite_client_process_def is_client_def
        split: if_splits)
qed (use assms in \<open>auto simp: tx_react_def tx_final_def tx_provisional_def is_client_def cleanup_def split: if_splits\<close>)

lemma client_run_sends:
  assumes "tx_run net xs t = Some (t', outs)" and "is_client (kind t)" and "tx_inv (class_timers (kind t)) t"
  shows "sends outs + retransmission_count t \<le> max_retransmissions"
  using assms
proof (induction xs arbitrary: t outs)
  case Nil
  then show ?case by (simp add: tx_inv_def)
next
  case (Cons i xs)
  then obtain t1 o1 o2 where r: "tx_react net i t = Some (t1, o1)" "tx_run net xs t1 = Some (t', o2)" "outs = o1 @ o2"
    by (auto split: option.splits)
  have f: "kind t1 = kind t" "tx_inv (class_timers (kind t)) t1"
    using react_forward_kind[OF Cons.prems(3) r(1)] by (auto simp: tx_forward_def)
  then have "sends o2 + retransmission_count t1 \<le> max_retransmissions" using Cons.IH[OF r(2)] Cons.prems(2) by simp
  with client_react_sends[OF Cons.prems(2) r(1)] r(3) show ?case by simp
qed

text \<open>The timer that drives retransmission in a client transaction.\<close>

definition retransmit_timer :: "TxKind \<Rightarrow> TimerType" where
  "retransmit_timer k = (if k = INVITE_CLIENT then TIMER_A else TIMER_E)"

lemma fire_retransmit:
  assumes "is_client (kind t)" and "timers t = Some c"
    and "dict_get (active_timers t) (retransmit_timer (kind t)) \<noteq> None"
  shows "\<exists>out. tx_react net (Fire (retransmit_timer (kind t))) t = Some
     (let ty = retransmit_timer (kind t); t0 = cancel_timer ty t in
      if retransmission_count t \<ge> 7 then transition_to TERMINATED t0
      else start_timer ty (backoff c (retransmission_count t + 1))
        (t0\<lparr>retransmission_count := retransmission_count t + 1\<rparr>), out)"
  using assms
  by (auto simp: tx_react_def fire_timer_def on_timer_fired_def handle_retransmission_def Let_def
      retransmit_timer_def max_retransmissions_def is_client_def)

lemma tx_run_append:
  "tx_run net (xs @ ys) t =
     (case tx_run net xs t of
        None \<Rightarrow> None
      | Some (t1, o1) \<Rightarrow> map_option (\<lambda>r. (fst r, o1 @ snd r)) (tx_run net ys t1))"
proof (induction xs arbitrary: t)
  case Nil
  then show ?case by (cases "tx_run net ys t") auto
next
  case (Cons i xs)
  then show ?case
    by (cases "tx_react net i t"; cases "tx_run net ys t")
      (auto split: option.split simp: option.map_comp comp_def)
qed

lemma started_client:
  assumes "is_client k"
  shows "state (started net i k (Some c) m) = TRYING" "retransmission_count (started net i k (Some c) m) = 0"
    "dict_get (active_timers (started net i k (Some c) m)) (retransmit_timer k) = Some (T1 c)"
  using assms by (auto simp: started_def tx_start_defs is_client_def retransmit_timer_def)

lemma retransmit_schedule:
  assumes "is_client k"
  shows "n \<le> 7 \<Longrightarrow>
     \<exists>t outs. tx_run net (replicate n (Fire (retransmit_timer k))) (started net i k (Some c) m) = Some (t, outs) \<and>
     kind t = k \<and> timers t = Some c \<and> state t = TRYING \<and> retransmission_count t = n \<and>
     dict_get (active_timers t) (retransmit_timer k) = Some (if n = 0 then T1 c else backoff c n)"
proof (induction n)
  case 0
  show ?case using started_client[OF assms] by simp
next
  case (Suc n)
  then obtain t outs where t: "tx_run net (replicate n (Fire (retransmit_timer k))) (started net i k (Some c) m) = Some (t, outs)"
    "kind t = k" "timers t = Some c" "state t = TRYING" "retransmission_count t = n"
    "dict_get (active_timers t) (retransmit_timer k) \<noteq> None" by auto
  have "\<not> 7 \<le> n" using Suc.prems by simp
  with fire_retransmit[of t c net] t assms obtain o1 where
    "tx_react net (Fire (retransmit_timer k)) t = Some (start_timer (retransmit_timer k) (backoff c (n + 1))
        ((cancel_timer (retransmit_timer k) t)\<lparr>retransmission_count := n + 1\<rparr>), o1)" by (auto simp: Let_def)
  moreover have "replicate (Suc n) x = replicate n x @ [x]" for x :: tx_input by (simp add: replicate_append_same)
  ultimately show ?case using t by (simp add: tx_run_append del: replicate.simps)
qed

lemma accepted_stays:
  assumes "tx_reach t0 t" and "kind t0 = INVITE_CLIENT" and "state t0 = ACCEPTED" and "running t0 \<subseteq> {TIMER_L}"
    and "cleanups t0 = 0"
  shows "kind t = INVITE_CLIENT \<and> state t = ACCEPTED \<and> running t \<subseteq> {TIMER_L} \<and> cleanups t = 0"
  using assms
proof (induction rule: tx_reach.induct)
  case (step t t')
  then obtain net i out where r: "tx_react net i t = Some (t', out)" by (auto elim: tx_stepE)
  have t: "kind t = INVITE_CLIENT" "state t = ACCEPTED" "running t \<subseteq> {TIMER_L}" "cleanups t = 0" using step by auto
  show ?case
  proof (cases i)
    case (Fire ty)
    with r have "ty \<in> running t" by (auto simp: tx_react_def running_def dict_get_None_iff split: if_splits)
    with t have "ty = TIMER_L" by blast
    with r t Fire show ?thesis
      by (auto simp: tx_react_def fire_timer_def on_timer_fired_def split: if_splits)
  next
    case (Receive m)
    with r t show ?thesis
      by (cases "status_code m") (auto simp: tx_react_def tx_process_def invite_client_process_def)
  qed (use r t in \<open>auto simp: tx_react_def tx_final_def tx_provisional_def split: if_splits\<close>)
qed simp

section \<open>Properties\<close>











text \<open>With the default arguments a client transaction breaks when it starts: no timer configuration is
  stored, so after the request has been handed to the transport the start of the retransmission timer
  raises an attribute error, and no timer ever runs.\<close>

theorem default_timers_missing:
  assumes "is_client k"
  shows "\<exists>t out. exec_actions net (tx_start k m) (new_tx i k None) = (t, out, Inl AttributeError) \<and>
    out = send_raw net (message_str m) (extract_destination m) \<and> running t = {} \<and> state t = TRYING"
  using assms by (auto simp: tx_start_defs is_client_def send_request_def)

theorem default_timers_missing_witness:
  "\<exists>t out. exec_actions (\<lambda>_ _. True) (tx_start NON_INVITE_CLIENT options_example) (new_tx ''t'' NON_INVITE_CLIENT None)
     = (t, out, Inl AttributeError)"
  using default_timers_missing[of NON_INVITE_CLIENT "\<lambda>_ _. True" options_example "''t''"] by (auto simp: is_client_def)

end
