(* ===== verification/Digest_Auth.thy ===== *)
theory Digest_Auth
  imports Sip_Message
begin

text \<open>
  Digest authentication (\<open>auth.py\<close>): the challenge parser, the computation of the response, the nonce
  counters and the authenticated copy of a request. The hash functions, the client nonce and the new
  branch are arguments. The facts show that a server that recomputes the response from the header
  accepts it, that nonce counts go up by one, and what the copy of the request keeps.
\<close>

section \<open>State\<close>

text \<open>The two hash functions of \<open>hashlib\<close> the code calls, from bytes to a text of hexadecimal digits.\<close>

record hashes =
  md5 :: "byte list \<Rightarrow> string"
  sha256 :: "byte list \<Rightarrow> string"

record auth_state =
  credentials :: "(string, string \<times> string) dict"
  nonce_count :: "(string, int) dict"

definition new_auth :: auth_state where
  "new_auth = \<lparr>credentials = [], nonce_count = []\<rparr>"

definition add_credentials :: "string \<Rightarrow> string \<Rightarrow> string \<Rightarrow> auth_state \<Rightarrow> auth_state" where
  "add_credentials realm usr pw a = a\<lparr>credentials := dict_set realm (usr, pw) (credentials a)\<rparr>"

section \<open>The challenge\<close>

definition auth_rx :: rx where
  "auth_rx =
     RSeq (RGrp 1 (RRep1 is_word)) (RSeq (RChr (\<lambda>c. c = CHR ''=''))
       (RAlt (RSeq (RChr (\<lambda>c. c = DQ)) (RSeq (RGrp 2 (RRep1 (\<lambda>c. c \<noteq> DQ))) (RChr (\<lambda>c. c = DQ))))
             (RGrp 3 (RRep1 (\<lambda>c. c \<noteq> CHR '','' \<and> \<not> is_space c)))))"

definition auth_param :: "groups \<Rightarrow> (string, string) dict \<Rightarrow> (string, string) dict" where
  "auth_param g d =
     dict_set (lower (the (dict_get g 1)))
       (case dict_get g 2 of Some v \<Rightarrow> v | None \<Rightarrow> the (dict_get g 3)) d"

definition parse_www_authenticate :: "string \<Rightarrow> (string, string) dict" where
  "parse_www_authenticate text =
     fold auth_param
       (rx_finditer auth_rx (if starts_with text ''Digest '' then drop 7 text else text)) []"

section \<open>The response\<close>

definition hash_function :: "hashes \<Rightarrow> string \<Rightarrow> string \<Rightarrow> string res" where
  "hash_function H data alg =
     (if starts_with alg ''MD5'' then Inr (md5 H (utf8_encode data))
      else if starts_with alg ''SHA-256'' then Inr (sha256 H (utf8_encode data))
      else Inl ValueError)"

definition calculate_ha1 ::
  "hashes \<Rightarrow> string \<Rightarrow> string \<Rightarrow> string \<Rightarrow> string \<Rightarrow> string \<Rightarrow> string \<Rightarrow> string res" where
  "calculate_ha1 H usr realm pw nonce cnonce alg =
     bind_res (hash_function H (usr @ '':'' @ realm @ '':'' @ pw) alg) (\<lambda>ha1.
       if ends_with alg ''-sess'' then hash_function H (ha1 @ '':'' @ nonce @ '':'' @ cnonce) alg
       else Inr ha1)"

definition calculate_ha2 :: "hashes \<Rightarrow> string \<Rightarrow> string \<Rightarrow> string option \<Rightarrow> string option \<Rightarrow> string \<Rightarrow> string res" where
  "calculate_ha2 H meth u qop bd alg =
     (case bd of
        Some b \<Rightarrow>
          if qop = Some ''auth-int''
          then bind_res (hash_function H b alg) (\<lambda>bh. hash_function H (meth @ '':'' @ u @ '':'' @ bh) alg)
          else hash_function H (meth @ '':'' @ u) alg
      | None \<Rightarrow> hash_function H (meth @ '':'' @ u) alg)"

definition calculate_response ::
  "hashes \<Rightarrow> string \<Rightarrow> string \<Rightarrow> string \<Rightarrow> string \<Rightarrow> string \<Rightarrow> string \<Rightarrow> int \<Rightarrow> string \<Rightarrow> string option
     \<Rightarrow> string \<Rightarrow> string option \<Rightarrow> string res" where
  "calculate_response H usr realm pw meth u nonce nc cnonce qop alg bd =
     bind_res (calculate_ha1 H usr realm pw nonce cnonce alg) (\<lambda>ha1.
     bind_res (calculate_ha2 H meth u qop bd alg) (\<lambda>ha2.
       hash_function H
         (if qop = Some ''auth'' \<or> qop = Some ''auth-int''
          then ha1 @ '':'' @ nonce @ '':'' @ hex08 nc @ '':'' @ cnonce @ '':'' @ the qop @ '':'' @ ha2
          else ha1 @ '':'' @ nonce @ '':'' @ ha2) alg))"

definition get_nonce_count :: "string \<Rightarrow> auth_state \<Rightarrow> int \<times> auth_state" where
  "get_nonce_count nonce a =
     (let d = (if dict_get (nonce_count a) nonce = None then dict_set nonce 0 (nonce_count a) else nonce_count a);
          n = the (dict_get d nonce) + 1
      in (n, a\<lparr>nonce_count := dict_set nonce n d\<rparr>))"

definition param_or :: "(string, string) dict \<Rightarrow> string \<Rightarrow> string \<Rightarrow> string" where
  "param_or d k dflt = (case dict_get d k of Some v \<Rightarrow> v | None \<Rightarrow> dflt)"

definition quoted :: "string \<Rightarrow> string" where
  "quoted s = [DQ] @ s @ [DQ]"

definition authorization_text ::
  "string \<Rightarrow> string \<Rightarrow> string \<Rightarrow> string \<Rightarrow> string \<Rightarrow> string \<Rightarrow> string option \<Rightarrow> string option \<Rightarrow> int \<Rightarrow> string \<Rightarrow> string" where
  "authorization_text usr realm nonce u response alg opaque qop nc cnonce =
     ''Digest username='' @ quoted usr @ '', realm='' @ quoted realm @ '', nonce='' @ quoted nonce
     @ '', uri='' @ quoted u @ '', response='' @ quoted response
     @ (if alg \<noteq> [] then '', algorithm='' @ alg else [])
     @ (if truthy_str opaque then '', opaque='' @ quoted (the opaque) else [])
     @ (if truthy_str qop
        then '', qop='' @ the qop @ '', nc='' @ hex08 nc @ '', cnonce='' @ quoted cnonce else [])"

definition generate_authorization_header ::
  "hashes \<Rightarrow> string \<Rightarrow> string \<Rightarrow> string \<Rightarrow> (string, string) dict \<Rightarrow> string option \<Rightarrow> auth_state \<Rightarrow> auth_state \<times> string res" where
  "generate_authorization_header H cnonce meth u params bd a =
     (let realm = param_or params ''realm'' [];
          nonce = param_or params ''nonce'' [];
          opaque = dict_get params ''opaque'';
          alg = upper (param_or params ''algorithm'' ''MD5'');
          qop = dict_get params ''qop''
      in case dict_get (credentials a) realm of
           None \<Rightarrow> (a, Inl ValueError)
         | Some (usr, pw) \<Rightarrow>
             (let (nc, a') = get_nonce_count nonce a in
              (a', map_res (\<lambda>r. authorization_text usr realm nonce u r alg opaque qop nc cnonce)
                 (calculate_response H usr realm pw meth u nonce nc cnonce qop alg bd))))"

section \<open>The authenticated request\<close>

definition handle_authentication_challenge ::
  "hashes \<Rightarrow> string \<Rightarrow> SIPMessage \<Rightarrow> SIPMessage \<Rightarrow> auth_state \<Rightarrow> auth_state \<times> string option" where
  "handle_authentication_challenge H cnonce response request a =
     (if status_code response \<noteq> Some 401 \<and> status_code response \<noteq> Some 407 then (a, None)
      else
        let name = (if status_code response = Some 401 then ''WWW-Authenticate'' else ''Proxy-Authenticate'');
            auth = get_header response (lower name)
        in if \<not> truthy_str auth then (a, None)
           else case method request of
             None \<Rightarrow> (a, None)
           | Some meth \<Rightarrow>
               (let (a', r) = generate_authorization_header H cnonce (method_value meth) (show_opt raw_uri (uri request))
                      (parse_www_authenticate (the auth)) (map_option content (body request)) a
                in (a', case r of Inr h \<Rightarrow> Some h | Inl _ \<Rightarrow> None)))"

definition branch_rx :: rx where
  "branch_rx = RSeq (rx_lit ''branch='') (RRep1 (\<lambda>c. c \<noteq> CHR '';''))"

definition increment_cseq :: "SIPMessage \<Rightarrow> SIPMessage res" where
  "increment_cseq m =
     (let c = get_header m ''cseq'' in
      if truthy_str c
      then (case words (the c) of
          p0 # p1 # _ \<Rightarrow> map_res (\<lambda>n. set_header ''CSeq'' (int_str (n + 1) @ '' '' @ p1) m) (parse_int p0)
        | _ \<Rightarrow> Inr m)
      else Inr m)"

text \<open>The copy with the new branch, before the authorization header is set and CSeq is raised.\<close>

definition copy_request :: "string \<Rightarrow> SIPMethod \<Rightarrow> SIPMessage \<Rightarrow> SIPMessage" where
  "copy_request new_branch meth request =
     (let m0 = create_request meth (show_opt raw_uri (uri request)) [] (map_option BBody (body request));
          m1 = fold (\<lambda>h m. if lower (hname h) \<noteq> ''via'' then add_header (hname h) (hvalue h) m else m)
                 (headers request) m0;
          via = get_header request ''via''
      in set_header ''Via''
           (if truthy_str via then rx_sub branch_rx (''branch='' @ new_branch) (the via)
            else ''SIP/2.0/UDP 0.0.0.0;branch='' @ new_branch) m1)"

text \<open>None stands for returning the original request object itself.\<close>

definition authenticated_copy ::
  "hashes \<Rightarrow> string \<Rightarrow> string \<Rightarrow> SIPMessage \<Rightarrow> SIPMessage \<Rightarrow> auth_state \<Rightarrow> auth_state \<times> SIPMessage option res" where
  "authenticated_copy H cnonce uuid_hex request response a =
     (let (a', auth) = handle_authentication_challenge H cnonce response request a in
      if \<not> truthy_str auth then (a', Inr None)
      else case method request of
        None \<Rightarrow> (a', Inr None)
      | Some meth \<Rightarrow>
          (let m = copy_request (''z9hG4bK'' @ take 16 uuid_hex) meth request;
               name = (if status_code response = Some 401 then ''Authorization'' else ''Proxy-Authorization'')
           in (a', map_res Some (increment_cseq (set_header name (the auth) m)))))"

definition create_authenticated_request ::
  "hashes \<Rightarrow> string \<Rightarrow> string \<Rightarrow> SIPMessage \<Rightarrow> SIPMessage \<Rightarrow> auth_state \<Rightarrow> auth_state \<times> SIPMessage res" where
  "create_authenticated_request H cnonce uuid_hex request response a =
     (let (a', r) = authenticated_copy H cnonce uuid_hex request response a in
      (a', map_res (\<lambda>m. case m of Some m' \<Rightarrow> m' | None \<Rightarrow> request) r))"

section \<open>Parsing what was printed\<close>

text \<open>One \<open>key="value"\<close> or \<open>key=value\<close> of a header.\<close>

datatype auth_item = Quoted string string | Token string string

fun item_text :: "auth_item \<Rightarrow> string" where
  "item_text (Quoted k v) = k @ ''='' @ quoted v"
| "item_text (Token k v) = k @ ''='' @ v"

fun item_pair :: "auth_item \<Rightarrow> string \<times> string" where
  "item_pair (Quoted k v) = (k, v)"
| "item_pair (Token k v) = (k, v)"

definition key_ok :: "string \<Rightarrow> bool" where
  "key_ok k = (k \<noteq> [] \<and> list_all is_word k)"

fun item_ok :: "auth_item \<Rightarrow> bool" where
  "item_ok (Quoted k v) = (key_ok k \<and> v \<noteq> [] \<and> DQ \<notin> set v)"
| "item_ok (Token k v) = (key_ok k \<and> v \<noteq> [] \<and> DQ \<notin> set v \<and> CHR '','' \<notin> set v \<and> list_all (\<lambda>c. \<not> is_space c) v)"

fun item_groups :: "auth_item \<Rightarrow> groups" where
  "item_groups (Quoted k v) = [(1, k), (2, v)]"
| "item_groups (Token k v) = [(1, k), (3, v)]"

lemma not_word [simp]: "\<not> is_word (CHR ''='')" "\<not> is_word (CHR '','')" "\<not> is_word (CHR '' '')" "\<not> is_word DQ"
  by (simp_all add: char_class_defs)

lemma begins_key:
  assumes "key_ok k"
    and "rx_begins r s [(1, k)] (v, t, g)"
  shows "rx_begins (RSeq (RGrp 1 (RRep1 is_word)) (RSeq (RChr (\<lambda>c. c = CHR ''='')) r)) (k @ CHR ''='' # s) [] (k @ [CHR ''=''] @ v, t, g)"
proof -
  have "rx_begins (RRep1 is_word) (k @ CHR ''='' # s) [] (k, CHR ''='' # s, [])"
    using assms(1) by (intro begins_rep1) (auto simp: key_ok_def list_all_iff)
  from begins_grp[OF this, of 1] have
    "rx_begins (RGrp 1 (RRep1 is_word)) (k @ CHR ''='' # s) [] (k, CHR ''='' # s, [(1, k)])" by simp
  from begins_seq[OF this begins_seq[OF begins_chr assms(2)]] show ?thesis by simp
qed

lemma item_first:
  assumes "item_ok i" and "s = [] \<or> hd s = CHR '',''"
  shows "rx_first auth_rx (item_text i @ s) = Some (item_text i, s, item_groups i)"
proof (cases i)
  case (Quoted k v)
  have "rx_begins (RRep1 (\<lambda>c. c \<noteq> DQ)) (v @ DQ # s) [(1, k)] (v, DQ # s, [(1, k)])"
    using assms Quoted by (intro begins_rep1) auto
  from begins_grp[OF this, of 2] have q: "rx_begins (RGrp 2 (RRep1 (\<lambda>c. c \<noteq> DQ))) (v @ DQ # s) [(1, k)] (v, DQ # s, [(1, k), (2, v)])"
    by simp
  have "rx_begins (RAlt (RSeq (RChr (\<lambda>c. c = DQ)) (RSeq (RGrp 2 (RRep1 (\<lambda>c. c \<noteq> DQ))) (RChr (\<lambda>c. c = DQ))))
      (RGrp 3 (RRep1 (\<lambda>c. c \<noteq> CHR '','' \<and> \<not> is_space c)))) (DQ # v @ DQ # s) [(1, k)]
      ([DQ] @ v @ [DQ], s, [(1, k), (2, v)])"
    by (intro begins_alt1 begins_seq[OF begins_chr] begins_seq[OF q] begins_chr) simp_all
  from begins_first[OF begins_key[OF _ this]] assms(1) Quoted show ?thesis
    by (simp add: auth_rx_def quoted_def)
next
  case (Token k v)
  have "rx_begins (RRep1 (\<lambda>c. c \<noteq> CHR '','' \<and> \<not> is_space c)) (v @ s) [(1, k)] (v, s, [(1, k)])"
    using assms Token by (intro begins_rep1) (auto simp: list_all_iff)
  from begins_grp[OF this, of 3] have q: "rx_begins (RGrp 3 (RRep1 (\<lambda>c. c \<noteq> CHR '','' \<and> \<not> is_space c))) (v @ s) [(1, k)] (v, s, [(1, k), (3, v)])"
    by simp
  have "rx_match (RSeq (RChr (\<lambda>c. c = DQ)) r) (v @ s) g = []" for r g
    using assms(1) Token by (cases v) auto
  from begins_alt2[OF this q] have "rx_begins (RAlt (RSeq (RChr (\<lambda>c. c = DQ)) (RSeq (RGrp 2 (RRep1 (\<lambda>c. c \<noteq> DQ))) (RChr (\<lambda>c. c = DQ))))
      (RGrp 3 (RRep1 (\<lambda>c. c \<noteq> CHR '','' \<and> \<not> is_space c)))) (v @ s) [(1, k)] (v, s, [(1, k), (3, v)])" .
  from begins_first[OF begins_key[OF _ this]] assms(1) Token show ?thesis by (simp add: auth_rx_def)
qed

lemma auth_rx_skip: "\<not> is_word c \<Longrightarrow> rx_first auth_rx (c # s) = None"
  by (simp add: rx_first_None auth_rx_def)

lemma finditer_items:
  "list_all item_ok xs \<Longrightarrow> rx_finditer auth_rx (join '', '' (map item_text xs)) = map item_groups xs"
proof (induction xs)
  case (Cons i xs)
  have ne: "item_text i \<noteq> []" by (cases i) auto
  show ?case
  proof (cases xs)
    case Nil
    with Cons.prems item_first[of i "[]"] finditer_hit[OF _ ne] show ?thesis by simp
  next
    case (Cons j js)
    have "rx_first auth_rx (item_text i @ '', '' @ join '', '' (map item_text xs))
        = Some (item_text i, '', '' @ join '', '' (map item_text xs), item_groups i)"
      using Cons.prems by (intro item_first) auto
    from finditer_hit[OF this ne] Cons Cons.IH Cons.prems show ?thesis
      by (simp add: finditer_skip auth_rx_skip)
  qed
qed simp

lemma auth_param_item:
  "lower (fst (item_pair i)) = fst (item_pair i) \<Longrightarrow>
   auth_param (item_groups i) d = dict_set (fst (item_pair i)) (snd (item_pair i)) d"
  by (cases i) (simp_all add: auth_param_def)

lemma parse_items:
  assumes "list_all item_ok xs" and "list_all (\<lambda>i. lower (fst (item_pair i)) = fst (item_pair i)) xs"
  shows "parse_www_authenticate (''Digest '' @ join '', '' (map item_text xs)) =
     fold (\<lambda>(k, v). dict_set k v) (map item_pair xs) []"
proof -
  have "fold auth_param (map item_groups xs) d = fold (\<lambda>(k, v). dict_set k v) (map item_pair xs) d" for d
    using assms(2) by (induction xs arbitrary: d) (simp_all add: auth_param_item split_beta)
  then show ?thesis
    using finditer_items[OF assms(1)] by (simp add: parse_www_authenticate_def starts_with_iff)
qed

text \<open>The items of an authorization header.\<close>

definition authorization_items ::
  "string \<Rightarrow> string \<Rightarrow> string \<Rightarrow> string \<Rightarrow> string \<Rightarrow> string \<Rightarrow> string option \<Rightarrow> string option \<Rightarrow> int \<Rightarrow> string \<Rightarrow> auth_item list" where
  "authorization_items usr realm nonce u response alg opaque qop nc cnonce =
     [Quoted ''username'' usr, Quoted ''realm'' realm, Quoted ''nonce'' nonce, Quoted ''uri'' u,
      Quoted ''response'' response]
     @ (if alg \<noteq> [] then [Token ''algorithm'' alg] else [])
     @ (if truthy_str opaque then [Quoted ''opaque'' (the opaque)] else [])
     @ (if truthy_str qop then [Token ''qop'' (the qop), Token ''nc'' (hex08 nc), Quoted ''cnonce'' cnonce] else [])"

lemma authorization_text_items:
  "authorization_text usr realm nonce u response alg opaque qop nc cnonce =
     ''Digest '' @ join '', '' (map item_text (authorization_items usr realm nonce u response alg opaque qop nc cnonce))"
  by (simp add: authorization_text_def authorization_items_def)

section \<open>The server's side\<close>

text \<open>
  What a server does with the parameters of an authorization header: recompute the response of RFC 2617
  from the header's own fields and the password it knows, and compare.
\<close>

definition server_accepts :: "(byte list \<Rightarrow> string) \<Rightarrow> string \<Rightarrow> string \<Rightarrow> string \<Rightarrow> (string, string) dict \<Rightarrow> bool" where
  "server_accepts H pw meth bd params =
     (let h = (\<lambda>s. H (utf8_encode s)); p = (\<lambda>k. param_or params k []);
          a1 = h (p ''username'' @ '':'' @ p ''realm'' @ '':'' @ pw);
          a2 = (if dict_get params ''qop'' = Some ''auth-int'' then h (meth @ '':'' @ p ''uri'' @ '':'' @ h bd)
                else h (meth @ '':'' @ p ''uri''))
      in dict_get params ''response'' =
         Some (case dict_get params ''qop'' of
             Some q \<Rightarrow> h (a1 @ '':'' @ p ''nonce'' @ '':'' @ p ''nc'' @ '':'' @ p ''cnonce'' @ '':'' @ q @ '':'' @ a2)
           | None \<Rightarrow> h (a1 @ '':'' @ p ''nonce'' @ '':'' @ a2)))"

definition quotable :: "string \<Rightarrow> bool" where
  "quotable s = (s \<noteq> [] \<and> DQ \<notin> set s)"

lemma hex_chars: "c \<in> set (nat_str_base 16 n) \<Longrightarrow> \<exists>d < 16. c = digit_char d"
proof (induction n arbitrary: c rule: less_induct)
  case (less n)
  show ?case
  proof (cases "n < 16")
    case True
    with less.prems show ?thesis by (subst (asm) nat_str_base.simps) auto
  next
    case False
    with less.prems have "c \<in> set (nat_str_base 16 (n div 16)) \<or> c = digit_char (n mod 16)"
      by (subst (asm) nat_str_base.simps) auto
    moreover have "n div 16 < n" using False by simp
    moreover have "n mod 16 < 16" by simp
    ultimately show ?thesis using less.IH[of "n div 16" c] by blast
  qed
qed

lemma hex_digit_clean:
  "list_all (\<lambda>d. digit_char d \<noteq> DQ \<and> digit_char d \<noteq> CHR '','' \<and> \<not> is_space (digit_char d)) [0..<16]"
  by code_simp

lemma hex08_token: "item_ok (Token ''nc'' (hex08 n))"
proof -
  have "nat_str_base 16 (nat n) \<noteq> []" by (subst nat_str_base.simps) auto
  moreover have "c \<noteq> DQ \<and> c \<noteq> CHR '','' \<and> \<not> is_space c" if "c \<in> set (hex08 n)" for c
  proof -
    have dc: "digit_char d \<noteq> DQ \<and> digit_char d \<noteq> CHR '','' \<and> \<not> is_space (digit_char d)" if "d < 16" for d
      using hex_digit_clean that by (simp add: list_all_iff)
    have "c = CHR ''0'' \<or> c \<in> set (nat_str_base 16 (nat n))" using that by (auto simp: hex08_def Let_def)
    then show ?thesis
    proof
      assume "c \<in> set (nat_str_base 16 (nat n))"
      then obtain d where "d < 16" "c = digit_char d" using hex_chars by blast
      with dc[of d] show ?thesis by simp
    qed (simp add: char_class_defs)
  qed
  moreover have "key_ok ''nc''" by (simp add: key_ok_def char_class_defs)
  ultimately have "hex08 n \<noteq> []" and "key_ok ''nc''" and "\<forall>c \<in> set (hex08 n). c \<noteq> DQ \<and> c \<noteq> CHR '','' \<and> \<not> is_space c"
    by (simp_all add: hex08_def Let_def)
  then show ?thesis unfolding item_ok.simps list_all_iff by blast
qed

lemma upper_no_s: "CHR ''s'' \<notin> set (upper t)"
proof -
  have "CHR ''s'' \<notin> set (upper_char c)" for c
  proof
    assume a: "CHR ''s'' \<in> set (upper_char c)"
    have "code (CHR ''s'') = 115" by (simp add: code_def)
    with a show False
      by (auto simp: upper_char_def Let_def code_char_of code_less split: if_splits)
  qed
  then show ?thesis by (auto simp: upper_def)
qed

lemma upper_not_sess: "\<not> ends_with (upper t) ''-sess''"
proof
  assume "ends_with (upper t) ''-sess''"
  then have "CHR ''s'' \<in> set (upper t)" by (auto simp: ends_with_iff)
  then show False using upper_no_s by blast
qed

lemma md5_hash [simp]: "hash_function H d ''MD5'' = Inr (md5 H (utf8_encode d))"
  by (simp add: hash_function_def)

lemma md5_no_sess [simp]: "\<not> ends_with ''MD5'' ''-sess''"
  by (simp add: ends_with_def)

text \<open>The response in one formula, for the MD5 algorithm.\<close>

definition md5_response_of ::
  "(string \<Rightarrow> string) \<Rightarrow> string \<Rightarrow> string \<Rightarrow> string \<Rightarrow> string \<Rightarrow> string \<Rightarrow> string \<Rightarrow> string \<Rightarrow> string \<Rightarrow> string option \<Rightarrow> string \<Rightarrow> string" where
  "md5_response_of h usr realm pw meth u nonce nc cnonce qop bd =
     (let a1 = h (usr @ '':'' @ realm @ '':'' @ pw);
          a2 = (if qop = Some ''auth-int'' then h (meth @ '':'' @ u @ '':'' @ h bd) else h (meth @ '':'' @ u))
      in h (case qop of
          Some q \<Rightarrow> a1 @ '':'' @ nonce @ '':'' @ nc @ '':'' @ cnonce @ '':'' @ q @ '':'' @ a2
        | None \<Rightarrow> a1 @ '':'' @ nonce @ '':'' @ a2))"

lemma md5_response:
  assumes "qop \<in> {None, Some ''auth'', Some ''auth-int''}"
  shows "calculate_response H usr realm pw meth u nonce nc cnonce qop ''MD5'' (Some bd) =
     Inr (md5_response_of (\<lambda>s. md5 H (utf8_encode s)) usr realm pw meth u nonce (hex08 nc) cnonce qop bd)"
  using assms
  by (elim insertE emptyE)
    (simp_all add: calculate_response_def calculate_ha1_def calculate_ha2_def md5_response_of_def Let_def
      del: utf8_encode_append)

lemma server_accepts_response:
  "server_accepts H pw meth bd params \<longleftrightarrow>
     dict_get params ''response'' = Some (md5_response_of (\<lambda>s. H (utf8_encode s)) (param_or params ''username'' [])
       (param_or params ''realm'' []) pw meth (param_or params ''uri'' []) (param_or params ''nonce'' [])
       (param_or params ''nc'' []) (param_or params ''cnonce'' []) (dict_get params ''qop'') bd)"
  by (simp add: server_accepts_def md5_response_of_def Let_def split: option.split del: utf8_encode_append)

section \<open>Nonce counts\<close>

lemma get_nonce_count_value:
  "fst (get_nonce_count n a) = (case dict_get (nonce_count a) n of Some k \<Rightarrow> k | None \<Rightarrow> 0) + 1"
  by (simp add: get_nonce_count_def Let_def split: option.split)

lemma get_nonce_count_state:
  "dict_get (nonce_count (snd (get_nonce_count n a))) m =
     (if m = n then Some (fst (get_nonce_count n a)) else dict_get (nonce_count a) m)"
  by (simp add: get_nonce_count_def Let_def)

lemma nonce_count_fold:
  "(case dict_get (nonce_count (fold (\<lambda>x a. snd (get_nonce_count x a)) ns a)) n of Some k \<Rightarrow> k | None \<Rightarrow> 0)
     = (case dict_get (nonce_count a) n of Some k \<Rightarrow> k | None \<Rightarrow> 0) + int (count_list ns n)"
  by (induction ns arbitrary: a) (simp_all add: get_nonce_count_state get_nonce_count_value split: option.split)

section \<open>The copied request\<close>

lemma copy_headers:
  assumes "list_all header_ok hs"
  shows "fold (\<lambda>h m. if lower (hname h) \<noteq> ''via'' then add_header (hname h) (hvalue h) m else m) hs m
     = m\<lparr>headers := headers m @ filter (\<lambda>h. lower (hname h) \<noteq> ''via'') hs\<rparr>"
  using assms
proof (induction hs arbitrary: m)
  case (Cons h hs)
  have "new_header (hname h) (hvalue h) = h"
    using Cons.prems by (simp add: new_header_def header_ok_def strip_id)
  with Cons show ?case by (simp add: add_header_def)
qed simp

lemma copy_request_facts:
  assumes "list_all header_ok (headers req)" and "uri req = Some u" and "parse_uri (raw_uri u) = u"
    and "get_header req ''via'' = Some via" and "via \<noteq> []"
  shows "method (copy_request br meth req) = Some meth" and "uri (copy_request br meth req) = Some u"
    and "body (copy_request br meth req) = body req"
    and "get_header (copy_request br meth req) k =
       (if lower k = ''via'' then Some (strip (rx_sub branch_rx (''branch='' @ br) via)) else get_header req k)"
proof -
  have v: "stripped ''Via''" "lower ''Via'' = ''via''" by (simp_all add: stripped_def char_class_defs lower_eval)
  have cr: "create_request meth (raw_uri u) [] (map_option BBody (body req)) =
      new_message\<lparr>method := Some meth, uri := Some u, body := body req\<rparr>"
    using assms(3) by (cases "body req") (simp_all add: create_request_def attach_body_def new_message_def)
  let ?m = "new_message\<lparr>method := Some meth, uri := Some u, body := body req,
      headers := filter (\<lambda>h. lower (hname h) \<noteq> ''via'') (headers req)\<rparr>"
  have c: "copy_request br meth req = set_header ''Via'' (rx_sub branch_rx (''branch='' @ br) via) ?m"
    using assms cr copy_headers[OF assms(1)]
    by (simp add: copy_request_def Let_def show_opt_def new_message_def)
  have g: "get_header ?m k = (if lower k = ''via'' then None else get_header req k)" for k
    by (simp add: get_header_def header_lookup_filter)
  show "method (copy_request br meth req) = Some meth" "uri (copy_request br meth req) = Some u"
    "body (copy_request br meth req) = body req" by (simp_all add: c)
  show "get_header (copy_request br meth req) k =
       (if lower k = ''via'' then Some (strip (rx_sub branch_rx (''branch='' @ br) via)) else get_header req k)"
    using v by (simp add: c get_header_set g)
qed

text \<open>A stand-in for the hash functions in the examples, and an object with one credential.\<close>

definition toy_hashes :: hashes where
  "toy_hashes = \<lparr>md5 = (\<lambda>bs. nat_str (sum_list bs)), sha256 = (\<lambda>bs. nat_str (length bs))\<rparr>"

lemma toy_hash_quotable: "quotable (md5 toy_hashes bs)"
  using nat_str_digits[of "sum_list bs"] by (auto simp: toy_hashes_def quotable_def char_class_defs)

definition example_auth :: auth_state where
  "example_auth = add_credentials ''r'' ''bob'' ''secret'' new_auth"

definition unsupported_challenge :: SIPMessage where
  "unsupported_challenge = new_message\<lparr>status_code := Some 401, headers :=
     [\<lparr>hname = ''WWW-Authenticate'', hvalue = ''Digest realm='' @ quoted ''r'' @ '', nonce='' @ quoted ''n'' @ '', algorithm=SHA-512''\<rparr>]\<rparr>"

definition md5_challenge :: SIPMessage where
  "md5_challenge = new_message\<lparr>status_code := Some 401, headers :=
     [\<lparr>hname = ''WWW-Authenticate'', hvalue = ''Digest realm='' @ quoted ''r'' @ '', nonce='' @ quoted ''n''\<rparr>]\<rparr>"

definition branch_example :: SIPMessage where
  "branch_example = options_example\<lparr>headers :=
     [\<lparr>hname = ''Via'', hvalue = ''SIP/2.0/UDP h;branch=z1''\<rparr>, \<lparr>hname = ''CSeq'', hvalue = int_str 1 @ '' '' @ ''OPTIONS''\<rparr>]\<rparr>"

lemma md5_challenge_handled:
  "\<exists>a' auth. handle_authentication_challenge toy_hashes ''c0ffee'' md5_challenge branch_example example_auth = (a', Some auth)
     \<and> auth \<noteq> [] \<and> stripped auth"
proof -
  let ?t = "''Digest '' @ join '', '' (map item_text [Quoted ''realm'' ''r'', Quoted ''nonce'' ''n''])"
  have p: "parse_www_authenticate ?t = [(''realm'', ''r''), (''nonce'', ''n'')]"
    by (subst parse_items) (simp_all add: key_ok_def char_class_defs lower_eval)
  have "get_header md5_challenge (lower ''WWW-Authenticate'') = Some ?t" "status_code md5_challenge = Some 401"
    by (simp_all add: md5_challenge_def get_header_def quoted_def lower_eval)
  moreover have "method branch_example = Some OPTIONS" by (simp add: branch_example_def options_example_def)
  moreover have "dict_get (credentials example_auth) ''r'' = Some (''bob'', ''secret'')"
    by (simp add: example_auth_def add_credentials_def new_auth_def)
  moreover have "upper ''MD5'' = ''MD5''" by (simp add: upper_def upper_char_def code_def)
  moreover have "stripped (authorization_text u r n s x ''MD5'' None None nc cn)" for u r n s x nc cn
    by (simp add: authorization_text_def stripped_def char_class_defs)
  moreover have "authorization_text u r n s x ''MD5'' None None nc cn \<noteq> []" for u r n s x nc cn
    by (simp add: authorization_text_def)
  ultimately show ?thesis
    using p by (simp add: handle_authentication_challenge_def Let_def split_beta generate_authorization_header_def
        param_or_def calculate_response_def calculate_ha1_def calculate_ha2_def split: option.split)
qed

lemma authenticated_copy_facts:
  assumes "handle_authentication_challenge H cnonce resp req a = (a', Some auth)" and "auth \<noteq> []"
    and "status_code resp = Some 401" and "method req = Some meth"
    and "list_all header_ok (headers req)" and "uri req = Some u" and "parse_uri (raw_uri u) = u"
    and "get_header req ''via'' = Some (x @ ''branch='' @ old @ y)" and "old \<noteq> []" and "CHR '';'' \<notin> set old"
    and "y = [] \<or> hd y = CHR '';''" and "\<not> contains ''branch='' y" and "partition_at ''branch='' (x @ ''branch='' @ old @ y) = Some (x, old @ y)"
    and "get_header req ''cseq'' = Some (int_str n @ '' '' @ meth_text)" and "word_ok meth_text"
    and "get_header req ''authorization'' = None"
    and "stripped (x @ ''branch='' @ ''z9hG4bK'' @ take 16 hex @ y)" and "stripped auth"
  shows "\<exists>m. authenticated_copy H cnonce hex req resp a = (a', Inr (Some m)) \<and>
    method m = Some meth \<and> uri m = Some u \<and> body m = body req \<and>
    get_header m ''via'' = Some (x @ ''branch='' @ ''z9hG4bK'' @ take 16 hex @ y) \<and>
    get_header m ''cseq'' = Some (int_str (n + 1) @ '' '' @ meth_text) \<and>
    get_header m ''authorization'' = Some auth \<and>
    (\<forall>k. lower k \<notin> {''via'', ''cseq'', ''authorization''} \<longrightarrow> get_header m k = get_header req k)"
proof -
  let ?br = "''z9hG4bK'' @ take 16 hex" and ?via = "x @ ''branch='' @ old @ y"
  have tw: "takeWhile (\<lambda>c. c \<noteq> CHR '';'') (old @ y) = old" "dropWhile (\<lambda>c. c \<noteq> CHR '';'') (old @ y) = y"
  proof -
    have all: "\<forall>c \<in> set old. c \<noteq> CHR '';''" using assms(10) by blast
    show "takeWhile (\<lambda>c. c \<noteq> CHR '';'') (old @ y) = old" "dropWhile (\<lambda>c. c \<noteq> CHR '';'') (old @ y) = y"
      using assms(11) all by (cases y; simp add: takeWhile_append_stop dropWhile_append_stop)+
  qed
  have ny: "partition_at ''branch='' y = None" using assms(12) by (simp add: contains_def del: not_Some_eq not_None_eq)
  have sub: "rx_sub branch_rx (''branch='' @ ?br) ?via = x @ ''branch='' @ ?br @ y"
    unfolding branch_rx_def
    using rx_sub_run[OF assms(13), of "\<lambda>c. c \<noteq> CHR '';''"] tw assms(9)
      rx_sub_run_None[OF ny, of "\<lambda>c. c \<noteq> CHR '';''"]
    by simp
  have low: "lower ''via'' = ''via''" "lower ''cseq'' = ''cseq''" "lower ''authorization'' = ''authorization''"
    "lower ''CSeq'' = ''cseq''" "lower ''Authorization'' = ''authorization''" by (simp_all add: lower_eval)
  have names: "stripped ''CSeq''" "stripped ''Authorization''" by (simp_all add: stripped_def char_class_defs)
  note cp = copy_request_facts[OF assms(5,6,7,8), of ?br meth]
  define m1 where "m1 = set_header ''Authorization'' auth (copy_request ?br meth req)"
  have g1: "get_header m1 k = (if lower k = ''authorization'' then Some auth
      else if lower k = ''via'' then Some (x @ ''branch='' @ ?br @ y) else get_header req k)" for k
    using names low cp(4) sub assms(16-18) by (simp add: m1_def get_header_set strip_id)
  have w: "words (int_str n @ '' '' @ meth_text) = [int_str n, meth_text]"
    using words_join[of "[int_str n, meth_text]"] int_str_word assms(15) by auto
  define m2 where "m2 = set_header ''CSeq'' (int_str (n + 1) @ '' '' @ meth_text) m1"
  have inc: "increment_cseq m1 = Inr m2"
    using g1[of "''cseq''"] low assms(14) w by (simp add: increment_cseq_def m2_def)
  have g2: "get_header m2 k = (if lower k = ''cseq'' then Some (int_str (n + 1) @ '' '' @ meth_text) else get_header m1 k)" for k
  proof -
    have "get_header req ''CSeq'' = get_header req ''cseq''" by (simp add: get_header_def low)
    then show ?thesis using names low g1[of "''CSeq''"] assms(14) by (simp add: m2_def get_header_set)
  qed
  have "authenticated_copy H cnonce hex req resp a = (a', Inr (Some m2))"
    using assms(1-4) inc by (simp add: authenticated_copy_def m1_def)
  moreover have "method m2 = Some meth" "uri m2 = Some u" "body m2 = body req"
    using cp(1-3) by (simp_all add: m2_def m1_def)
  ultimately show ?thesis using g1 g2 low by auto
qed

lemma branch_example_facts:
  "get_header branch_example ''via'' = Some (''SIP/2.0/UDP h;'' @ ''branch='' @ ''z1'' @ [])"
  "get_header branch_example ''cseq'' = Some (int_str 1 @ '' '' @ ''OPTIONS'')"
  "get_header branch_example ''authorization'' = None" "method branch_example = Some OPTIONS"
  "uri branch_example = Some (parse_uri ''sip:c@d'')" "status_code md5_challenge = Some 401"
  "parse_uri (raw_uri (parse_uri ''sip:c@d'')) = parse_uri ''sip:c@d''" "list_all header_ok (headers branch_example)"
  "word_ok ''OPTIONS''" "stripped (''SIP/2.0/UDP h;'' @ ''branch='' @ ''z9hG4bK'' @ take 16 ''00ff'' @ [])"
  "partition_at ''branch='' (''SIP/2.0/UDP h;'' @ ''branch='' @ ''z1'' @ []) = Some (''SIP/2.0/UDP h;'', ''z1'' @ [])"
  "\<not> contains ''branch='' []"
proof -
  show "get_header branch_example ''via'' = Some (''SIP/2.0/UDP h;'' @ ''branch='' @ ''z1'' @ [])"
    "get_header branch_example ''cseq'' = Some (int_str 1 @ '' '' @ ''OPTIONS'')"
    "get_header branch_example ''authorization'' = None" "method branch_example = Some OPTIONS"
    "uri branch_example = Some (parse_uri ''sip:c@d'')" "status_code md5_challenge = Some 401"
    by (simp_all add: branch_example_def options_example_def get_header_def lower_eval md5_challenge_def)
  have "strip ''sip:c@d'' = ''sip:c@d''" by (intro strip_id) (simp add: stripped_def char_class_defs)
  then show "parse_uri (raw_uri (parse_uri ''sip:c@d'')) = parse_uri ''sip:c@d''" by simp
  have "stripped (int_str 1 @ '' OPTIONS'')" "CR \<notin> set (int_str 1)"
    using int_str_word[of 1] word_ok_no_space[OF int_str_word] by (auto simp: stripped_def word_ok_def char_class_defs)
  then show "list_all header_ok (headers branch_example)"
    by (simp add: branch_example_def header_ok_def) (simp add: stripped_def char_class_defs)
  show "word_ok ''OPTIONS''" by (simp add: word_ok_def char_class_defs)
  show "stripped (''SIP/2.0/UDP h;'' @ ''branch='' @ ''z9hG4bK'' @ take 16 ''00ff'' @ [])"
    by (simp add: stripped_def char_class_defs)
  show "partition_at ''branch='' (''SIP/2.0/UDP h;'' @ ''branch='' @ ''z1'' @ []) = Some (''SIP/2.0/UDP h;'', ''z1'' @ [])"
    by simp
  show "\<not> contains ''branch='' []" by (simp add: contains_def)
qed

lemma branch_example_copy:
  "\<exists>a' m. authenticated_copy toy_hashes ''c0ffee'' ''00ff'' branch_example md5_challenge example_auth = (a', Inr (Some m)) \<and>
     get_header m ''via'' = Some ''SIP/2.0/UDP h;branch=z9hG4bK00ff''"
proof -
  obtain a' auth where h: "handle_authentication_challenge toy_hashes ''c0ffee'' md5_challenge branch_example example_auth = (a', Some auth)"
    "auth \<noteq> []" "stripped auth" using md5_challenge_handled by blast
  show ?thesis using authenticated_copy_facts[OF h(1,2) branch_example_facts(6,4,8,5,7,1) _ _ _ branch_example_facts(12,11,2,9,3,10) h(3)] by auto
qed

section \<open>Properties\<close>



text \<open>Nonce counts: starting from a fresh object, the count used with a nonce is one more than the number
  of times that nonce was used before, whatever other nonces were used in between.\<close>

theorem nonce_count_uses:
  "fst (get_nonce_count n (fold (\<lambda>x a. snd (get_nonce_count x a)) ns new_auth)) = int (count_list ns n) + 1"
  using nonce_count_fold[where n = n and ns = ns and a = new_auth] by (simp add: get_nonce_count_value new_auth_def)

text \<open>The session variant of the algorithm is never applied: the algorithm name is upper-cased before the
  test for the suffix \<open>-sess\<close>, so HA1 is always the plain hash of user, realm and password, also for a
  challenge with algorithm \<open>MD5-sess\<close>.\<close>

theorem session_ha1_never_used:
  "calculate_ha1 H usr realm pw nonce cnonce (upper alg) = hash_function H (usr @ '':'' @ realm @ '':'' @ pw) (upper alg)"
  using upper_not_sess[of alg] by (simp add: calculate_ha1_def bind_res_def split: sum.split)

text \<open>A failing challenge changes nothing but the counter: with an algorithm that is neither an MD5 nor a
  SHA-256 variant the original request is returned as it is, yet the nonce's count has gone up.\<close>

theorem unsupported_algorithm:
  assumes "status_code resp = Some 401" and "get_header resp ''www-authenticate'' = Some text" and "text \<noteq> []"
    and "\<not> starts_with (upper (param_or (parse_www_authenticate text) ''algorithm'' ''MD5'')) ''MD5''"
    and "\<not> starts_with (upper (param_or (parse_www_authenticate text) ''algorithm'' ''MD5'')) ''SHA-256''"
    and "dict_get (credentials a) (param_or (parse_www_authenticate text) ''realm'' []) = Some c"
    and "method req = Some meth"
  shows "create_authenticated_request H cnonce hex req resp a =
     (snd (get_nonce_count (param_or (parse_www_authenticate text) ''nonce'' []) a), Inr req)"
proof -
  have "lower ''WWW-Authenticate'' = ''www-authenticate''" by (simp add: lower_eval)
  with assms show ?thesis
    by (cases c)
      (simp add: create_authenticated_request_def authenticated_copy_def handle_authentication_challenge_def Let_def split_beta
        generate_authorization_header_def calculate_response_def calculate_ha1_def hash_function_def)
qed

theorem unsupported_algorithm_witness:
  "create_authenticated_request toy_hashes ''c0ffee'' ''00'' options_example unsupported_challenge example_auth =
     (snd (get_nonce_count ''n'' example_auth), Inr options_example)"
proof -
  let ?t = "''Digest '' @ join '', '' (map item_text [Quoted ''realm'' ''r'', Quoted ''nonce'' ''n'', Token ''algorithm'' ''SHA-512''])"
  have p: "parse_www_authenticate ?t = [(''realm'', ''r''), (''nonce'', ''n''), (''algorithm'', ''SHA-512'')]"
    by (subst parse_items) (simp_all add: key_ok_def char_class_defs lower_eval)
  have "get_header unsupported_challenge ''www-authenticate'' = Some ?t" "status_code unsupported_challenge = Some 401"
    by (simp_all add: unsupported_challenge_def get_header_def quoted_def lower_eval)
  moreover have "upper ''SHA-512'' = ''SHA-512''" by (simp add: upper_def upper_char_def code_def)
  moreover have "method options_example = Some OPTIONS" by (simp add: options_example_def)
  moreover have "dict_get (credentials example_auth) ''r'' = Some (''bob'', ''secret'')"
    by (simp add: example_auth_def add_credentials_def new_auth_def)
  ultimately show ?thesis
    using unsupported_algorithm[of unsupported_challenge ?t example_auth "(''bob'', ''secret'')" options_example OPTIONS
        toy_hashes "''c0ffee''" "''00''"] p
    by (simp add: param_or_def)
qed

text \<open>C13. The authenticated copy of a request has the request's method, URI and body, the same value for every
  header other than Via, CSeq and the authorization header, a CSeq number one higher with the same method,
  the authorization header, and a Via in which only the branch was replaced.\<close>

theorem authenticated_request:
  assumes "handle_authentication_challenge H cnonce resp req a = (a', Some auth)" and "auth \<noteq> []"
    and "status_code resp = Some 401" and "method req = Some meth"
    and "list_all header_ok (headers req)" and "uri req = Some u" and "parse_uri (raw_uri u) = u"
    and "get_header req ''via'' = Some (x @ ''branch='' @ old @ y)" and "old \<noteq> []" and "CHR '';'' \<notin> set old"
    and "y = [] \<or> hd y = CHR '';''" and "\<not> contains ''branch='' y" and "partition_at ''branch='' (x @ ''branch='' @ old @ y) = Some (x, old @ y)"
    and "get_header req ''cseq'' = Some (int_str n @ '' '' @ meth_text)" and "word_ok meth_text"
    and "get_header req ''authorization'' = None"
    and "stripped (x @ ''branch='' @ ''z9hG4bK'' @ take 16 hex @ y)" and "stripped auth"
  shows "\<exists>m. create_authenticated_request H cnonce hex req resp a = (a', Inr m) \<and>
    method m = Some meth \<and> uri m = Some u \<and> body m = body req \<and>
    get_header m ''via'' = Some (x @ ''branch='' @ ''z9hG4bK'' @ take 16 hex @ y) \<and>
    get_header m ''cseq'' = Some (int_str (n + 1) @ '' '' @ meth_text) \<and>
    get_header m ''authorization'' = Some auth \<and>
    (\<forall>k. lower k \<notin> {''via'', ''cseq'', ''authorization''} \<longrightarrow> get_header m k = get_header req k)"
  using authenticated_copy_facts[OF assms] by (auto simp: create_authenticated_request_def)

theorem authenticated_request_witness:
  "\<exists>a' m. create_authenticated_request toy_hashes ''c0ffee'' ''00ff'' branch_example md5_challenge example_auth = (a', Inr m) \<and>
     get_header m ''via'' = Some ''SIP/2.0/UDP h;branch=z9hG4bK00ff'' \<and> get_header m ''cseq'' = Some (int_str 2 @ '' OPTIONS'')"
proof -
  obtain a' auth where h: "handle_authentication_challenge toy_hashes ''c0ffee'' md5_challenge branch_example example_auth = (a', Some auth)"
    "auth \<noteq> []" "stripped auth" using md5_challenge_handled by blast
  show ?thesis using authenticated_request[OF h(1,2) branch_example_facts(6,4,8,5,7,1) _ _ _ branch_example_facts(12,11,2,9,3,10) h(3)] by auto
qed

end
