(* ===== verification/Fsm_UserAgent.thy ===== *)
theory Fsm_UserAgent
  imports Fsm_Transaction Digest_Auth
begin

text \<open>
  Dialogs, the transaction manager and the user agent (\<open>fsm.py\<close> from \<open>SIPDialog\<close> on). The state of a user
  agent holds its transactions, dialogs and credentials, the messages it has sent and the INVITE requests
  whose delayed answer is still to come. Operations return the new state and a result, so that the state
  at the time of an exception is kept.
\<close>

section \<open>Dialogs\<close>

datatype DialogState = DIALOG_INITIAL | DIALOG_EARLY | DIALOG_CONFIRMED | DIALOG_TERMINATED

record SIPDialog =
  dialog_id :: string
  dialog_state :: DialogState
  local_uri :: string
  remote_uri :: string
  local_tag :: "string option"
  remote_tag :: "string option"
  call_id :: string
  local_cseq :: int
  remote_cseq :: "int option"
  route_set :: "string list"
  secure :: bool
  created_time :: rat

definition post_init :: "SIPDialog \<Rightarrow> SIPDialog" where
  "post_init d =
     (if truthy_str (remote_tag d) \<and> dialog_state d = DIALOG_INITIAL then d\<lparr>dialog_state := DIALOG_EARLY\<rparr> else d)"

type_synonym dialog_table = "(string, SIPDialog) dict"

definition header_or_empty :: "SIPMessage \<Rightarrow> string \<Rightarrow> string" where
  "header_or_empty m n = or_str (get_header m n) []"

definition extract_tag :: "string \<Rightarrow> string option" where
  "extract_tag v =
     (case rx_search (rx_param ''tag='' (\<lambda>c. c \<noteq> CHR '';'')) v of
        Some m \<Rightarrow> group_of m 1
      | None \<Rightarrow> None)"

definition extract_cseq_number :: "SIPMessage \<Rightarrow> int res" where
  "extract_cseq_number m =
     (let c = get_header m ''cseq'' in
      if truthy_str c then (case words (the c) of [] \<Rightarrow> Inl IndexError | w # _ \<Rightarrow> parse_int w)
      else Inr 0)"

definition bare_uri :: "string \<Rightarrow> string" where
  "bare_uri v = strip_chars ''<>'' (hd (split_on '';'' v))"

definition create_dialog_from_request :: "rat \<Rightarrow> SIPMessage \<Rightarrow> dialog_table \<Rightarrow> dialog_table \<times> SIPDialog res" where
  "create_dialog_from_request created req ds =
     (let cid = header_or_empty req ''call-id'';
          from = header_or_empty req ''from'';
          to = header_or_empty req ''to'';
          tag = extract_tag from;
          did = cid @ ''-'' @ show_opt id tag
      in case extract_cseq_number req of
           Inl e \<Rightarrow> (ds, Inl e)
         | Inr n \<Rightarrow>
             (let d = post_init \<lparr>dialog_id = did, dialog_state = DIALOG_INITIAL, local_uri = bare_uri from,
                    remote_uri = bare_uri to, local_tag = tag, remote_tag = None, call_id = cid, local_cseq = n,
                    remote_cseq = None, route_set = [],
                    secure = (case uri req of Some u \<Rightarrow> scheme u = ''sips'' | None \<Rightarrow> False), created_time = created\<rparr>
              in (dict_set did d ds, Inr d)))"

text \<open>The new table and the dialog returned.\<close>

definition update_dialog_from_response :: "string \<Rightarrow> SIPMessage \<Rightarrow> dialog_table \<Rightarrow> dialog_table \<times> SIPDialog option" where
  "update_dialog_from_response did resp ds =
     (case dict_get ds did of
        None \<Rightarrow> (ds, None)
      | Some d \<Rightarrow>
          (case status_code resp of
             None \<Rightarrow> (ds, None)
           | Some sc \<Rightarrow>
               (let tag = extract_tag (header_or_empty resp ''to'');
                    d' = (if 100 \<le> sc \<and> sc \<le> 199 then
                            if truthy_str tag \<and> \<not> truthy_str (remote_tag d)
                            then d\<lparr>remote_tag := tag, dialog_state := DIALOG_EARLY\<rparr> else d
                          else if 200 \<le> sc \<and> sc \<le> 299 then
                            if truthy_str tag then d\<lparr>remote_tag := tag, dialog_state := DIALOG_CONFIRMED\<rparr> else d
                          else if sc \<ge> 300 then d\<lparr>dialog_state := DIALOG_TERMINATED\<rparr>
                          else d)
                in (dict_set did d' ds, Some d'))))"

definition terminate_dialog :: "string \<Rightarrow> dialog_table \<Rightarrow> dialog_table" where
  "terminate_dialog did ds =
     (case dict_get ds did of
        None \<Rightarrow> ds
      | Some d \<Rightarrow> dict_set did (d\<lparr>dialog_state := DIALOG_TERMINATED\<rparr>) ds)"

section \<open>The user agent's state\<close>

record ua_state =
  ua_local_uri :: string
  ua_timers :: "SIPTimers option"
  transactions :: "(string, Tx) dict"
  dialogs :: dialog_table
  authenticator :: auth_state
  sent_log :: "(string \<times> address) list"
  answers :: "string list"

definition new_ua :: "string \<Rightarrow> SIPTimers option \<Rightarrow> ua_state" where
  "new_ua u c = \<lparr>ua_local_uri = u, ua_timers = c, transactions = [], dialogs = [], authenticator = new_auth,
     sent_log = [], answers = []\<rparr>"

text \<open>
  What an operation takes from outside: the network's reaction, hash functions, clock, client nonce, the
  identity of a new message, and fresh unique identifiers.
\<close>

record env =
  net :: network
  hashing :: hashes
  epoch_time :: int
  wall_clock :: rat
  fresh_cnonce :: string
  fresh_ident :: int
  fresh_text :: string
  fresh_hex :: "nat \<Rightarrow> string"

type_synonym 'a act = "ua_state \<Rightarrow> ua_state \<times> 'a res"

definition return_act :: "'a \<Rightarrow> 'a act" where
  "return_act x s = (s, Inr x)"

definition bind_act :: "'a act \<Rightarrow> ('a \<Rightarrow> 'b act) \<Rightarrow> 'b act" where
  "bind_act f g s = (case f s of (s1, Inl e) \<Rightarrow> (s1, Inl e) | (s1, Inr x) \<Rightarrow> g x s1)"

definition log_sent :: "tx_out list \<Rightarrow> ua_state \<Rightarrow> ua_state" where
  "log_sent outs s =
     s\<lparr>sent_log := sent_log s @ List.map_filter (\<lambda>x. case x of Sent r a \<Rightarrow> Some (r, a) | _ \<Rightarrow> None) outs\<rparr>"

text \<open>Running a handler's actions on a transaction of the table; callbacks go to the given function.\<close>

fun ua_exec :: "env \<Rightarrow> (tx_callback \<Rightarrow> unit act) \<Rightarrow> string \<Rightarrow> tx_action \<Rightarrow> unit act" where
  "ua_exec e cb i (Notify c) s = cb c s"
| "ua_exec e cb i a s =
     (case dict_get (transactions s) i of
        None \<Rightarrow> (s, Inr ())
      | Some t \<Rightarrow>
          (case exec_action (net e) a t of
             (t', out, r) \<Rightarrow> (log_sent out (s\<lparr>transactions := dict_set i t' (transactions s)\<rparr>), r)))"

fun ua_exec_list :: "env \<Rightarrow> (tx_callback \<Rightarrow> unit act) \<Rightarrow> string \<Rightarrow> tx_action list \<Rightarrow> unit act" where
  "ua_exec_list e cb i [] = return_act ()"
| "ua_exec_list e cb i (a # as) = bind_act (ua_exec e cb i a) (\<lambda>_. ua_exec_list e cb i as)"

definition no_callback :: "tx_callback \<Rightarrow> unit act" where
  "no_callback c = return_act ()"

section \<open>The transaction manager\<close>

definition generate_transaction_id :: "env \<Rightarrow> SIPMessage \<Rightarrow> string" where
  "generate_transaction_id e m =
     (let via = get_header m ''via'';
          branch = (if truthy_str via
            then (case rx_search (rx_param ''branch='' (\<lambda>c. c \<noteq> CHR '';'')) (the via) of
                Some r \<Rightarrow> the (group_of r 1) | None \<Rightarrow> [])
            else [])
      in if branch \<noteq> [] then branch else take 16 (fresh_text e))"

definition add_transaction :: "string \<Rightarrow> TxKind \<Rightarrow> ua_state \<Rightarrow> ua_state" where
  "add_transaction i k s = s\<lparr>transactions := dict_set i (new_tx i k (ua_timers s)) (transactions s)\<rparr>"

definition create_client_transaction :: "env \<Rightarrow> SIPMessage \<Rightarrow> string act" where
  "create_client_transaction e req s =
     (let i = generate_transaction_id e req in
      if dict_get (transactions s) i \<noteq> None then (s, Inr i)
      else
        let k = (if method req = Some INVITE then INVITE_CLIENT else NON_INVITE_CLIENT)
        in bind_act (ua_exec_list e no_callback i (tx_start k req)) (\<lambda>_. return_act i) (add_transaction i k s))"

text \<open>Sending a final response through a transaction.\<close>

definition manager_send_response :: "env \<Rightarrow> string \<Rightarrow> int \<Rightarrow> string \<Rightarrow> string option \<Rightarrow> unit act" where
  "manager_send_response e i sc reason bd s =
     (case dict_get (transactions s) i of
        None \<Rightarrow> (s, Inr ())
      | Some t \<Rightarrow> ua_exec_list e no_callback i (tx_final (fresh_ident e) sc reason bd t) s)"

definition cleanup_transaction :: "string \<Rightarrow> ua_state \<Rightarrow> ua_state" where
  "cleanup_transaction i s = s\<lparr>transactions := dict_del i (transactions s)\<rparr>"

section \<open>Callbacks of the user agent\<close>

definition ua_handle_challenge :: "env \<Rightarrow> string \<Rightarrow> SIPMessage \<Rightarrow> unit act" where
  "ua_handle_challenge e i resp s =
     (case dict_get (transactions s) i of
        None \<Rightarrow> (s, Inr ())
      | Some t \<Rightarrow>
          (case request t of
             None \<Rightarrow> (s, Inr ())
           | Some req \<Rightarrow>
               (let (a', r) = authenticated_copy (hashing e) (fresh_cnonce e) (fresh_hex e 4) req resp (authenticator s);
                    s1 = s\<lparr>authenticator := a'\<rparr>
                in case r of
                     Inl err \<Rightarrow> (s1, Inl err)
                   | Inr None \<Rightarrow> (s1, Inr ())
                   | Inr (Some req') \<Rightarrow> (fst (create_client_transaction e req' s1), Inr ()))))"

definition on_final_response :: "env \<Rightarrow> string \<Rightarrow> SIPMessage \<Rightarrow> unit act" where
  "on_final_response e i resp s =
     (if status_code resp = Some 401 \<or> status_code resp = Some 407 then ua_handle_challenge e i resp s
      else case dict_get (transactions s) i of
        None \<Rightarrow> (s, Inr ())
      | Some t \<Rightarrow>
          if kind t = INVITE_CLIENT
          then (case dict_get (dialogs s) i of
              Some d \<Rightarrow> (s\<lparr>dialogs := fst (update_dialog_from_response (dialog_id d) resp (dialogs s))\<rparr>, Inr ())
            | None \<Rightarrow> (s, Inr ()))
          else (s, Inr ()))"

definition demo_body :: string where
  "demo_body = ''v=0'' @ [LF] @ ''o=- 123 456 IN IP4 127.0.0.1'' @ [LF] @ ''s=Test'' @ [LF] @ ''t=0 0''"

text \<open>The handler of an INVITE sleeps after the first response; the rest is \<open>ua_answer\<close> below.\<close>

definition on_request_received :: "env \<Rightarrow> string \<Rightarrow> SIPMessage \<Rightarrow> unit act" where
  "on_request_received e i req s =
     (case method req of
        None \<Rightarrow> (s, Inr ())
      | Some meth \<Rightarrow>
          if meth = INVITE then
            (case create_dialog_from_request (wall_clock e) req (dialogs s) of
               (ds, Inl err) \<Rightarrow> (s\<lparr>dialogs := ds\<rparr>, Inl err)
             | (ds, Inr _) \<Rightarrow>
                 bind_act (manager_send_response e i 100 ''Trying'' None)
                   (\<lambda>_ s'. (s'\<lparr>answers := answers s' @ [i]\<rparr>, Inr ())) (s\<lparr>dialogs := ds\<rparr>))
          else manager_send_response e i 200 ''OK'' None s)"

definition ua_answer :: "env \<Rightarrow> string \<Rightarrow> ua_state \<Rightarrow> (ua_state \<times> unit res) option" where
  "ua_answer e i s =
     (if i \<in> set (answers s)
      then Some (manager_send_response e i 200 ''OK'' (Some demo_body) (s\<lparr>answers := remove1 i (answers s)\<rparr>))
      else None)"

definition ua_callback :: "env \<Rightarrow> string \<Rightarrow> tx_callback \<Rightarrow> unit act" where
  "ua_callback e i c =
     (case c of
        OnProvisional _ \<Rightarrow> return_act ()
      | OnFinal resp \<Rightarrow> on_final_response e i resp
      | OnRequest req \<Rightarrow> on_request_received e i req
      | OnTimeout _ \<Rightarrow> return_act ()
      | OnTransportError \<Rightarrow> return_act ()
      | OnTerminated \<Rightarrow> (\<lambda>s. (cleanup_transaction i s, Inr ())))"

section \<open>Incoming messages\<close>

definition tx_process_in :: "env \<Rightarrow> string \<Rightarrow> SIPMessage \<Rightarrow> Tx \<Rightarrow> unit act" where
  "tx_process_in e i m t = ua_exec_list e (ua_callback e i) i (tx_process m t)"

definition create_server_transaction :: "env \<Rightarrow> SIPMessage \<Rightarrow> string act" where
  "create_server_transaction e req s =
     (let i = generate_transaction_id e req in
      case dict_get (transactions s) i of
        Some t \<Rightarrow> bind_act (tx_process_in e i req t) (\<lambda>_. return_act i) s
      | None \<Rightarrow>
          let k = (if method req = Some INVITE then INVITE_SERVER else NON_INVITE_SERVER)
          in bind_act (ua_exec_list e (ua_callback e i) i (tx_start k req)) (\<lambda>_. return_act i) (add_transaction i k s))"

definition process_response :: "env \<Rightarrow> SIPMessage \<Rightarrow> unit act" where
  "process_response e resp s =
     (let i = generate_transaction_id e resp in
      case dict_get (transactions s) i of
        None \<Rightarrow> (s, Inr ())
      | Some t \<Rightarrow> tx_process_in e i resp t s)"

definition process_request :: "env \<Rightarrow> SIPMessage \<Rightarrow> string act" where
  "process_request e req s =
     (if method req = Some ACK
      then (let i = generate_transaction_id e req in
        case dict_get (transactions s) i of
          Some t \<Rightarrow> bind_act (tx_process_in e i req t) (\<lambda>_. return_act i) s
        | None \<Rightarrow> create_server_transaction e req s)
      else create_server_transaction e req s)"

text \<open>Every exception is caught and logged, so the operation itself always returns.\<close>

definition process_incoming_message :: "env \<Rightarrow> string \<Rightarrow> ua_state \<Rightarrow> ua_state" where
  "process_incoming_message e raw s =
     (case message_parse raw of
        Inl _ \<Rightarrow> s
      | Inr m \<Rightarrow>
          if \<not> fst (message_validate (epoch_time e) m) then s
          else if is_request m then fst (process_request e m s)
          else fst (process_response e m s))"

section \<open>Tasks\<close>

definition ua_fire :: "env \<Rightarrow> string \<Rightarrow> TimerType \<Rightarrow> ua_state \<Rightarrow> (ua_state \<times> unit res) option" where
  "ua_fire e i ty s =
     (case dict_get (transactions s) i of
        None \<Rightarrow> None
      | Some t \<Rightarrow>
          if dict_get (active_timers t) ty = None then None
          else Some (ua_exec_list e (ua_callback e i) i (on_timer_fired ty)
            (s\<lparr>transactions := dict_set i (cancel_timer ty t) (transactions s)\<rparr>)))"

definition ua_cleanup :: "string \<Rightarrow> ua_state \<Rightarrow> ua_state option" where
  "ua_cleanup i s =
     (case dict_get (transactions s) i of
        None \<Rightarrow> None
      | Some t \<Rightarrow> if cleanups t = 0 then None else Some (cleanup_transaction i s))"

section \<open>Requests of the user agent\<close>

definition has_at :: "string \<Rightarrow> bool" where
  "has_at u = (CHR ''@'' \<in> set u)"

definition uri_domain :: "string \<Rightarrow> string" where
  "uri_domain u = (if has_at u then split_on ''@'' u ! 1 else ''localhost'')"

definition branch_of :: "string \<Rightarrow> string" where
  "branch_of hex = ''z9hG4bK'' @ take 16 hex"

text \<open>The headers every request starts with.\<close>

definition add_headers :: "(string \<times> string) list \<Rightarrow> SIPMessage \<Rightarrow> SIPMessage" where
  "add_headers hs m = fold (\<lambda>(n, v). add_header n v) hs m"

definition angle :: "string \<Rightarrow> string" where
  "angle u = ''<'' @ u @ ''>''"

definition create_options_request :: "env \<Rightarrow> string \<Rightarrow> string \<Rightarrow> SIPMessage" where
  "create_options_request e self target =
     add_headers
       [(''Via'', ''SIP/2.0/UDP '' @ uri_domain self @ '';branch='' @ branch_of (fresh_hex e 2)),
        (''Max-Forwards'', ''70''),
        (''From'', angle self @ '';tag='' @ take 8 (fresh_hex e 1)),
        (''To'', angle target),
        (''Call-ID'', fresh_hex e 0 @ ''@'' @ uri_domain self),
        (''CSeq'', ''1 OPTIONS''),
        (''Contact'', angle self),
        (''Content-Length'', ''0'')]
       (create_request OPTIONS target [] None)"

definition create_invite_request :: "env \<Rightarrow> string \<Rightarrow> string \<Rightarrow> string option \<Rightarrow> SIPMessage res" where
  "create_invite_request e self target bd =
     (if \<not> has_at self then Inl IndexError
      else
        let m = add_headers
              [(''Via'', ''SIP/2.0/UDP '' @ uri_domain self @ '';branch='' @ branch_of (fresh_hex e 2)),
               (''Max-Forwards'', ''70''),
               (''From'', angle self @ '';tag='' @ take 8 (fresh_hex e 1)),
               (''To'', angle target),
               (''Call-ID'', fresh_hex e 0 @ ''@'' @ uri_domain self),
               (''CSeq'', ''1 INVITE''),
               (''Contact'', angle self)]
              (create_request INVITE target [] None)
        in Inr (if truthy_str bd then set_body (BStr (the bd)) ''application/sdp'' m
                else add_header ''Content-Length'' ''0'' m))"

definition uri_user :: "string \<Rightarrow> string" where
  "uri_user u = (if has_at u then replace ''sip:'' [] (hd (split_on ''@'' u)) else ''anonymous'')"

definition create_register_request :: "env \<Rightarrow> string \<Rightarrow> string \<Rightarrow> int \<Rightarrow> SIPMessage" where
  "create_register_request e self registrar expires =
     add_headers
       [(''Via'', ''SIP/2.0/UDP '' @ uri_domain self @ '';branch='' @ branch_of (fresh_hex e 2)),
        (''Max-Forwards'', ''70''),
        (''From'', angle self @ '';tag='' @ take 8 (fresh_hex e 1)),
        (''To'', angle self),
        (''Call-ID'', fresh_hex e 0 @ ''@'' @ uri_domain self),
        (''CSeq'', ''1 REGISTER''),
        (''Contact'', angle (''sip:'' @ uri_user self @ ''@'' @ uri_domain self) @ '';expires='' @ int_str expires),
        (''Expires'', int_str expires),
        (''Content-Length'', ''0'')]
       (create_request REGISTER registrar [] None)"

definition create_bye_request :: "env \<Rightarrow> string \<Rightarrow> SIPDialog \<Rightarrow> SIPDialog \<times> SIPMessage" where
  "create_bye_request e self d =
     (let d' = d\<lparr>local_cseq := local_cseq d + 1\<rparr> in
      (d', add_headers
        [(''Via'', ''SIP/2.0/UDP '' @ uri_domain self @ '';branch='' @ branch_of (fresh_hex e 2)),
         (''Max-Forwards'', ''70''),
         (''From'', angle (local_uri d') @ '';tag='' @ show_opt id (local_tag d')),
         (''To'', angle (remote_uri d') @ '';tag='' @ show_opt id (remote_tag d')),
         (''Call-ID'', call_id d'),
         (''CSeq'', int_str (local_cseq d') @ '' BYE''),
         (''Content-Length'', ''0'')]
        (create_request BYE (remote_uri d') [] None)))"

definition send_options :: "env \<Rightarrow> string \<Rightarrow> string act" where
  "send_options e target s = create_client_transaction e (create_options_request e (ua_local_uri s) target) s"

definition send_invite :: "env \<Rightarrow> string \<Rightarrow> string option \<Rightarrow> string act" where
  "send_invite e target bd s =
     (case create_invite_request e (ua_local_uri s) target bd of
        Inl err \<Rightarrow> (s, Inl err)
      | Inr m \<Rightarrow> create_client_transaction e m s)"

definition send_register :: "env \<Rightarrow> string option \<Rightarrow> int \<Rightarrow> string act" where
  "send_register e registrar expires s =
     (let r = (if truthy_str registrar then the registrar else ''sip:'' @ uri_domain (ua_local_uri s))
      in create_client_transaction e (create_register_request e (ua_local_uri s) r expires) s)"

definition send_bye :: "env \<Rightarrow> string \<Rightarrow> string act" where
  "send_bye e did s =
     (case dict_get (dialogs s) did of
        None \<Rightarrow> (s, Inl ValueError)
      | Some d \<Rightarrow>
          (let (d', m) = create_bye_request e (ua_local_uri s) d
           in create_client_transaction e m (s\<lparr>dialogs := dict_set did d' (dialogs s)\<rparr>)))"

definition ua_add_credentials :: "string \<Rightarrow> string \<Rightarrow> string \<Rightarrow> ua_state \<Rightarrow> ua_state" where
  "ua_add_credentials realm usr pw s = s\<lparr>authenticator := add_credentials realm usr pw (authenticator s)\<rparr>"

section \<open>Helper functions of the module\<close>

definition helper_options_request ::
  "env \<Rightarrow> string \<Rightarrow> string \<Rightarrow> string option \<Rightarrow> string option \<Rightarrow> string option \<Rightarrow> string \<Rightarrow> SIPMessage" where
  "helper_options_request e target frm to_uri cid br local_address =
     create_request OPTIONS target
       [(''Via'', ''SIP/2.0/UDP '' @ local_address @ '';branch='' @ or_str br (''z9hG4bK-'' @ take 16 (fresh_hex e 2))),
        (''Max-Forwards'', ''70''),
        (''To'', angle (or_str to_uri target)),
        (''From'', angle frm @ '';tag='' @ take 8 (fresh_hex e 1)),
        (''Call-ID'', or_str cid (''tinysip-'' @ int_str (epoch_time e))),
        (''CSeq'', ''1 OPTIONS''),
        (''Content-Length'', ''0'')] None"

definition create_ok_response :: "int \<Rightarrow> SIPMessage \<Rightarrow> (string, string) dict \<Rightarrow> string option \<Rightarrow> SIPMessage" where
  "create_ok_response ident req extra bd =
     create_response ident 200 (Some ''OK'') (Some req)
       (fold (\<lambda>(k, v). dict_set k v) extra [(''Content-Length'', ''0'')]) (map_option BStr bd)"

section \<open>Evaluation rules\<close>

lemma act_simps [simp]:
  "return_act x s = (s, Inr x)"
  "f s = (s1, Inr x) \<Longrightarrow> bind_act f g s = g x s1"
  "f s = (s1, Inl e) \<Longrightarrow> bind_act f g s = (s1, Inl e)"
  by (simp_all add: return_act_def bind_act_def)

lemma bind_act_unfold: "bind_act f g s = (case f s of (s1, Inl e) \<Rightarrow> (s1, Inl e) | (s1, Inr x) \<Rightarrow> g x s1)"
  by (simp add: bind_act_def)

lemma log_sent_simps [simp]:
  "transactions (log_sent o1 s) = transactions s" "dialogs (log_sent o1 s) = dialogs s"
  "ua_timers (log_sent o1 s) = ua_timers s" "answers (log_sent o1 s) = answers s"
  "authenticator (log_sent o1 s) = authenticator s" "ua_local_uri (log_sent o1 s) = ua_local_uri s"
  "log_sent [] s = s"
  by (simp_all add: log_sent_def map_filter_simps)

lemma add_transaction_simps [simp]:
  "transactions (add_transaction i k s) = dict_set i (new_tx i k (ua_timers s)) (transactions s)"
  "dialogs (add_transaction i k s) = dialogs s" "ua_timers (add_transaction i k s) = ua_timers s"
  "sent_log (add_transaction i k s) = sent_log s" "answers (add_transaction i k s) = answers s"
  "authenticator (add_transaction i k s) = authenticator s"
  by (simp_all add: add_transaction_def)

lemma dict_set_twice [simp]: "dict_set k v (dict_set k w d) = dict_set k v d"
  by (induction d) auto

text \<open>A handler without callbacks acts on its transaction as it does alone, and touches nothing else.\<close>

definition silent :: "tx_action list \<Rightarrow> bool" where
  "silent as = list_all (\<lambda>a. case a of Notify _ \<Rightarrow> False | _ \<Rightarrow> True) as"

lemma ua_exec_silent:
  assumes "\<And>c. a \<noteq> Notify c" and "dict_get (transactions s) i = Some t" and "exec_action (net e) a t = (t', out, r)"
  shows "ua_exec e cb i a s = (log_sent out (s\<lparr>transactions := dict_set i t' (transactions s)\<rparr>), r)"
  using assms by (cases a) auto

lemma dict_set_same: "dict_get d k = Some v \<Longrightarrow> dict_set k v d = d"
  by (induction d) (auto split: if_splits)

lemma ua_exec_list_silent:
  "silent as \<Longrightarrow> dict_get (transactions s) i = Some t \<Longrightarrow> exec_actions (net e) as t = (t', out, r) \<Longrightarrow>
   ua_exec_list e cb i as s = (log_sent out (s\<lparr>transactions := dict_set i t' (transactions s)\<rparr>), r)"
proof (induction as arbitrary: s t out)
  case Nil
  then show ?case by (simp add: dict_set_same)
next
  case (Cons a as)
  obtain t1 o1 r1 where e1: "exec_action (net e) a t = (t1, o1, r1)" by (cases "exec_action (net e) a t") auto
  have na: "\<And>c. a \<noteq> Notify c" using Cons.prems(1) by (auto simp: silent_def)
  let ?s1 = "log_sent o1 (s\<lparr>transactions := dict_set i t1 (transactions s)\<rparr>)"
  have u: "ua_exec e cb i a s = (?s1, r1)" using ua_exec_silent[OF na Cons.prems(2) e1] .
  show ?case
  proof (cases r1)
    case (Inl err)
    with e1 u Cons.prems(3) show ?thesis by auto
  next
    case (Inr x)
    obtain o2 where o2: "exec_actions (net e) as t1 = (t', o2, r)" "out = o1 @ o2"
      using Cons.prems(3) e1 Inr by (auto split: prod.splits)
    have "ua_exec_list e cb i as ?s1 = (log_sent o2 (?s1\<lparr>transactions := dict_set i t' (transactions ?s1)\<rparr>), r)"
      using Cons.prems(1) o2(1) by (intro Cons.IH) (auto simp: silent_def)
    with u Inr o2(2) show ?thesis by (simp add: log_sent_def map_filter_def)
  qed
qed

section \<open>Well-formed user agents\<close>

text \<open>Every transaction is filed under its own identifier, once, and has the agent's timer configuration.\<close>

definition ua_wf :: "ua_state \<Rightarrow> bool" where
  "ua_wf s =
     (dict_ok (transactions s) \<and>
      list_all (\<lambda>(i, t). tx_id t = i \<and> timers t = ua_timers s \<and> retransmission_count t \<le> max_retransmissions)
        (transactions s))"

lemma list_all_dict_set: "list_all P d \<Longrightarrow> P (k, v) \<Longrightarrow> list_all P (dict_set k v d)"
  by (induction d) auto

lemma list_all_dict_del: "list_all P d \<Longrightarrow> list_all P (dict_del k d)"
  by (induction d) auto

lemma dict_get_list_all: "dict_get d k = Some v \<Longrightarrow> list_all P d \<Longrightarrow> P (k, v)"
  by (induction d) (auto split: if_splits)

lemma exec_action_count:
  "retransmission_count t \<le> max_retransmissions \<Longrightarrow>
   retransmission_count (fst (exec_action n a t)) \<le> max_retransmissions"
  by (cases a) (auto simp: handle_retransmission_def Let_def split: option.split)

text \<open>An operation that keeps the user agent well formed and its configuration.\<close>

definition keeps_wf :: "(ua_state \<Rightarrow> ua_state \<times> 'a res) \<Rightarrow> bool" where
  "keeps_wf f = (\<forall>s. ua_wf s \<longrightarrow> ua_wf (fst (f s)) \<and> ua_timers (fst (f s)) = ua_timers s)"

lemma keeps_wfD: "keeps_wf f \<Longrightarrow> ua_wf s \<Longrightarrow> ua_wf (fst (f s)) \<and> ua_timers (fst (f s)) = ua_timers s"
  by (simp add: keeps_wf_def)

lemma keeps_return [intro, simp]: "keeps_wf (return_act x)"
  by (simp add: keeps_wf_def)

lemma keeps_bind [intro]: "keeps_wf f \<Longrightarrow> (\<And>x. keeps_wf (g x)) \<Longrightarrow> keeps_wf (bind_act f g)"
  unfolding keeps_wf_def bind_act_unfold by (fastforce split: prod.split sum.split)

lemma wf_set_tx:
  assumes "ua_wf s" and "tx_id t = i" and "timers t = ua_timers s" and "retransmission_count t \<le> max_retransmissions"
  shows "ua_wf (s\<lparr>transactions := dict_set i t (transactions s)\<rparr>)"
  using assms by (simp add: ua_wf_def list_all_dict_set)

lemma wf_tx:
  assumes "ua_wf s" and "dict_get (transactions s) i = Some t"
  shows "tx_id t = i \<and> timers t = ua_timers s \<and> retransmission_count t \<le> max_retransmissions"
  using assms dict_get_list_all by (fastforce simp: ua_wf_def)

lemma wf_log [simp]: "ua_wf (log_sent o1 s) = ua_wf s"
  by (simp add: ua_wf_def)

lemma wf_add_transaction: "ua_wf s \<Longrightarrow> ua_wf (add_transaction i k s)"
  unfolding add_transaction_def by (intro wf_set_tx) (simp_all add: new_tx_def)

lemma keeps_exec:
  assumes "\<And>c. keeps_wf (cb c)"
  shows "keeps_wf (ua_exec e cb i a)"
  unfolding keeps_wf_def
proof (intro allI impI)
  fix s
  assume wf: "ua_wf s"
  show "ua_wf (fst (ua_exec e cb i a s)) \<and> ua_timers (fst (ua_exec e cb i a s)) = ua_timers s"
  proof (cases "\<exists>c. a = Notify c")
    case True
    then show ?thesis using assms wf by (auto simp: keeps_wf_def)
  next
    case False
    show ?thesis
    proof (cases "dict_get (transactions s) i")
      case None
      with False wf show ?thesis by (cases a) auto
    next
      case (Some t)
      obtain t' out r where x: "exec_action (net e) a t = (t', out, r)" by (cases "exec_action (net e) a t") auto
      have "tx_id t' = i" "timers t' = ua_timers s" "retransmission_count t' \<le> max_retransmissions"
        using exec_keeps[of "net e" a t] exec_action_count[of t "net e" a] wf_tx[OF wf Some] x by auto
      with ua_exec_silent[OF _ Some x, of cb] False wf show ?thesis by (simp add: wf_set_tx)
    qed
  qed
qed

lemma keeps_exec_list:
  assumes "\<And>c. keeps_wf (cb c)"
  shows "keeps_wf (ua_exec_list e cb i as)"
proof (induction as)
  case Nil
  show ?case unfolding ua_exec_list.simps by (rule keeps_return)
next
  case (Cons a as)
  then show ?case unfolding ua_exec_list.simps by (intro keeps_bind keeps_exec[OF assms])
qed

lemma keeps_no_callback [simp]: "keeps_wf (no_callback c)"
  by (simp add: no_callback_def)

lemma keeps_client: "keeps_wf (create_client_transaction e req)"
proof -
  have "keeps_wf (bind_act (ua_exec_list e no_callback i as) (\<lambda>_. return_act i))" for i as
    by (intro keeps_bind keeps_exec_list keeps_no_callback keeps_return)
  from keeps_wfD[OF this] show ?thesis
    unfolding keeps_wf_def create_client_transaction_def Let_def
    using wf_add_transaction by auto
qed

lemma keeps_send_response: "keeps_wf (manager_send_response e i sc reason bd)"
  using keeps_wfD[OF keeps_exec_list[OF keeps_no_callback]]
  unfolding keeps_wf_def manager_send_response_def by (auto split: option.split)

lemma wf_cleanup: "ua_wf s \<Longrightarrow> ua_wf (cleanup_transaction i s)"
  by (simp add: cleanup_transaction_def ua_wf_def list_all_dict_del)

lemma wf_other [simp]:
  "ua_wf (s\<lparr>dialogs := d\<rparr>) = ua_wf s" "ua_wf (s\<lparr>authenticator := a\<rparr>) = ua_wf s" "ua_wf (s\<lparr>answers := w\<rparr>) = ua_wf s"
  by (simp_all add: ua_wf_def)

lemma keeps_challenge: "keeps_wf (ua_handle_challenge e i resp)"
  unfolding keeps_wf_def ua_handle_challenge_def Let_def
  using keeps_wfD[OF keeps_client] by (auto split: option.split sum.split prod.split)

lemma keeps_final: "keeps_wf (on_final_response e i resp)"
  using keeps_wfD[OF keeps_challenge[of e i resp]]
  unfolding keeps_wf_def on_final_response_def by (auto split: option.split)

lemma keeps_request: "keeps_wf (on_request_received e i req)"
proof -
  have b: "keeps_wf (bind_act (manager_send_response e i 100 ''Trying'' None) (\<lambda>_ s'. (s'\<lparr>answers := answers s' @ [i]\<rparr>, Inr ())))"
    by (intro keeps_bind keeps_send_response) (simp add: keeps_wf_def)
  show ?thesis
    unfolding keeps_wf_def on_request_received_def
    using keeps_wfD[OF b] keeps_wfD[OF keeps_send_response] by (auto split: option.split prod.split sum.split)
qed

lemma keeps_callback: "keeps_wf (ua_callback e i c)"
  unfolding ua_callback_def using keeps_final keeps_request wf_cleanup
  by (auto simp: keeps_wf_def cleanup_transaction_def split: tx_callback.split)

lemma keeps_process: "keeps_wf (tx_process_in e i m t)"
  unfolding tx_process_in_def by (intro keeps_exec_list keeps_callback)

lemma keeps_server: "keeps_wf (create_server_transaction e req)"
proof -
  have "keeps_wf (bind_act (ua_exec_list e (ua_callback e i) i as) (\<lambda>_. return_act i))" for i as
    by (intro keeps_bind keeps_exec_list keeps_callback keeps_return)
  moreover have "keeps_wf (bind_act (tx_process_in e i req t) (\<lambda>_. return_act i))" for i t
    by (intro keeps_bind keeps_process keeps_return)
  ultimately show ?thesis
    unfolding keeps_wf_def create_server_transaction_def Let_def
    using wf_add_transaction by (auto split: option.split)
qed

lemma keeps_incoming: "ua_wf s \<Longrightarrow> ua_wf (process_incoming_message e raw s)"
proof -
  assume wf: "ua_wf s"
  have "keeps_wf (bind_act (tx_process_in e i m t) (\<lambda>_. return_act i))" for i m t
    by (intro keeps_bind keeps_process keeps_return)
  then have "keeps_wf (process_request e m)" for m
    using keeps_server unfolding keeps_wf_def process_request_def Let_def by (auto split: option.split)
  moreover have "keeps_wf (process_response e m)" for m
    using keeps_process unfolding keeps_wf_def process_response_def Let_def by (auto split: option.split)
  ultimately show ?thesis using wf by (auto simp: process_incoming_message_def keeps_wf_def split: sum.split)
qed

lemma keeps_fire: "ua_wf s \<Longrightarrow> ua_fire e i ty s = Some (s', r) \<Longrightarrow> ua_wf s'"
proof -
  assume wf: "ua_wf s" and f: "ua_fire e i ty s = Some (s', r)"
  then obtain t where t: "dict_get (transactions s) i = Some t"
    "(s', r) = ua_exec_list e (ua_callback e i) i (on_timer_fired ty)
      (s\<lparr>transactions := dict_set i (cancel_timer ty t) (transactions s)\<rparr>)"
    by (auto simp: ua_fire_def split: option.splits if_splits)
  have "ua_wf (s\<lparr>transactions := dict_set i (cancel_timer ty t) (transactions s)\<rparr>)"
    using wf_tx[OF wf t(1)] wf by (intro wf_set_tx) auto
  moreover have "keeps_wf (ua_exec_list e (ua_callback e i) i (on_timer_fired ty))"
    by (intro keeps_exec_list keeps_callback)
  ultimately show ?thesis using t(2) keeps_wfD by (metis fst_conv)
qed

section \<open>Steps of a user agent\<close>

text \<open>Everything that can happen to a user agent, in any order.\<close>

inductive ua_step :: "ua_state \<Rightarrow> ua_state \<Rightarrow> bool" where
  incoming: "ua_step s (process_incoming_message e raw s)"
| options: "ua_step s (fst (send_options e target s))"
| invite: "ua_step s (fst (send_invite e target bd s))"
| register: "ua_step s (fst (send_register e registrar expires s))"
| bye: "ua_step s (fst (send_bye e did s))"
| credentials: "ua_step s (ua_add_credentials realm usr pw s)"
| timer: "ua_fire e i ty s = Some (s', r) \<Longrightarrow> ua_step s s'"
| answer: "ua_answer e i s = Some (s', r) \<Longrightarrow> ua_step s s'"
| terminated: "ua_cleanup i s = Some s' \<Longrightarrow> ua_step s s'"

inductive ua_reach :: "ua_state \<Rightarrow> ua_state \<Rightarrow> bool" for s0 :: ua_state where
  refl: "ua_reach s0 s0"
| step: "ua_reach s0 s \<Longrightarrow> ua_step s s' \<Longrightarrow> ua_reach s0 s'"

lemma step_keeps_wf: "ua_step s s' \<Longrightarrow> ua_wf s \<Longrightarrow> ua_wf s'"
proof (induction rule: ua_step.induct)
  case (incoming s e raw)
  then show ?case by (rule keeps_incoming)
next
  case (options s e target)
  then show ?case using keeps_wfD[OF keeps_client] by (simp add: send_options_def)
next
  case (invite s e target bd)
  then show ?case using keeps_wfD[OF keeps_client] by (simp add: send_invite_def split: sum.split)
next
  case (register s e registrar expires)
  then show ?case using keeps_wfD[OF keeps_client] by (simp add: send_register_def Let_def)
next
  case (bye s e did)
  then show ?case using keeps_wfD[OF keeps_client] by (simp add: send_bye_def split: option.split prod.split)
next
  case (credentials s realm usr pw)
  then show ?case by (simp add: ua_add_credentials_def)
next
  case (timer e i ty s s' r)
  then show ?case using keeps_fire by blast
next
  case (answer e i s s' r)
  then have "(s', r) = manager_send_response e i 200 ''OK'' (Some demo_body) (s\<lparr>answers := remove1 i (answers s)\<rparr>)"
    by (auto simp: ua_answer_def split: if_splits)
  moreover have "ua_wf (s\<lparr>answers := remove1 i (answers s)\<rparr>)" using answer by simp
  ultimately show ?case using keeps_wfD[OF keeps_send_response] by (metis fst_conv)
next
  case (terminated i s s')
  then show ?case using wf_cleanup by (auto simp: ua_cleanup_def split: option.splits if_splits)
qed

section \<open>Answering requests\<close>

lemma tx_create_response_plain:
  "tx_create_response ident (Some req) sc reason None = Inr (create_response ident sc (Some reason) (Some req) [] None)"
  by (simp add: tx_create_response_def)

text \<open>The transaction a server request creates, before and after its answer.\<close>

definition server_tx :: "string \<Rightarrow> TxKind \<Rightarrow> TxState \<Rightarrow> SIPTimers option \<Rightarrow> SIPMessage \<Rightarrow> Tx" where
  "server_tx i k st c req = (new_tx i k c)\<lparr>request := Some req, state := st\<rparr>"

lemma server_tx_simps [simp]:
  "kind (server_tx i k st c req) = k" "state (server_tx i k st c req) = st" "timers (server_tx i k st c req) = c"
  "request (server_tx i k st c req) = Some req" "response (server_tx i k st c req) = None"
  "running (server_tx i k st c req) = {}" "tx_id (server_tx i k st c req) = i"
  by (simp_all add: server_tx_def new_tx_def running_def dict_keys_def)

lemma start_server:
  assumes "k = INVITE_SERVER \<and> st = PROCEEDING \<or> k = NON_INVITE_SERVER \<and> st = TRYING"
  shows "ua_exec_list e cb i (tx_start k req) (add_transaction i k s) =
     bind_act (cb (OnRequest req)) (\<lambda>_. return_act ())
       (s\<lparr>transactions := dict_set i (server_tx i k st (ua_timers s) req) (transactions s)\<rparr>)"
proof -
  have "ua_exec_list e cb i [SetRequest req, Transition st] (add_transaction i k s) =
      (s\<lparr>transactions := dict_set i (server_tx i k st (ua_timers s) req) (transactions s)\<rparr>, Inr ())"
    using assms
    by (subst ua_exec_list_silent[where t = "new_tx i k (ua_timers s)" and t' = "server_tx i k st (ua_timers s) req" and out = "[]" and r = "Inr ()"])
      (auto simp: silent_def server_tx_def new_tx_def transition_to_def add_transaction_def)
  moreover have "tx_start k req = [SetRequest req, Transition st] @ [Notify (OnRequest req)]"
    using assms by (auto simp: tx_start_defs)
  ultimately show ?thesis by (simp add: bind_act_unfold split: prod.splits sum.splits)
qed

text \<open>The answer of a non-INVITE transaction, and the provisional answer of an INVITE one.\<close>

definition answered_tx :: "string \<Rightarrow> SIPTimers \<Rightarrow> SIPMessage \<Rightarrow> SIPMessage \<Rightarrow> Tx" where
  "answered_tx i c req resp =
     start_timer TIMER_J (64 * T1 c) ((server_tx i NON_INVITE_SERVER COMPLETED (Some c) req)\<lparr>response := Some resp\<rparr>)"

definition stuck_tx :: "string \<Rightarrow> SIPTimers \<Rightarrow> SIPMessage \<Rightarrow> SIPMessage \<Rightarrow> Tx" where
  "stuck_tx i c req resp =
     (start_timer TIMER_G (T1 c) (start_timer TIMER_H (64 * T1 c)
       (server_tx i INVITE_SERVER COMPLETED (Some c) req)))\<lparr>response := Some resp\<rparr>"

lemma exec_non_invite_final:
  defines "resp ident sc reason req \<equiv> create_response ident sc (Some reason) (Some req) [] None"
  shows "exec_actions n (tx_final ident sc reason None (server_tx i NON_INVITE_SERVER TRYING (Some c) req))
       (server_tx i NON_INVITE_SERVER TRYING (Some c) req) =
     (answered_tx i c req (resp ident sc reason req),
      send_raw n (message_str (resp ident sc reason req)) (extract_response_destination (resp ident sc reason req)), Inr ())"
  by (simp add: tx_final_def non_invite_server_final_def with_response_def tx_create_response_plain send_response_def
      answered_tx_def transition_to_def server_tx_def start_timer_def new_tx_def resp_def)

lemma exec_invite_final_100:
  defines "resp ident req \<equiv> create_response ident 100 (Some ''Trying'') (Some req) [] None"
  shows "exec_actions n (tx_final ident 100 ''Trying'' None (server_tx i INVITE_SERVER PROCEEDING (Some c) req))
       (server_tx i INVITE_SERVER PROCEEDING (Some c) req) =
     (stuck_tx i c req (resp ident req),
      send_raw n (message_str (resp ident req)) (extract_response_destination (resp ident req)), Inr ())"
  by (simp add: tx_final_def invite_server_final_def with_response_def tx_create_response_plain send_response_def
      stuck_tx_def transition_to_def server_tx_def start_timer_def new_tx_def resp_def)

lemma final_silent: "silent (tx_final ident sc reason bd t)"
  by (cases "kind t")
    (auto simp: silent_def tx_final_def invite_server_final_def non_invite_server_final_def with_response_def split: sum.split)

definition answer_log :: "env \<Rightarrow> SIPMessage \<Rightarrow> (string \<times> address) list" where
  "answer_log e resp =
     (let a = extract_response_destination resp in if net e (message_str resp) a then [(message_str resp, a)] else [])"

lemma log_send_raw:
  "log_sent (send_raw (net e) (message_str resp) (extract_response_destination resp)) s = s\<lparr>sent_log := sent_log s @ answer_log e resp\<rparr>"
  by (simp add: log_sent_def send_raw_def answer_log_def Let_def map_filter_simps)

lemma non_invite_request_answered:
  assumes "dict_get (transactions s) i = None" and "i = generate_transaction_id e req" and "ua_timers s = Some c"
    and "method req = Some meth" and "meth \<noteq> INVITE"
  defines "resp \<equiv> create_response (fresh_ident e) 200 (Some ''OK'') (Some req) [] None"
  shows "create_server_transaction e req s =
     (s\<lparr>transactions := dict_set i (answered_tx i c req resp) (transactions s), sent_log := sent_log s @ answer_log e resp\<rparr>, Inr i)"
proof -
  let ?t = "server_tx i NON_INVITE_SERVER TRYING (Some c) req"
  let ?s = "s\<lparr>transactions := dict_set i ?t (transactions s)\<rparr>"
  have "manager_send_response e i 200 ''OK'' None ?s =
      (s\<lparr>transactions := dict_set i (answered_tx i c req resp) (transactions s), sent_log := sent_log s @ answer_log e resp\<rparr>, Inr ())"
    using ua_exec_list_silent[OF final_silent _ exec_non_invite_final[of "net e" "fresh_ident e" 200 "''OK''" i c req], of ?s i no_callback]
    by (simp add: manager_send_response_def log_send_raw resp_def)
  with assms start_server[of NON_INVITE_SERVER TRYING e "ua_callback e i" i req s] show ?thesis
    by (simp add: create_server_transaction_def ua_callback_def on_request_received_def bind_act_unfold Let_def)
qed

lemma invite_request_trying:
  assumes "dict_get (transactions s) i = None" and "i = generate_transaction_id e req" and "ua_timers s = Some c"
    and "method req = Some INVITE" and "create_dialog_from_request (wall_clock e) req (dialogs s) = (ds, Inr d)"
  defines "resp \<equiv> create_response (fresh_ident e) 100 (Some ''Trying'') (Some req) [] None"
  shows "create_server_transaction e req s =
     (s\<lparr>transactions := dict_set i (stuck_tx i c req resp) (transactions s), dialogs := ds,
        sent_log := sent_log s @ answer_log e resp, answers := answers s @ [i]\<rparr>, Inr i)"
proof -
  let ?t = "server_tx i INVITE_SERVER PROCEEDING (Some c) req"
  let ?s = "s\<lparr>transactions := dict_set i ?t (transactions s), dialogs := ds\<rparr>"
  have "manager_send_response e i 100 ''Trying'' None ?s =
      (s\<lparr>transactions := dict_set i (stuck_tx i c req resp) (transactions s), dialogs := ds,
         sent_log := sent_log s @ answer_log e resp\<rparr>, Inr ())"
    using ua_exec_list_silent[OF final_silent _ exec_invite_final_100[of "net e" "fresh_ident e" i c req], of ?s i no_callback]
    by (simp add: manager_send_response_def log_send_raw resp_def)
  with assms start_server[of INVITE_SERVER PROCEEDING e "ua_callback e i" i req s] show ?thesis
    by (simp add: create_server_transaction_def ua_callback_def on_request_received_def bind_act_unfold Let_def)
qed

lemma stuck_tx_final: "tx_final ident sc reason bd (stuck_tx i c req resp) = []"
  by (simp add: stuck_tx_def tx_final_def invite_server_final_def)

section \<open>Client requests\<close>

definition client_kind :: "SIPMessage \<Rightarrow> TxKind" where
  "client_kind req = (if method req = Some INVITE then INVITE_CLIENT else NON_INVITE_CLIENT)"

lemma client_kind_client [simp]: "is_client (client_kind req)"
  by (simp add: client_kind_def is_client_def)

definition request_log :: "env \<Rightarrow> SIPMessage \<Rightarrow> (string \<times> address) list" where
  "request_log e m = (let a = extract_destination m in if net e (message_str m) a then [(message_str m, a)] else [])"

lemma client_start_exec:
  assumes "is_client k"
  shows "exec_actions n (tx_start k req) (new_tx i k c) =
     (started n i k c req, send_raw n (message_str req) (extract_destination req),
      case c of None \<Rightarrow> Inl AttributeError | Some _ \<Rightarrow> Inr ())"
  using assms by (cases c) (auto simp: started_def tx_start_defs is_client_def send_request_def)

lemma client_start_silent: "is_client k \<Longrightarrow> silent (tx_start k req)"
  by (auto simp: silent_def tx_start_defs is_client_def)

lemma client_transaction_created:
  assumes "dict_get (transactions s) i = None" and "i = generate_transaction_id e req"
  shows "create_client_transaction e req s =
     (s\<lparr>transactions := dict_set i (started (net e) i (client_kind req) (ua_timers s) req) (transactions s),
        sent_log := sent_log s @ request_log e req\<rparr>,
      case ua_timers s of None \<Rightarrow> Inl AttributeError | Some _ \<Rightarrow> Inr i)"
proof -
  let ?k = "client_kind req"
  have log: "log_sent (send_raw (net e) (message_str req) (extract_destination req)) s1 = s1\<lparr>sent_log := sent_log s1 @ request_log e req\<rparr>" for s1
    by (simp add: log_sent_def send_raw_def request_log_def Let_def map_filter_simps)
  have "ua_exec_list e no_callback i (tx_start ?k req) (add_transaction i ?k s) =
     (s\<lparr>transactions := dict_set i (started (net e) i ?k (ua_timers s) req) (transactions s),
        sent_log := sent_log s @ request_log e req\<rparr>,
      case ua_timers s of None \<Rightarrow> Inl AttributeError | Some _ \<Rightarrow> Inr ())"
    using ua_exec_list_silent[OF client_start_silent[OF client_kind_client] _ client_start_exec[OF client_kind_client],
        of "add_transaction i ?k s" i i req "ua_timers s" e no_callback]
    by (simp add: log) (simp add: add_transaction_def)
  with assms show ?thesis
    by (cases "ua_timers s") (simp_all add: create_client_transaction_def Let_def bind_act_unfold client_kind_def)
qed

lemma ua_exec_list_append:
  "ua_exec_list e cb i (as @ bs) s = bind_act (ua_exec_list e cb i as) (\<lambda>_. ua_exec_list e cb i bs) s"
  by (induction as arbitrary: s) (auto simp: bind_act_unfold split: prod.splits sum.splits)

lemma challenge_answered:
  assumes "dict_get (transactions s) i = Some t" and "request t = Some req"
    and "authenticated_copy (hashing e) (fresh_cnonce e) (fresh_hex e 4) req resp (authenticator s) = (a', Inr (Some req'))"
    and "j = generate_transaction_id e req'" and "dict_get (transactions s) j = None"
  shows "ua_handle_challenge e i resp s =
     (s\<lparr>authenticator := a', transactions := dict_set j (started (net e) j (client_kind req') (ua_timers s) req') (transactions s),
        sent_log := sent_log s @ request_log e req'\<rparr>, Inr ())"
  using client_transaction_created[of "s\<lparr>authenticator := a'\<rparr>" j e req'] assms
  by (simp add: ua_handle_challenge_def)

section \<open>Dialogs and responses\<close>

text \<open>An operation that leaves the dialogs alone when none is filed under the given identifier.\<close>

definition keeps_dialogs :: "string \<Rightarrow> (ua_state \<Rightarrow> ua_state \<times> 'a res) \<Rightarrow> bool" where
  "keeps_dialogs i f = (\<forall>s. dict_get (dialogs s) i = None \<longrightarrow> dialogs (fst (f s)) = dialogs s)"

lemma keeps_dialogs_bind: "keeps_dialogs i f \<Longrightarrow> (\<And>x. keeps_dialogs i (g x)) \<Longrightarrow> keeps_dialogs i (bind_act f g)"
  unfolding keeps_dialogs_def
proof (intro allI impI)
  fix s
  assume f: "\<forall>s::ua_state. dict_get (dialogs s) i = None \<longrightarrow> dialogs (fst (f s)) = dialogs s"
    and g: "\<And>x. \<forall>s::ua_state. dict_get (dialogs s) i = None \<longrightarrow> dialogs (fst (g x s)) = dialogs s"
    and n: "dict_get (dialogs (s::ua_state)) i = None"
  obtain s1 r where r: "f s = (s1, r)" by (cases "f s")
  with f n have "dialogs s1 = dialogs s" by (metis fst_conv)
  with r g n show "dialogs (fst (bind_act f g s)) = dialogs s" by (cases r) (simp_all add: bind_act_unfold)
qed

lemma keeps_dialogs_exec:
  assumes "\<And>c. a = Notify c \<Longrightarrow> keeps_dialogs j (cb c)"
  shows "keeps_dialogs j (ua_exec e cb i a)"
  using assms by (cases a) (auto simp: keeps_dialogs_def split: option.split prod.split)

lemma keeps_dialogs_list:
  "(\<And>c. Notify c \<in> set as \<Longrightarrow> keeps_dialogs j (cb c)) \<Longrightarrow> keeps_dialogs j (ua_exec_list e cb i as)"
proof (induction as)
  case Nil
  show ?case by (simp add: keeps_dialogs_def)
next
  case (Cons a as)
  then show ?case unfolding ua_exec_list.simps by (intro keeps_dialogs_bind keeps_dialogs_exec) auto
qed

lemma ua_exec_dialogs: "dialogs (fst (ua_exec e no_callback i a s)) = dialogs s"
  by (cases a) (auto simp: no_callback_def split: option.split prod.split)

lemma keeps_dialogs_client: "dialogs (fst (create_client_transaction e req s)) = dialogs s"
proof -
  have l: "dialogs (fst (ua_exec_list e no_callback i as s1)) = dialogs s1" for i as s1
  proof (induction as arbitrary: s1)
    case (Cons a as)
    then show ?case using ua_exec_dialogs[of e i a s1]
      by (cases "ua_exec e no_callback i a s1"; cases "snd (ua_exec e no_callback i a s1)") (auto simp: bind_act_unfold)
  qed simp
  show ?thesis
    using l[of "generate_transaction_id e req" "tx_start (client_kind req) req" "add_transaction (generate_transaction_id e req) (client_kind req) s"]
    by (auto simp: create_client_transaction_def Let_def bind_act_unfold client_kind_def split: prod.splits sum.splits)
qed

lemma tx_process_callbacks: "Notify c \<in> set (tx_process m t) \<Longrightarrow> (\<exists>r. c = OnProvisional r) \<or> (\<exists>r. c = OnFinal r)"
  by (cases "kind t"; cases "status_code m"; cases "response t"; cases "state t")
    (auto simp: tx_process_def invite_client_process_def non_invite_client_process_def invite_server_process_def
      non_invite_server_process_def split: if_splits)

lemma keeps_dialogs_final: "keeps_dialogs i (on_final_response e i resp)"
  using keeps_dialogs_client
  by (auto simp: keeps_dialogs_def on_final_response_def ua_handle_challenge_def Let_def split: option.split prod.split sum.split)

lemma keeps_dialogs_process: "keeps_dialogs i (tx_process_in e i m t)"
  unfolding tx_process_in_def
proof (rule keeps_dialogs_list)
  fix c
  assume "Notify c \<in> set (tx_process m t)"
  then show "keeps_dialogs i (ua_callback e i c)"
    using tx_process_callbacks keeps_dialogs_final by (fastforce simp: ua_callback_def keeps_dialogs_def)
qed

section \<open>Where requests go\<close>

lemma via_address_plain:
  assumes "h \<noteq> []" and "list_all (\<lambda>c. c \<noteq> CHR '';'' \<and> c \<noteq> CHR '':'' \<and> \<not> is_space c) h"
  shows "via_address (''SIP/2.0/UDP '' @ h @ '';'' @ rest) = Some (h, 5060)"
proof -
  let ?tail = "CHR '';'' # rest"
  have 1: "rx_begins (rx_lit ''SIP/2.0/'') (''SIP/2.0/'' @ ''UDP'' @ '' '' @ h @ ?tail) [] (''SIP/2.0/'', ''UDP'' @ '' '' @ h @ ?tail, [])"
    by (rule begins_lit)
  have 2: "rx_begins (RRep1 is_word) (''UDP'' @ '' '' @ h @ ?tail) [] (''UDP'', '' '' @ h @ ?tail, [])"
    by (intro begins_rep1) (simp_all add: char_class_defs)
  have 3: "rx_begins (RRep1 is_space) ('' '' @ h @ ?tail) [] ('' '', h @ ?tail, [])"
    using assms by (intro begins_rep1) (auto simp: list_all_iff neq_Nil_conv)
  have 4: "rx_begins (RRep1 (\<lambda>c. c \<noteq> CHR '';'' \<and> c \<noteq> CHR '':'' \<and> \<not> is_space c)) (h @ ?tail) [] (h, ?tail, [])"
    using assms by (intro begins_rep1) (auto simp: list_all_iff)
  have 5: "rx_begins (ROpt (RSeq (RChr (\<lambda>c. c = CHR '':'')) (RGrp 2 (RRep1 is_digit)))) ?tail [(1, h)] ([], ?tail, [(1, h)])"
    by (rule begins_opt_none) simp
  have g: "rx_begins (RGrp 1 (RRep1 (\<lambda>c. c \<noteq> CHR '';'' \<and> c \<noteq> CHR '':'' \<and> \<not> is_space c))) (h @ ?tail) [] (h, ?tail, [(1, h)])"
    using begins_grp[OF 4, of 1] by simp
  have "rx_begins via_rx (''SIP/2.0/'' @ ''UDP'' @ '' '' @ h @ ?tail) [] (''SIP/2.0/'' @ ''UDP'' @ '' '' @ h @ [], ?tail, [(1, h)])"
    unfolding via_rx_def rx_seq.simps by (intro begins_seq[OF 1] begins_seq[OF 2] begins_seq[OF 3] begins_seq[OF g] 5)
  from begins_first[OF this] show ?thesis by (simp add: via_address_def group_of_def)
qed

lemma add_headers_keeps: "get_header m k = Some v \<Longrightarrow> get_header (add_headers hs m) k = Some v"
  by (induction hs arbitrary: m) (auto simp: add_headers_def get_header_add)

lemma add_headers_via:
  assumes "get_header m ''via'' = None" and "stripped v"
  shows "get_header (add_headers ((''Via'', v) # hs) m) ''via'' = Some v"
proof -
  have "get_header (add_header ''Via'' v m) ''via'' = Some v"
    using assms by (simp add: get_header_add strip_id lower_eval) (simp add: strip_id stripped_def char_class_defs lower_eval)
  from add_headers_keeps[OF this, of hs] show ?thesis by (simp add: add_headers_def)
qed

lemma get_header_set_body:
  assumes "lower k \<notin> {''content-type'', ''content-length''}"
  shows "get_header (set_body arg ct m) k = get_header m k"
proof -
  have "stripped ''Content-Length''" "stripped ''Content-Type''" by (simp_all add: stripped_def char_class_defs)
  moreover have "lower ''Content-Length'' = ''content-length''" "lower ''Content-Type'' = ''content-type''" by (simp_all add: lower_eval)
  ultimately show ?thesis using assms by (simp add: set_body_def get_header_set Let_def) (simp add: get_header_def)
qed

lemma new_request_via [simp]: "get_header (create_request meth u [] None) ''via'' = None"
  by (simp add: create_request_def attach_body_def get_header_def new_message_def)

lemma via_stripped:
  assumes "list_all (\<lambda>c. \<not> is_space c) hex"
  shows "stripped (''SIP/2.0/UDP '' @ d @ '';branch='' @ branch_of hex)"
proof -
  have K: "\<not> is_space (CHR ''K'')" "\<not> is_space (CHR ''S'')" by (simp_all add: char_class_defs)
  have ne: "branch_of hex \<noteq> []" by (simp add: branch_of_def)
  have "\<not> is_space (last (branch_of hex))"
  proof (cases "take 16 hex = []")
    case True
    then show ?thesis using K by (simp add: branch_of_def)
  next
    case False
    then have "last (branch_of hex) = last (take 16 hex)" by (simp only: branch_of_def last_append if_False)
    moreover have "last (take 16 hex) \<in> set hex" using last_in_set[OF False] in_set_takeD by fast
    ultimately show ?thesis using assms by (metis list_all_iff)
  qed
  moreover have "last (''SIP/2.0/UDP '' @ d @ '';branch='' @ branch_of hex) = last (branch_of hex)"
    using ne by (simp only: last_append append_is_Nil_conv simp_thms if_False)
  ultimately show ?thesis using K(2) unfolding stripped_def by (simp only: append_Cons list.sel list.distinct simp_thms)
qed

definition own_via :: "env \<Rightarrow> string \<Rightarrow> string" where
  "own_via e self = ''SIP/2.0/UDP '' @ uri_domain self @ '';branch='' @ branch_of (fresh_hex e 2)"

lemma request_via:
  assumes "list_all (\<lambda>c. \<not> is_space c) (fresh_hex e 2)"
  shows "get_header (create_options_request e self target) ''via'' = Some (own_via e self)"
    and "get_header (create_register_request e self target expires) ''via'' = Some (own_via e self)"
    and "create_invite_request e self target bd = Inr m \<Longrightarrow> get_header m ''via'' = Some (own_via e self)"
proof -
  note v = add_headers_via[OF new_request_via via_stripped[OF assms, of "uri_domain self"], folded own_via_def]
  show "get_header (create_options_request e self target) ''via'' = Some (own_via e self)"
    unfolding create_options_request_def own_via_def[symmetric] by (rule v)
  show "get_header (create_register_request e self target expires) ''via'' = Some (own_via e self)"
    unfolding create_register_request_def own_via_def[symmetric] by (rule v)
  assume "create_invite_request e self target bd = Inr m"
  then obtain hs where "m = set_body (BStr (the bd)) ''application/sdp'' (add_headers ((''Via'', own_via e self) # hs) (create_request INVITE target [] None))
      \<or> m = add_header ''Content-Length'' ''0'' (add_headers ((''Via'', own_via e self) # hs) (create_request INVITE target [] None))"
    unfolding create_invite_request_def own_via_def[symmetric] Let_def by (auto simp only: sum.inject sum.distinct split: if_splits)
  moreover have "lower ''via'' \<notin> {''content-type'', ''content-length''}" by (simp add: lower_eval)
  note b = get_header_set_body[OF this]
  ultimately show "get_header m ''via'' = Some (own_via e self)"
    by (elim disjE) (simp_all only: b v get_header_add option.case)
qed

section \<open>An example agent\<close>

definition example_env :: env where
  "example_env = \<lparr>net = (\<lambda>_ _. True), hashing = toy_hashes, epoch_time = 0, wall_clock = 0, fresh_cnonce = ''c0ffee'',
     fresh_ident = 77, fresh_text = ''t'', fresh_hex = (\<lambda>_. ''00ff'')\<rparr>"

definition example_ua :: ua_state where
  "example_ua = new_ua ''sip:a@b'' (Some default_timers)"

definition example_options :: SIPMessage where
  "example_options = create_options_request example_env ''sip:a@b'' ''sip:c@d''"

definition invite_example :: SIPMessage where
  "invite_example = options_example\<lparr>method := Some INVITE,
     headers := [\<lparr>hname = ''Call-ID'', hvalue = ''abc''\<rparr>, \<lparr>hname = ''From'', hvalue = ''<sip:a@b>;tag=1''\<rparr>,
       \<lparr>hname = ''CSeq'', hvalue = int_str 1 @ '' INVITE''\<rparr>]\<rparr>"

definition challenged_ua :: ua_state where
  "challenged_ua = (new_ua ''sip:a@b'' (Some default_timers))\<lparr>authenticator := example_auth,
     transactions := [(''t'', started (\<lambda>_ _. True) ''t'' NON_INVITE_CLIENT (Some default_timers) branch_example)]\<rparr>"

section \<open>Properties\<close>

text \<open>C5. The transaction table stays consistent: from a new user agent, whatever is received, sent, timed out,
  answered or cleaned up, in any order, every transaction is filed once, under its own identifier, with
  the agent's timer configuration, and has been retransmitted at most seven times.\<close>

theorem user_agent_invariant:
  assumes "ua_reach (new_ua u c) s" and "dict_get (transactions s) i = Some t"
  shows "distinct (dict_keys (transactions s)) \<and> tx_id t = i \<and> timers t = ua_timers s \<and> retransmission_count t \<le> 7"
proof -
  have "ua_wf s" using assms(1)
  proof (induction rule: ua_reach.induct)
    case refl
    show ?case by (simp add: ua_wf_def new_ua_def)
  next
    case (step s s')
    then show ?case using step_keeps_wf by blast
  qed
  with wf_tx[OF this assms(2)] show ?thesis by (auto simp: ua_wf_def max_retransmissions_def dict_ok_def dict_keys_def)
qed

theorem user_agent_invariant_witness:
  "\<exists>t. dict_get (transactions (fst (send_options example_env ''sip:c@d'' example_ua))) (generate_transaction_id example_env example_options) = Some t \<and>
     tx_id t = generate_transaction_id example_env example_options \<and> retransmission_count t \<le> 7"
proof -
  let ?s = "fst (send_options example_env ''sip:c@d'' example_ua)" and ?i = "generate_transaction_id example_env example_options"
  have "ua_reach example_ua ?s" by (rule ua_reach.step[OF ua_reach.refl ua_step.options])
  moreover obtain t where t: "dict_get (transactions ?s) ?i = Some t"
    using client_transaction_created[of example_ua ?i example_env example_options]
    by (simp add: send_options_def example_ua_def new_ua_def example_options_def)
  ultimately show ?thesis
    using user_agent_invariant[of "''sip:a@b''" "Some default_timers" ?s ?i t] by (auto simp: example_ua_def)
qed





text \<open>C12. A challenge is answered: a 401 to a request sent in a non-INVITE transaction for which credentials are
  known ends that transaction and sends the authenticated copy in a new one.\<close>

theorem challenge_resends_request:
  assumes "dict_get (transactions s) i = Some t" and "i = generate_transaction_id e resp"
    and "kind t = NON_INVITE_CLIENT" and "state t = TRYING" and "request t = Some req"
    and "status_code resp = Some 401"
    and "authenticated_copy (hashing e) (fresh_cnonce e) (fresh_hex e 4) req resp (authenticator s) = (a', Inr (Some req'))"
    and "j = generate_transaction_id e req'" and "dict_get (transactions s) j = None"
  shows "\<exists>s' t1 t2. process_response e resp s = (s', Inr ()) \<and>
    dict_get (transactions s') i = Some t1 \<and> state t1 = TERMINATED \<and>
    dict_get (transactions s') j = Some t2 \<and> request t2 = Some req' \<and> state t2 = TRYING \<and>
    sent_log s' = sent_log s @ request_log e req'"
proof -
  let ?t1 = "cancel_timer TIMER_F (cancel_timer TIMER_E (transition_to TERMINATED t))"
  let ?s1 = "s\<lparr>transactions := dict_set i ?t1 (transactions s)\<rparr>"
  have ji: "j \<noteq> i" using assms(1,9) by auto
  have tp: "tx_process resp t = [Transition TERMINATED, CancelTimer TIMER_E, CancelTimer TIMER_F] @ [Notify (OnFinal resp)]"
    using assms(3,4,6) by (simp add: tx_process_def non_invite_client_process_def)
  have "ua_exec_list e (ua_callback e i) i [Transition TERMINATED, CancelTimer TIMER_E, CancelTimer TIMER_F] s = (?s1, Inr ())"
    using ua_exec_list_silent[OF _ assms(1), of "[Transition TERMINATED, CancelTimer TIMER_E, CancelTimer TIMER_F]" e ?t1 "[]" "Inr ()"]
    by (simp add: silent_def)
  moreover have "ua_handle_challenge e i resp ?s1 =
     (?s1\<lparr>authenticator := a', transactions := dict_set j (started (net e) j (client_kind req') (ua_timers s) req') (transactions ?s1),
        sent_log := sent_log s @ request_log e req'\<rparr>, Inr ())"
    using challenge_answered[of ?s1 i ?t1 req e resp a' req' j] assms ji by simp
  ultimately have "process_response e resp s =
     (?s1\<lparr>authenticator := a', transactions := dict_set j (started (net e) j (client_kind req') (ua_timers s) req') (transactions ?s1),
        sent_log := sent_log s @ request_log e req'\<rparr>, Inr ())"
    using assms(1,2,6)
    by (simp add: process_response_def tx_process_in_def tp ua_exec_list_append ua_callback_def on_final_response_def
        Let_def bind_act_unfold del: append.simps)
  moreover have "request (started (net e) j k cc req') = Some req' \<and> state (started (net e) j k cc req') = TRYING"
    if "is_client k" for k cc
    using that by (cases cc) (auto simp: started_def tx_start_defs is_client_def)
  ultimately show ?thesis using ji by simp
qed

theorem challenge_resends_request_witness:
  "\<exists>s' t2. process_response example_env md5_challenge challenged_ua = (s', Inr ()) \<and>
     dict_get (transactions s') ''z9hG4bK00ff'' = Some t2 \<and> state t2 = TRYING"
proof -
  obtain a' m where m: "authenticated_copy toy_hashes ''c0ffee'' ''00ff'' branch_example md5_challenge example_auth = (a', Inr (Some m))"
    "get_header m ''via'' = Some ''SIP/2.0/UDP h;branch=z9hG4bK00ff''" using branch_example_copy by blast
  have p: "partition_at ''branch='' ''SIP/2.0/UDP h;branch=z9hG4bK00ff'' = Some (''SIP/2.0/UDP h;'', ''z9hG4bK00ff'')" by simp
  have "rx_search (rx_param ''branch='' (\<lambda>c. c \<noteq> CHR '';'')) ''SIP/2.0/UDP h;branch=z9hG4bK00ff''
      = Some (''branch=z9hG4bK00ff'', [], [(1, ''z9hG4bK00ff'')])"
    using rx_param_search[OF p, of "\<lambda>c. c \<noteq> CHR '';''"] by simp
  then have j: "generate_transaction_id example_env m = ''z9hG4bK00ff''"
    unfolding generate_transaction_id_def m(2) by (simp add: group_of_def)
  have i: "generate_transaction_id example_env md5_challenge = ''t''"
    by (simp add: generate_transaction_id_def get_header_def md5_challenge_def example_env_def lower_eval)
  let ?t = "started (\<lambda>_ _. True) ''t'' NON_INVITE_CLIENT (Some default_timers) branch_example"
  have t: "kind ?t = NON_INVITE_CLIENT" "state ?t = TRYING" "request ?t = Some branch_example"
    by (simp_all add: started_def tx_start_defs new_tx_def)
  have d: "dict_get (transactions challenged_ua) ''t'' = Some ?t" "dict_get (transactions challenged_ua) ''z9hG4bK00ff'' = None"
    "authenticated_copy (hashing example_env) (fresh_cnonce example_env) (fresh_hex example_env 4) branch_example md5_challenge
      (authenticator challenged_ua) = (a', Inr (Some m))"
    using m(1) by (simp_all add: challenged_ua_def example_env_def)
  from challenge_resends_request[OF d(1) i[symmetric] t branch_example_facts(6) d(3) j[symmetric] d(2)] show ?thesis by blast
qed

text \<open>With the default arguments the user agent cannot send a request: the message is handed to the
  transport, and then the call raises an attribute error instead of returning the transaction.\<close>

theorem default_user_agent_raises:
  "snd (send_options e target (new_ua u None)) = Inl AttributeError \<and>
   sent_log (fst (send_options e target (new_ua u None))) = request_log e (create_options_request e u target)"
  using client_transaction_created[of "new_ua u None" _ e "create_options_request e u target"]
  by (simp add: send_options_def new_ua_def)

text \<open>The dialog of an outgoing call is never tracked: sending an INVITE creates no dialog, and a response
  changes no dialog unless one happens to have the identifier of the transaction.\<close>

theorem responses_leave_dialogs:
  assumes "dict_get (dialogs s) (generate_transaction_id e resp) = None"
  shows "dialogs (fst (process_response e resp s)) = dialogs s \<and> dialogs (fst (send_invite e target bd s)) = dialogs s"
  using keeps_dialogs_process[of "generate_transaction_id e resp" e resp] keeps_dialogs_client assms
  by (auto simp: process_response_def Let_def keeps_dialogs_def send_invite_def split: option.split sum.split)

theorem responses_leave_dialogs_witness:
  "dialogs (fst (process_response example_env md5_challenge challenged_ua)) = []"
  using responses_leave_dialogs[of challenged_ua example_env md5_challenge] by (simp add: challenged_ua_def new_ua_def)

text \<open>Requests do not go to their target: the destination is read from the request's own Via header, so that
  whatever the target, every request is sent to the agent's own domain at port 5060.\<close>

theorem requests_sent_to_self:
  assumes "uri_domain self \<noteq> []" and "list_all (\<lambda>c. c \<noteq> CHR '';'' \<and> c \<noteq> CHR '':'' \<and> \<not> is_space c) (uri_domain self)"
    and "list_all (\<lambda>c. \<not> is_space c) (fresh_hex e 2)"
    and "m = create_options_request e self target \<or> m = create_register_request e self target expires \<or>
      create_invite_request e self target bd = Inr m"
  shows "extract_destination m = (uri_domain self, 5060)"
proof -
  have "get_header m ''via'' = Some (own_via e self)"
    using assms(4) request_via[OF assms(3), where self = self] by blast
  then show ?thesis using via_address_plain[OF assms(1,2)] by (simp add: extract_destination_def own_via_def)
qed

theorem requests_sent_to_self_witness:
  "extract_destination (create_options_request example_env ''sip:a@b'' ''sip:c@d'') = (''b'', 5060)"
proof -
  have d: "uri_domain ''sip:a@b'' = ''b''"
    by (simp add: uri_domain_def has_at_def split_on.simps[of _ "''sip:a@b''"] split_on.simps[of _ "''b''"])
  have "list_all (\<lambda>c. c \<noteq> CHR '';'' \<and> c \<noteq> CHR '':'' \<and> \<not> is_space c) ''b''" "list_all (\<lambda>c. \<not> is_space c) ''00ff''"
    by (simp_all add: char_class_defs)
  then show ?thesis
    using requests_sent_to_self[of "''sip:a@b''" example_env "create_options_request example_env ''sip:a@b'' ''sip:c@d''" "''sip:c@d''"] d
    by (simp add: example_env_def)
qed

end
