(* ===== verification/Transport_Layer.thy ===== *)
theory Transport_Layer
  imports Sip_Message "HOL-Library.Sublist"
begin

text \<open>
  The transport (\<open>transport.py\<close>): how the TCP protocol cuts the byte stream into SIP messages, the callbacks of
  the two protocol objects, and the start, send and stop operations of a transport over UDP or TCP. The event loop
  and its sockets are modelled as far as the code relies on them: what binding and connecting give are arguments,
  a connected datagram socket ignores the address of a send, and a write to a closed connection is dropped. The facts
  show that reassembly does not depend on how the stream was segmented, tie it to the message encoder, and describe
  the life cycle of a transport.
\<close>

section \<open>Cutting the stream\<close>

text \<open>\<open>buffer.find(b"\r\n\r\n") + 4\<close>, if the separator occurs.\<close>

fun header_end :: "byte list \<Rightarrow> nat option" where
  "header_end [] = None"
| "header_end (b # bs) = (if take 4 (b # bs) = [13, 10, 13, 10] then Some 4 else map_option Suc (header_end bs))"

fun announced_length :: "string list \<Rightarrow> int" where
  "announced_length [] = 0"
| "announced_length (l # ls) =
     (if starts_with (lower l) ''content-length:''
      then (case partition_at '':'' l of
          Some (_, v) \<Rightarrow> (case int_of_str (strip v) of Some n \<Rightarrow> n | None \<Rightarrow> announced_length ls)
        | None \<Rightarrow> announced_length ls)
      else announced_length ls)"

text \<open>Python slices \<open>b[:n]\<close> and \<open>b[n:]\<close>: a negative bound counts from the end.\<close>

definition slice_to :: "int \<Rightarrow> 'a list \<Rightarrow> 'a list" where
  "slice_to n xs = (if 0 \<le> n then take (nat n) xs else take (length xs - nat (- n)) xs)"

definition slice_from :: "int \<Rightarrow> 'a list \<Rightarrow> 'a list" where
  "slice_from n xs = (if 0 \<le> n then drop (nat n) xs else drop (length xs - nat (- n)) xs)"

text \<open>One round of the loop of \<open>data_received\<close>: the message cut off and the buffer left, or None to wait.\<close>

definition next_message :: "byte list \<Rightarrow> (byte list \<times> byte list) option" where
  "next_message buf =
     (case header_end buf of
        None \<Rightarrow> None
      | Some he \<Rightarrow>
          let total = int he + announced_length (split_on CRLF (utf8_decode_ignore (take he buf)))
          in if int (length buf) \<ge> total then Some (slice_to total buf, slice_from total buf) else None)"

text \<open>The loop itself. It does not return on every buffer, so its value is optional.\<close>

partial_function (option) drain :: "byte list \<Rightarrow> (byte list list \<times> byte list) option" where
  "drain buf =
     (case next_message buf of
        None \<Rightarrow> Some ([], buf)
      | Some (m, rest) \<Rightarrow> Option.bind (drain rest) (\<lambda>r. Some (m # fst r, snd r)))"

definition data_received :: "byte list \<Rightarrow> byte list \<Rightarrow> (byte list list \<times> byte list) option" where
  "data_received buf data = drain (buf @ data)"

text \<open>A connection's life: the segments that arrive one after the other.\<close>

fun receive_all :: "byte list \<Rightarrow> byte list list \<Rightarrow> (byte list list \<times> byte list) option" where
  "receive_all buf [] = Some ([], buf)"
| "receive_all buf (d # ds) =
     Option.bind (data_received buf d) (\<lambda>r.
       map_option (\<lambda>r'. (fst r @ fst r', snd r')) (receive_all (snd r) ds))"

section \<open>The protocol objects\<close>

text \<open>
  What the event loop calls back. A callback that is set is run in a task of its own, so a received message
  is an element of the list of deliveries; the callbacks that only log leave the object as it is.
\<close>

type_synonym addr = "string \<times> int"

record UDPProtocol =
  up_transport :: bool
  up_callback :: bool

definition new_udp_protocol :: "bool \<Rightarrow> UDPProtocol" where
  "new_udp_protocol callback = \<lparr>up_transport = False, up_callback = callback\<rparr>"

definition udp_connection_made :: "UDPProtocol \<Rightarrow> UDPProtocol" where
  "udp_connection_made p = p\<lparr>up_transport := True\<rparr>"

definition datagram_received :: "byte list \<Rightarrow> addr \<Rightarrow> UDPProtocol \<Rightarrow> (byte list \<times> addr) list" where
  "datagram_received data a p = (if up_callback p then [(data, a)] else [])"

record TCPProtocol =
  tp_transport :: bool
  tp_callback :: bool
  tp_buffer :: "byte list"
  tp_peer_addr :: "addr option"

definition new_tcp_protocol :: "bool \<Rightarrow> TCPProtocol" where
  "new_tcp_protocol callback = \<lparr>tp_transport = False, tp_callback = callback, tp_buffer = [], tp_peer_addr = None\<rparr>"

definition tcp_connection_made :: "addr \<Rightarrow> TCPProtocol \<Rightarrow> TCPProtocol" where
  "tcp_connection_made peer p = p\<lparr>tp_transport := True, tp_peer_addr := Some peer\<rparr>"

definition tcp_data_received :: "byte list \<Rightarrow> TCPProtocol \<Rightarrow> (TCPProtocol \<times> (byte list \<times> addr option) list) option" where
  "tcp_data_received data p =
     map_option (\<lambda>(ms, buf). (p\<lparr>tp_buffer := buf\<rparr>, if tp_callback p then map (\<lambda>m. (m, tp_peer_addr p)) ms else []))
       (data_received (tp_buffer p) data)"

text \<open>The answer to an end of file: the event loop is told to close the connection.\<close>

definition eof_received :: "TCPProtocol \<Rightarrow> TCPProtocol \<times> bool" where
  "eof_received p = (p, False)"

fun protocol_run :: "byte list list \<Rightarrow> TCPProtocol \<Rightarrow> (TCPProtocol \<times> (byte list \<times> addr option) list) option" where
  "protocol_run [] p = Some (p, [])"
| "protocol_run (d # ds) p =
     Option.bind (tcp_data_received d p) (\<lambda>(p1, out).
       map_option (\<lambda>(p2, outs). (p2, out @ outs)) (protocol_run ds p1))"

section \<open>The transport\<close>

datatype TransportType = UDP | TCP

record TransportConfig =
  remote_host :: string
  remote_port :: int
  transport_type :: TransportType
  local_host :: string
  local_port :: int
  reuse_addr :: bool
  reuse_port :: bool

text \<open>
  An open connection is named by a number. The fields \<open>udp_open\<close> and \<open>server_open\<close> say whether \<open>_transport\<close> and
  \<open>_server\<close> are set, \<open>udp_peer\<close> is the endpoint the datagram socket is connected to, and \<open>lost\<close> lists the
  connections that the event loop has closed after the peer ended them.
\<close>

type_synonym conn = nat

record Transport =
  cfg :: TransportConfig
  running :: bool
  recv_callback :: bool
  sock :: "addr option"
  udp_open :: bool
  udp_peer :: "addr option"
  server_open :: bool
  tcp_connections :: "(addr, conn) dict"
  lost :: "conn list"

datatype net_event =
    Datagram "byte list" addr
  | Connect conn addr
  | Write conn "byte list"
  | CloseUdp
  | CloseServer
  | CloseConn conn

definition new_transport :: "TransportConfig \<Rightarrow> Transport" where
  "new_transport c = \<lparr>cfg = c, running = False, recv_callback = False, sock = None, udp_open = False, udp_peer = None,
     server_open = False, tcp_connections = [], lost = []\<rparr>"

definition is_running :: "Transport \<Rightarrow> bool" where
  "is_running t = running t"

definition local_address :: "Transport \<Rightarrow> addr" where
  "local_address t = (case sock t of Some a \<Rightarrow> a | None \<Rightarrow> (local_host (cfg t), local_port (cfg t)))"

text \<open>The parts of \<open>start\<close>, \<open>send\<close> and \<open>stop\<close> in the base class.\<close>

definition base_start :: "Transport \<Rightarrow> Transport" where
  "base_start t = t\<lparr>recv_callback := True, running := True\<rparr>"

definition base_send :: "Transport \<Rightarrow> unit res" where
  "base_send t = (if \<not> running t then Inl TransportError else Inr ())"

definition base_stop :: "Transport \<Rightarrow> Transport" where
  "base_stop t = t\<lparr>running := False\<rparr>"

text \<open>What the operating system answers when a socket is set up: the address the socket reports at the end,
  and whether connecting it to the remote endpoint succeeded; None if binding raises.\<close>

type_synonym binding = "addr \<times> bool"

definition start_udp :: "binding option \<Rightarrow> Transport \<Rightarrow> Transport \<times> unit res" where
  "start_udp bound t =
     (case bound of
        None \<Rightarrow> (t, Inl OSError)
      | Some (a, linked) \<Rightarrow>
          (t\<lparr>udp_open := True, sock := Some a,
             udp_peer := (if remote_host (cfg t) \<noteq> [] \<and> remote_port (cfg t) \<noteq> 0 \<and> linked
                          then Some (remote_host (cfg t), remote_port (cfg t)) else None)\<rparr>, Inr ()))"

definition start_tcp :: "binding option \<Rightarrow> Transport \<Rightarrow> Transport \<times> unit res" where
  "start_tcp bound t =
     (case bound of None \<Rightarrow> (t, Inl OSError) | Some (a, _) \<Rightarrow> (t\<lparr>server_open := True, sock := Some a\<rparr>, Inr ()))"

definition transport_start :: "binding option \<Rightarrow> Transport \<Rightarrow> Transport \<times> unit res" where
  "transport_start bound t =
     (let t1 = base_start t in
      case transport_type (cfg t) of UDP \<Rightarrow> start_udp bound t1 | TCP \<Rightarrow> start_tcp bound t1)"

definition on_tcp_data_received :: "Transport \<Rightarrow> byte list \<Rightarrow> addr option \<Rightarrow> (byte list \<times> addr option) list" where
  "on_tcp_data_received t data a = (if recv_callback t then [(data, a)] else [])"

text \<open>A datagram socket that is connected sends to its peer, whatever address \<open>sendto\<close> of the event loop is
  given.\<close>

definition sendto :: "byte list \<Rightarrow> addr \<Rightarrow> Transport \<Rightarrow> net_event list" where
  "sendto data a t = [Datagram data (case udp_peer t of Some p \<Rightarrow> p | None \<Rightarrow> a)]"

text \<open>Writing to a connection that has been closed is silently ignored by the event loop.\<close>

definition conn_write :: "conn \<Rightarrow> byte list \<Rightarrow> Transport \<Rightarrow> net_event list" where
  "conn_write c data t = (if c \<in> set (lost t) then [] else [Write c data])"

text \<open>The first argument is the outcome of a connection attempt, needed for a TCP peer seen first.\<close>

definition tcp_connect_and_send ::
  "conn option \<Rightarrow> byte list \<Rightarrow> addr \<Rightarrow> Transport \<Rightarrow> Transport \<times> net_event list \<times> unit res" where
  "tcp_connect_and_send attempt data a t =
     (case attempt of
        None \<Rightarrow> (t, [], Inl TransportError)
      | Some c \<Rightarrow> (t\<lparr>tcp_connections := dict_set a c (tcp_connections t)\<rparr>, Connect c a # conn_write c data t, Inr ()))"

definition transport_send ::
  "conn option \<Rightarrow> byte list \<Rightarrow> addr \<Rightarrow> Transport \<Rightarrow> Transport \<times> net_event list \<times> unit res" where
  "transport_send attempt data a t =
     (case base_send t of
        Inl err \<Rightarrow> (t, [], Inl err)
      | Inr _ \<Rightarrow>
          (case transport_type (cfg t) of
             UDP \<Rightarrow> if udp_open t then (t, sendto data a t, Inr ()) else (t, [], Inl TransportError)
           | TCP \<Rightarrow>
               (case dict_get (tcp_connections t) a of
                  Some c \<Rightarrow> (t, conn_write c data t, Inr ())
                | None \<Rightarrow> tcp_connect_and_send attempt data a t)))"

text \<open>The peer ends a connection: \<open>eof_received\<close> lets the event loop close it, then \<open>connection_lost\<close> only logs.\<close>

definition connection_lost :: "conn \<Rightarrow> Transport \<Rightarrow> Transport" where
  "connection_lost c t = t\<lparr>lost := c # lost t\<rparr>"

definition transport_stop :: "Transport \<Rightarrow> Transport \<times> net_event list" where
  "transport_stop t =
     ((base_stop t)\<lparr>udp_open := False, udp_peer := None, server_open := False, tcp_connections := [], sock := None\<rparr>,
      (if udp_open t then [CloseUdp] else []) @ (if server_open t then [CloseServer] else [])
      @ map (\<lambda>(_, c). CloseConn c) (tcp_connections t))"

text \<open>A client connects to the transport's server: the factory makes a protocol that hands every message to
  \<open>_on_tcp_data_received\<close>, and the segments of the client arrive.\<close>

definition server_run :: "Transport \<Rightarrow> addr \<Rightarrow> byte list list \<Rightarrow> (byte list \<times> addr option) list option" where
  "server_run t peer segments =
     map_option (\<lambda>(_, out). concat (map (\<lambda>(m, a). on_tcp_data_received t m a) out))
       (protocol_run segments (tcp_connection_made peer (new_tcp_protocol True)))"

section \<open>Framing in general\<close>

text \<open>
  A stream cutter: a function that takes the first complete frame off a buffer, and its loop. The laws:
  a complete frame at the front is cut off whatever follows, and nothing is cut off a frame that is not
  complete yet.
\<close>

locale framing =
  fixes cut :: "'b list \<Rightarrow> ('b list \<times> 'b list) option"
    and loop :: "'b list \<Rightarrow> ('b list list \<times> 'b list) option"
    and frame :: "'b list \<Rightarrow> bool"
  assumes loop_eq: "loop buf = (case cut buf of None \<Rightarrow> Some ([], buf)
      | Some (m, rest) \<Rightarrow> Option.bind (loop rest) (\<lambda>r. Some (m # fst r, snd r)))"
    and cut_frame: "frame f \<Longrightarrow> cut (f @ t) = Some (f, t)"
    and cut_partial: "frame f \<Longrightarrow> strict_prefix p f \<Longrightarrow> cut p = None"
    and cut_empty: "cut [] = None"
begin

fun feed :: "'b list \<Rightarrow> 'b list list \<Rightarrow> ('b list list \<times> 'b list) option" where
  "feed buf [] = Some ([], buf)"
| "feed buf (d # ds) =
     Option.bind (loop (buf @ d)) (\<lambda>r. map_option (\<lambda>r'. (fst r @ fst r', snd r')) (feed (snd r) ds))"

lemma loop_frames: "list_all frame fs \<Longrightarrow> cut p = None \<Longrightarrow> loop (concat fs @ p) = Some (fs, p)"
proof (induction fs)
  case Nil
  then show ?case by (simp add: loop_eq[of p])
next
  case (Cons f fs)
  then show ?case using cut_frame[of f "concat fs @ p"] by (simp add: loop_eq[of "f @ concat fs @ p"])
qed

lemma prefix_concat:
  "prefix q (concat fs) \<Longrightarrow>
   \<exists>fs1 p fs2. fs = fs1 @ fs2 \<and> q = concat fs1 @ p \<and> (p = [] \<or> (\<exists>f r. fs2 = f # r \<and> strict_prefix p f))"
proof (induction fs arbitrary: q)
  case (Cons f fs)
  show ?case
  proof (cases "strict_prefix q f")
    case True
    then have "f # fs = [] @ (f # fs) \<and> q = concat [] @ q" by simp
    with True show ?thesis by blast
  next
    case False
    then obtain q' where q': "q = f @ q'"
      using Cons.prems by (metis concat.simps(2) prefixE prefix_append prefix_order.less_le)
    then have "prefix q' (concat fs)" using Cons.prems by simp
    from Cons.IH[OF this] obtain fs1 p fs2 where "fs = fs1 @ fs2" "q' = concat fs1 @ p"
      "p = [] \<or> (\<exists>f r. fs2 = f # r \<and> strict_prefix p f)" by blast
    then have "f # fs = (f # fs1) @ fs2 \<and> q = concat (f # fs1) @ p" using q' by simp
    with \<open>p = [] \<or> _\<close> show ?thesis by blast
  qed
qed simp

lemma partial_cut:
  assumes "list_all frame fs2" and "p = [] \<or> (\<exists>f r. fs2 = f # r \<and> strict_prefix p f)"
  shows "cut p = None"
  using assms cut_partial cut_empty by auto

text \<open>However a sequence of frames is cut into segments, exactly the frames come out, in order.\<close>

lemma feed_frames:
  "list_all frame fs \<Longrightarrow> p @ concat ds = concat fs \<Longrightarrow> cut p = None \<Longrightarrow>
   p = [] \<or> (\<exists>f r. fs = f # r \<and> strict_prefix p f) \<Longrightarrow> list_all (\<lambda>f. f \<noteq> []) fs \<Longrightarrow>
   feed p ds = Some (fs, [])"
proof (induction ds arbitrary: p fs)
  case Nil
  then have "fs = []" by (cases fs) (auto simp: strict_prefix_def)
  with Nil show ?case by simp
next
  case (Cons d ds)
  have "prefix (p @ d) (concat fs)" using Cons.prems(2) by (metis append_assoc concat.simps(2) prefixI)
  then obtain fs1 p' fs2 where f: "fs = fs1 @ fs2" "p @ d = concat fs1 @ p'"
    "p' = [] \<or> (\<exists>f r. fs2 = f # r \<and> strict_prefix p' f)" using prefix_concat by blast
  have c: "cut p' = None" using Cons.prems(1) f by (intro partial_cut[of fs2]) auto
  have "loop (p @ d) = Some (fs1, p')" using f c Cons.prems(1) loop_frames[of fs1 p'] by simp
  moreover have "feed p' ds = Some (fs2, [])"
  proof (rule Cons.IH)
    show "p' @ concat ds = concat fs2"
      using Cons.prems(2) f by (metis append.assoc concat.simps(2) concat_append same_append_eq)
  qed (use Cons.prems f c in auto)
  ultimately show ?case using f by simp
qed

end

section \<open>TCP framing\<close>

lemma header_end_le: "header_end bs = Some he \<Longrightarrow> 4 \<le> he \<and> he \<le> length bs"
proof (induction bs arbitrary: he)
  case (Cons b bs)
  show ?case
  proof (cases "take 4 (b # bs) = [13, 10, 13, 10]")
    case True
    then have "length (take 4 (b # bs)) = 4" by (simp only: True) simp
    then have "4 \<le> length (b # bs)" by (metis length_take min.cobounded1)
    with True Cons.prems show ?thesis by simp
  next
    case False
    with Cons show ?thesis by fastforce
  qed
qed simp

lemma header_end_append: "header_end bs = Some he \<Longrightarrow> header_end (bs @ t) = Some he"
proof (induction bs arbitrary: he)
  case (Cons b bs)
  have len: "length (b # bs) \<ge> 4" using header_end_le[OF Cons.prems] by simp
  then have tk: "take 4 ((b # bs) @ t) = take 4 (b # bs)" by (simp only: take_append) simp
  show ?case
  proof (cases "take 4 (b # bs) = [13, 10, 13, 10]")
    case True
    with Cons.prems tk show ?thesis by (simp del: take_Cons_numeral take_append)
  next
    case False
    with Cons.prems obtain he' where "header_end bs = Some he'" "he = Suc he'" by auto
    with Cons.IH[of he'] False tk show ?thesis by (simp del: take_Cons_numeral take_append)
  qed
qed simp

definition tcp_frame :: "byte list \<Rightarrow> bool" where
  "tcp_frame f =
     (case header_end f of
        None \<Rightarrow> False
      | Some he \<Rightarrow>
          let n = announced_length (split_on CRLF (utf8_decode_ignore (take he f)))
          in 0 \<le> n \<and> int (length f) = int he + n)"

lemma next_message_frame:
  assumes "tcp_frame f"
  shows "next_message (f @ t) = Some (f, t)"
proof -
  obtain he where he: "header_end f = Some he"
    and n: "int (length f) = int he + announced_length (split_on CRLF (utf8_decode_ignore (take he f)))"
    using assms by (auto simp: tcp_frame_def Let_def split: option.splits)
  have "take he (f @ t) = take he f" using header_end_le[OF he] by simp
  with header_end_append[OF he, of t] have "next_message (f @ t) =
      (let total = int (length f) in if int (length (f @ t)) \<ge> total
       then Some (slice_to total (f @ t), slice_from total (f @ t)) else None)"
    by (simp only: next_message_def option.case n)
  then show ?thesis by (simp add: slice_to_def slice_from_def)
qed

lemma next_message_partial:
  assumes "tcp_frame f" and "strict_prefix p f"
  shows "next_message p = None"
proof (cases "header_end p")
  case None
  then show ?thesis by (simp add: next_message_def)
next
  case (Some he)
  obtain q where f: "f = p @ q" "q \<noteq> []" using assms(2) by (auto simp: strict_prefix_def prefix_def)
  have "header_end f = Some he" using Some f header_end_append by simp
  moreover have "take he f = take he p" using f header_end_le[OF Some] by simp
  moreover have "length p < length f" using f by simp
  ultimately show ?thesis
    using assms(1) Some by (simp add: next_message_def tcp_frame_def Let_def)
qed

interpretation tcp: framing next_message drain tcp_frame
proof
  show "next_message [] = None" by (simp add: next_message_def)
qed (use next_message_frame next_message_partial drain.simps in auto)

lemma receive_all_feed: "receive_all buf ds = tcp.feed buf ds"
  by (induction ds arbitrary: buf) (auto simp: data_received_def)

lemma protocol_run_receive:
  "protocol_run ds p = map_option (\<lambda>(ms, buf). (p\<lparr>tp_buffer := buf\<rparr>, if tp_callback p then map (\<lambda>m. (m, tp_peer_addr p)) ms else []))
     (receive_all (tp_buffer p) ds)"
proof (induction ds arbitrary: p)
  case (Cons d ds)
  then show ?case
    by (cases "data_received (tp_buffer p) d") (auto simp: tcp_data_received_def option.map_comp comp_def split: prod.splits intro!: option.map_cong)
qed simp

lemma server_run_receive:
  "recv_callback t \<Longrightarrow> server_run t peer ds = map_option (\<lambda>(ms, _). map (\<lambda>m. (m, Some peer)) ms) (receive_all [] ds)"
  by (simp add: server_run_def protocol_run_receive new_tcp_protocol_def tcp_connection_made_def on_tcp_data_received_def
      option.map_comp comp_def split_def concat_map_singleton)

lemma tcp_frame_nonempty: "tcp_frame f \<Longrightarrow> f \<noteq> []"
  by (auto simp: tcp_frame_def)

lemma receive_frames:
  assumes "list_all tcp_frame fs" and "concat ds = concat fs"
  shows "receive_all [] ds = Some (fs, [])"
proof -
  have "list_all (\<lambda>f. f \<noteq> []) fs" using assms(1) tcp_frame_nonempty by (auto simp: list_all_iff)
  with assms tcp.feed_frames[of fs "[]" ds] show ?thesis
    by (simp add: receive_all_feed tcp.cut_empty)
qed

section \<open>Encoded messages as frames\<close>

lemma utf8_char_13: "13 \<in> set (utf8_char c) \<longleftrightarrow> c = CR"
proof
  assume "13 \<in> set (utf8_char c)"
  then have "code c = 13" by (auto simp: utf8_char_def Let_def split: if_splits)
  then have "c = char_of (13 :: nat)" by (metis char_of_code)
  then show "c = CR" by (simp add: char_of_def bit_0)
qed (simp add: utf8_char_def code_def)

lemma utf8_13: "13 \<in> set (utf8_encode s) \<longleftrightarrow> CR \<in> set s"
  using utf8_char_13 by (auto simp: utf8_encode_def)

lemma utf8_encode_nonempty [simp]: "utf8_encode s = [] \<longleftrightarrow> s = []"
  by (cases s) (auto simp: utf8_encode_def utf8_char_def Let_def)

lemma utf8_encode_CRLF [simp]: "utf8_encode CRLF = [13, 10]" "utf8_encode (CR # LF # s) = 13 # 10 # utf8_encode s"
  by (simp_all add: utf8_encode_def utf8_char_def code_def)

lemma header_end_skip: "13 \<notin> set l \<Longrightarrow> header_end (l @ s) = map_option ((+) (length l)) (header_end s)"
proof (induction l)
  case (Cons b l)
  then show ?case by (cases "header_end s") auto
qed (cases "header_end s"; simp)

lemma header_end_line:
  assumes "l \<noteq> []" and "13 \<notin> set l"
  shows "header_end (13 # 10 # l @ s) = map_option ((+) (2 + length l)) (header_end s)"
proof -
  obtain b k where l: "l = b # k" using assms(1) by (cases l) auto
  have "header_end (13 # 10 # l @ s) = map_option Suc (map_option Suc (header_end (l @ s)))"
    using assms(2) by (simp add: l eval_nat_numeral)
  then show ?thesis
    unfolding header_end_skip[OF assms(2)] by (cases "header_end s") simp_all
qed

lemma header_end_lines:
  assumes "\<And>l. l \<in> set ls \<Longrightarrow> l \<noteq> [] \<and> CR \<notin> set l" and "ls \<noteq> []"
  shows "header_end (utf8_encode (join CRLF ls) @ s) =
     map_option ((+) (length (utf8_encode (join CRLF ls)))) (header_end s)"
  using assms
proof (induction CRLF ls rule: join.induct)
  case (2 l)
  then show ?case using header_end_skip[of "utf8_encode l"] utf8_13 by simp
next
  case (3 l k ls)
  have l: "13 \<notin> set (utf8_encode l)" "13 \<notin> set (utf8_encode k)" "utf8_encode k \<noteq> []" using 3 utf8_13 by auto
  obtain j where j: "utf8_encode (join CRLF (k # ls)) = utf8_encode k @ j"
    by (cases ls) auto
  have IH: "header_end (utf8_encode k @ j @ s) = map_option ((+) (length (utf8_encode k @ j))) (header_end s)"
    using 3 j by simp
  have "header_end (13 # 10 # utf8_encode k @ j @ s) = map_option ((+) 2) (header_end (utf8_encode k @ j @ s))"
    unfolding header_end_line[OF l(3,2)] header_end_skip[OF l(2)] by (cases "header_end (j @ s)") simp_all
  then have "header_end (utf8_encode l @ 13 # 10 # utf8_encode k @ j @ s)
      = map_option ((+) (length (utf8_encode l) + (2 + length (utf8_encode k @ j)))) (header_end s)"
    unfolding header_end_skip[OF l(1)] IH by (cases "header_end s") simp_all
  then show ?case using j by simp
qed simp

text \<open>Case folding keeps colons where they are.\<close>

lemma lower_char_colon: "lower_char c = CHR '':'' \<longleftrightarrow> c = CHR '':''"
proof
  assume a: "lower_char c = CHR '':''"
  then have "code (lower_char c) = 58" by (simp add: code_def)
  then have "code c = 58" by (auto simp: lower_char_def is_upper_def code_def of_char_of Let_def split: if_splits)
  then have "c = char_of (58 :: nat)" by (metis char_of_code)
  then show "c = CHR '':''" by (simp add: char_of_def bit_0)
qed (simp add: lower_eval)

lemma lower_no_colon: "CHR '':'' \<notin> set s \<Longrightarrow> CHR '':'' \<notin> set (lower s)"
  unfolding lower_def by (metis imageE lower_char_colon set_map)

lemma content_length_line:
  assumes "header_ok h"
  shows "starts_with (lower (header_encode h)) ''content-length:'' \<longleftrightarrow> lower (hname h) = ''content-length''"
proof -
  have col: "lower '': '' = '': ''" by (simp add: lower_eval)
  have n: "CHR '':'' \<notin> set (lower (hname h))" using assms by (simp add: header_ok_def lower_no_colon)
  have eq: "lower (header_encode h) = lower (hname h) @ CHR '':'' # '' '' @ lower (hvalue h)"
    using col by (simp add: header_encode_def)
  show ?thesis
  proof
    assume "starts_with (lower (header_encode h)) ''content-length:''"
    then obtain r where "lower (header_encode h) = ''content-length'' @ CHR '':'' # r"
      by (auto simp: starts_with_iff)
    then have "partition_at '':'' (lower (header_encode h)) = Some (''content-length'', r)"
      by (simp only:) (intro partition_at_char, simp)
    moreover have "partition_at '':'' (lower (header_encode h)) = Some (lower (hname h), '' '' @ lower (hvalue h))"
      using n by (simp only: eq) (rule partition_at_char)
    ultimately show "lower (hname h) = ''content-length''" by simp
  qed (simp add: eq starts_with_iff)
qed

lemma announced_length_headers:
  "list_all header_ok hs \<Longrightarrow> header_lookup ''content-length'' hs = Some (nat_str n) \<Longrightarrow>
   announced_length (map header_encode hs @ ls) = int n"
proof (induction hs)
  case (Cons h hs)
  show ?case
  proof (cases "lower (hname h) = ''content-length''")
    case True
    with Cons.prems have "strip (CHR '' '' # hvalue h) = nat_str n"
      by (simp add: strip_lead_space strip_id nat_str_stripped)
    with True Cons.prems content_length_line[of h] parse_header_line(1)[of h] show ?thesis by simp
  next
    case False
    with Cons content_length_line[of h] show ?thesis by simp
  qed
qed simp

lemma start_line_not_length: "\<not> starts_with (lower (start_line m)) ''content-length:''"
proof (cases "method m")
  case (Some meth)
  then show ?thesis by (cases meth) (simp_all add: start_line_def lower_eval)
qed (simp add: start_line_def sip_version_def lower_eval)

text \<open>A message that announces its body correctly.\<close>

definition framed_ok :: "SIPMessage \<Rightarrow> bool" where
  "framed_ok m =
     (message_ok m \<and>
      (case body m of
         Some b \<Rightarrow> header_lookup ''content-length'' (wire_headers m) = Some (nat_str (content_length b))
       | None \<Rightarrow> False))"

lemma message_head_bytes:
  assumes "message_ok m"
  defines "head \<equiv> join CRLF (start_line m # map header_encode (wire_headers m))"
  shows "message_str m = (case body m of Some b \<Rightarrow> head @ CRLF @ CRLF @ content b | None \<Rightarrow> head @ CRLF)"
    and "header_end (utf8_encode head @ s) = map_option ((+) (length (utf8_encode head))) (header_end s)"
proof -
  show "message_str m = (case body m of Some b \<Rightarrow> head @ CRLF @ CRLF @ content b | None \<Rightarrow> head @ CRLF)"
    using join_append[of "start_line m # map header_encode (wire_headers m)"
        "[[]] @ (case body m of Some b \<Rightarrow> [content b] | None \<Rightarrow> [])" CRLF]
    by (cases "body m") (simp_all add: message_str_def message_lines_wire head_def del: join.simps(3), simp_all)
  show "header_end (utf8_encode head @ s) = map_option ((+) (length (utf8_encode head))) (header_end s)"
    unfolding head_def using head_lines_wire[OF assms(1)] by (intro header_end_lines) (auto simp: wire_line_def)
qed

lemma started_callback: "transport_start bound t0 = (t, r) \<Longrightarrow> recv_callback t"
  by (auto simp: transport_start_def start_udp_def start_tcp_def base_start_def Let_def split: TransportType.splits option.splits)

lemma encode_frame:
  assumes "framed_ok m"
  shows "tcp_frame (message_encode m)"
proof -
  obtain b where b: "body m = Some b" and ok: "message_ok m"
    and cl: "header_lookup ''content-length'' (wire_headers m) = Some (nat_str (content_length b))"
    using assms by (auto simp: framed_ok_def split: option.splits)
  let ?ls = "start_line m # map header_encode (wire_headers m)"
  let ?head = "utf8_encode (join CRLF ?ls)"
  have str: "message_encode m = ?head @ 13 # 10 # 13 # 10 # utf8_encode (content b)"
    using message_head_bytes(1)[OF ok] b by (simp add: message_encode_def)
  have he: "header_end (message_encode m) = Some (length ?head + 4)"
    unfolding str message_head_bytes(2)[OF ok] by simp
  have "take (length ?head + 4) (message_encode m) = utf8_encode (join CRLF ?ls @ CRLF @ CRLF)"
    unfolding str by (simp only: utf8_encode_append) simp
  then have "split_on CRLF (utf8_decode_ignore (take (length ?head + 4) (message_encode m))) = ?ls @ split_on CRLF CRLF"
    using head_lines_wire[OF ok] by (simp only: utf8_roundtrip) (intro split_on_join_rest, auto simp: wire_line_def)
  moreover have "announced_length (?ls @ split_on CRLF CRLF) = int (content_length b)"
    using start_line_not_length announced_length_headers[OF _ cl] wire_headers_ok ok
    by (simp add: message_ok_def)
  ultimately show ?thesis
    by (simp only: tcp_frame_def he option.case Let_def) (simp add: str content_length_def)
qed

lemma bodyless_stuck:
  assumes "message_ok m" and "body m = None"
  shows "next_message (message_encode m) = None"
proof -
  have "header_end (message_encode m) = None"
    using message_head_bytes[OF assms(1)] assms(2) by (simp add: message_encode_def eval_nat_numeral)
  then show ?thesis by (simp add: next_message_def)
qed

text \<open>Examples: a request with a body of five bytes, and a running TCP transport.\<close>

definition body_example :: SIPMessage where
  "body_example = options_example\<lparr>body := Some (body_of_str ''hello'' ''text/plain'')\<rparr>"

lemma body_example_framed: "framed_ok body_example"
proof -
  have "message_ok body_example"
    using options_example_ok
    by (simp add: message_ok_def start_ok_def body_example_def body_of_str_def rstripped_def char_class_defs
        cong: option.case_cong)
  moreover have "nat_str 5 = ''5''" by code_simp
  ultimately show ?thesis
    by (simp add: framed_ok_def body_example_def wire_headers_def options_example_def get_header_def
        content_length_def body_of_str_def utf8_encode_def utf8_char_def) (simp add: lower_eval eval_nat_numeral)
qed

definition example_tcp :: Transport where
  "example_tcp = \<lparr>cfg = \<lparr>remote_host = ''h'', remote_port = 5060, transport_type = TCP, local_host = ''0.0.0.0'',
       local_port = 0, reuse_addr = True, reuse_port = False\<rparr>,
     running = True, recv_callback = True, sock = Some (''0.0.0.0'', 40000), udp_open = False, udp_peer = None, server_open = True,
     tcp_connections = [], lost = []\<rparr>"

section \<open>Properties\<close>



text \<open>C2. Messages sent back to back over one TCP connection to a server arrive: if every message has a body and announces
  its length, then for every segmentation of the stream a transport that has been started hands its user one
  frame per message, in order and with the address of the peer, and each frame parses to the message that was sent.\<close>

theorem tcp_end_to_end:
  assumes "transport_start (Some b) t0 = (t, r)"
    and "list_all framed_ok ms" and "concat segments = concat (map message_encode ms)"
  shows "server_run t peer segments = Some (map (\<lambda>m. (message_encode m, Some peer)) ms) \<and>
    map (\<lambda>m. message_parse (utf8_decode_ignore (message_encode m))) ms = map (\<lambda>m. Inr (received m)) ms"
proof
  have "list_all tcp_frame (map message_encode ms)" using assms(2) encode_frame by (auto simp: list_all_iff)
  then have "receive_all [] segments = Some (map message_encode ms, [])" using assms(3) by (rule receive_frames)
  then show "server_run t peer segments = Some (map (\<lambda>m. (message_encode m, Some peer)) ms)"
    using started_callback[OF assms(1)] by (simp add: server_run_receive)
  show "map (\<lambda>m. message_parse (utf8_decode_ignore (message_encode m))) ms = map (\<lambda>m. Inr (received m)) ms"
    using assms(2) parse_message_str by (auto simp: list_all_iff framed_ok_def message_encode_def)
qed

theorem tcp_end_to_end_witness:
  "server_run (fst (transport_start (Some ((''0.0.0.0'', 40000), True)) (new_transport (cfg example_tcp)))) (''p'', 9)
     [take 9 (message_encode body_example), drop 9 (message_encode body_example) @ message_encode body_example]
     = Some [(message_encode body_example, Some (''p'', 9)), (message_encode body_example, Some (''p'', 9))]"
proof -
  have "list_all framed_ok [body_example, body_example]" using body_example_framed by simp
  moreover have "concat [take 9 (message_encode body_example), drop 9 (message_encode body_example) @ message_encode body_example]
      = concat (map message_encode [body_example, body_example])" by simp
  ultimately show ?thesis
    using tcp_end_to_end[OF surjective_pairing[of "transport_start (Some ((''0.0.0.0'', 40000), True)) (new_transport (cfg example_tcp))"]]
    by fastforce
qed



text \<open>C37. A negative Content-Length that cancels the length of the header section makes the receive handler
  loop forever: it never returns, whatever else is in the buffer.\<close>

theorem tcp_negative_length_diverges:
  assumes "header_end (buf @ data) = Some he"
    and "announced_length (split_on CRLF (utf8_decode_ignore (take he (buf @ data)))) = - int he"
  shows "data_received buf data = None"
proof -
  have nx: "next_message (buf @ data) = Some ([], buf @ data)"
    unfolding next_message_def assms(1) option.case assms(2) by (simp add: slice_to_def slice_from_def)
  show ?thesis
  proof (cases "drain (buf @ data)")
    case (Some r)
    then have "drain (buf @ data) = Some ([] # fst r, snd r)" by (subst drain.simps) (simp add: nx)
    with Some show ?thesis by (cases r) auto
  qed (simp add: data_received_def)
qed

theorem tcp_negative_length_diverges_witness:
  "data_received [] (utf8_encode (''Content-Length: -23'' @ CRLF @ CRLF)) = None"
proof (rule tcp_negative_length_diverges)
  show "header_end ([] @ utf8_encode (''Content-Length: -23'' @ CRLF @ CRLF)) = Some 23" by code_simp
  show "announced_length (split_on CRLF (utf8_decode_ignore
      (take 23 ([] @ utf8_encode (''Content-Length: -23'' @ CRLF @ CRLF))))) = - int 23" by code_simp
qed

text \<open>Where UDP data goes: once a transport has been started over UDP and its socket could be connected to the
  configured remote endpoint, every send reaches that endpoint, whatever address the caller gives; only where the
  connection failed or no endpoint is configured does the caller's address count. Sends change nothing in the
  transport.\<close>

theorem udp_destination:
  assumes "transport_type c = UDP" and "transport_start (Some (a, linked)) (new_transport c) = (t, r)"
  shows "r = Inr () \<and>
    transport_send attempt data dst t =
      (t, [Datagram data (if linked \<and> remote_host c \<noteq> [] \<and> remote_port c \<noteq> 0 then (remote_host c, remote_port c) else dst)], Inr ())"
  using assms
  by (auto simp: transport_start_def start_udp_def base_start_def new_transport_def Let_def transport_send_def base_send_def sendto_def)

theorem udp_destination_witness:
  "transport_send None [1] (''x'', 9)
     (fst (transport_start (Some ((''h'', 7), True)) (new_transport ((cfg example_tcp)\<lparr>transport_type := UDP\<rparr>)))) =
   (fst (transport_start (Some ((''h'', 7), True)) (new_transport ((cfg example_tcp)\<lparr>transport_type := UDP\<rparr>))), [Datagram [1] (''h'', 5060)], Inr ())"
  using udp_destination[OF _ surjective_pairing[of "transport_start (Some ((''h'', 7), True)) (new_transport ((cfg example_tcp)\<lparr>transport_type := UDP\<rparr>))"],
      of None "[1]" "(''x'', 9)"]
  by (simp add: example_tcp_def)

text \<open>C39. A TCP connection that the peer has closed is never replaced: it stays in the table of connections, so every
  later send to that address reports success and puts nothing on the network, until the transport is stopped.\<close>

theorem tcp_lost_connection_kept:
  assumes "running t" and "transport_type (cfg t) = TCP" and "dict_get (tcp_connections t) a = Some c"
    and "t' = fold (\<lambda>(attempt, data, b) u. fst (transport_send attempt data b u)) sends (connection_lost c t)"
  shows "transport_send attempt data a t' = (t', [], Inr ())"
proof -
  define ok where "ok u \<longleftrightarrow> running u \<and> transport_type (cfg u) = TCP \<and> dict_get (tcp_connections u) a = Some c \<and> c \<in> set (lost u)" for u :: Transport
  have "ok (fst (transport_send at d b u))" if "ok u" for at d b u
    using that by (auto simp: ok_def transport_send_def base_send_def tcp_connect_and_send_def split: option.split)
  then have "ok (fold (\<lambda>(at, d, b) u. fst (transport_send at d b u)) sends u)" if "ok u" for u
    using that by (induction sends arbitrary: u) auto
  moreover have "ok (connection_lost c t)" using assms(1-3) by (simp add: ok_def connection_lost_def)
  ultimately have "ok t'" by (simp add: assms(4))
  then show ?thesis by (simp add: ok_def transport_send_def base_send_def conn_write_def)
qed

theorem tcp_lost_connection_kept_witness:
  "let t = connection_lost 7 (example_tcp\<lparr>tcp_connections := [((''h'', 5060), 7)]\<rparr>)
   in transport_send (Some 8) [1] (''h'', 5060) t = (t, [], Inr ())"
  using tcp_lost_connection_kept[of "example_tcp\<lparr>tcp_connections := [((''h'', 5060), 7)]\<rparr>" "(''h'', 5060)" 7 _ "[]"]
  by (simp add: example_tcp_def dict_get_def)

text \<open>A connection is opened once per peer: after a successful send to an address over TCP, the next send
  to it writes to the same connection and opens none, and other peers keep their connections.\<close>

theorem tcp_connection_reused:
  assumes "transport_type (cfg t) = TCP" and "transport_send attempt data a t = (t', evs, Inr ())" and "lost t = []"
  shows "\<exists>c. dict_get (tcp_connections t') a = Some c \<and> Write c data \<in> set evs \<and>
    transport_send attempt' data' a t' = (t', [Write c data'], Inr ()) \<and>
    (dict_get (tcp_connections t) a' = Some c' \<longrightarrow> a' \<noteq> a \<longrightarrow> dict_get (tcp_connections t') a' = Some c')"
  using assms
  by (auto simp: transport_send_def tcp_connect_and_send_def base_send_def conn_write_def split: if_splits option.splits)

theorem tcp_connection_reused_witness:
  "transport_send None [2] (''h'', 5060) (example_tcp\<lparr>tcp_connections := [((''h'', 5060), 7)]\<rparr>)
     = (example_tcp\<lparr>tcp_connections := [((''h'', 5060), 7)]\<rparr>, [Write 7 [2]], Inr ())"
proof -
  have "transport_send (Some 7) [1] (''h'', 5060) example_tcp
      = (example_tcp\<lparr>tcp_connections := [((''h'', 5060), 7)]\<rparr>, [Connect 7 (''h'', 5060), Write 7 [1]], Inr ())"
    by (simp add: example_tcp_def transport_send_def tcp_connect_and_send_def base_send_def conn_write_def)
  from tcp_connection_reused[OF _ this, of None "[2]"] show ?thesis by (auto simp: example_tcp_def)
qed

text \<open>Stopping closes every socket and connection that was open, and from then on sending raises and
  puts nothing on the network until the transport is started again.\<close>

theorem stop_closes_all:
  assumes "transport_stop t = (t', evs)"
  shows "(udp_open t \<longrightarrow> CloseUdp \<in> set evs) \<and> (server_open t \<longrightarrow> CloseServer \<in> set evs) \<and>
    (dict_get (tcp_connections t) a = Some c \<longrightarrow> CloseConn c \<in> set evs) \<and>
    tcp_connections t' = [] \<and> sock t' = None \<and>
    transport_send attempt data b t' = (t', [], Inl TransportError)"
proof -
  have "dict_get (tcp_connections t) a = Some c \<Longrightarrow> (a, c) \<in> set (tcp_connections t)"
    by (simp add: dict_get_def map_of_SomeD)
  with assms show ?thesis by (force simp: transport_stop_def transport_send_def base_stop_def base_send_def)
qed

theorem stop_closes_all_witness:
  "transport_send (Some 8) [1] (''h'', 5060) (fst (transport_stop example_tcp))
     = (fst (transport_stop example_tcp), [], Inl TransportError)"
  using stop_closes_all[of example_tcp "fst (transport_stop example_tcp)" "snd (transport_stop example_tcp)"] by simp

end
