(* ===== verification/Sip_Client.thy ===== *)
theory Sip_Client
  imports Call_Flow Fsm_UserAgent Transport_Layer
begin

text \<open>
  The client of \<open>client.py\<close>: it joins the transport, the user agent and the call-flow tracker. The user agent's
  sends go through the transport adapter, so an operation of the client is the operation of the user
  agent followed by the delivery of the messages it has sent. Logging to the console is left out; exceptions
  that the client catches and logs end the operation as in the code.
\<close>

section \<open>Configuration\<close>

record UserAgent =
  ag_domain :: string
  ag_port :: int
  ag_realm :: string
  ag_username :: string
  ag_password :: string
  ag_display_user :: string
  ag_user_agent :: string
  ag_transport_cfg :: "TransportConfig option"

definition udp_config :: "string \<Rightarrow> int \<Rightarrow> TransportConfig" where
  "udp_config h p = \<lparr>remote_host = h, remote_port = p, transport_type = UDP, local_host = ''0.0.0.0'', local_port = 0,
     reuse_addr = True, reuse_port = False\<rparr>"

definition agent_cfg :: "UserAgent \<Rightarrow> TransportConfig" where
  "agent_cfg ua = (case ag_transport_cfg ua of Some c \<Rightarrow> c | None \<Rightarrow> udp_config (ag_domain ua) (ag_port ua))"

section \<open>The transport below the user agent\<close>

text \<open>Outside inputs of an operation: those of the user agent, the outcome of TCP connection attempts, the clock as
  \<open>time.strftime\<close> prints it, and a fresh \<open>uuid4().hex\<close>.\<close>

record client_env =
  ce_env :: env
  ce_connect :: "addr \<Rightarrow> conn option"
  ce_strf :: string
  ce_uuid :: string

text \<open>\<open>TransportAdapter.send_message\<close>.\<close>

definition adapter_send ::
  "(addr \<Rightarrow> conn option) \<Rightarrow> string \<Rightarrow> addr \<Rightarrow> Transport \<Rightarrow> Transport \<times> net_event list \<times> unit res" where
  "adapter_send connect raw dst t = transport_send (connect dst) (utf8_encode raw) dst t"

text \<open>What the user agent sees of the transport: whether a message is accepted.\<close>

definition adapter_net :: "(addr \<Rightarrow> conn option) \<Rightarrow> Transport \<Rightarrow> network" where
  "adapter_net connect t = (\<lambda>raw dst. case snd (snd (adapter_send connect raw dst t)) of Inr _ \<Rightarrow> True | Inl _ \<Rightarrow> False)"

fun deliver :: "(addr \<Rightarrow> conn option) \<Rightarrow> (string \<times> addr) list \<Rightarrow> Transport \<Rightarrow> Transport \<times> net_event list" where
  "deliver connect [] t = (t, [])"
| "deliver connect ((raw, dst) # ms) t =
     (case adapter_send connect raw dst t of (t1, ev, _) \<Rightarrow>
        case deliver connect ms t1 of (t2, evs) \<Rightarrow> (t2, ev @ evs))"

section \<open>The client\<close>

record SIPClient =
  cl_ua :: UserAgent
  cl_transport :: Transport
  cl_tracker :: SIPCallFlowTracker
  cl_current :: "string option"
  cl_sip :: ua_state
  cl_wire :: "net_event list"

definition local_uri_of :: "UserAgent \<Rightarrow> string" where
  "local_uri_of ua =
     ''sip:'' @ (if ag_username ua = [] then ''Anonymous'' else ag_username ua) @ ''@''
     @ (if local_host (agent_cfg ua) = [] then ''localhost'' else local_host (agent_cfg ua))"

definition new_client :: "UserAgent \<Rightarrow> SIPClient" where
  "new_client ua =
     \<lparr>cl_ua = ua, cl_transport = new_transport (agent_cfg ua), cl_tracker = new_tracker, cl_current = None,
      cl_sip = new_ua (local_uri_of ua) (Some default_timers), cl_wire = []\<rparr>"

text \<open>Running an operation of the user agent on top of the client's transport.\<close>

definition ua_env :: "client_env \<Rightarrow> SIPClient \<Rightarrow> env" where
  "ua_env e c = (ce_env e)\<lparr>net := adapter_net (ce_connect e) (cl_transport c)\<rparr>"

definition run_ua :: "client_env \<Rightarrow> (env \<Rightarrow> ua_state \<Rightarrow> ua_state \<times> 'a) \<Rightarrow> SIPClient \<Rightarrow> SIPClient \<times> 'a" where
  "run_ua e f c =
     (case f (ua_env e c) (cl_sip c) of (s, r) \<Rightarrow>
        case deliver (ce_connect e) (drop (length (sent_log (cl_sip c))) (sent_log s)) (cl_transport c) of (t, evs) \<Rightarrow>
          (c\<lparr>cl_sip := s, cl_transport := t, cl_wire := cl_wire c @ evs\<rparr>, r))"

definition addr_str :: "addr \<Rightarrow> string" where
  "addr_str a = fst a @ '':'' @ int_str (snd a)"

definition local_addr_str :: "SIPClient \<Rightarrow> string" where
  "local_addr_str c = addr_str (local_address (cl_transport c))"

definition remote_addr_str :: "SIPClient \<Rightarrow> string" where
  "remote_addr_str c = ag_domain (cl_ua c) @ '':'' @ int_str (ag_port (cl_ua c))"

definition client_start :: "binding option \<Rightarrow> SIPClient \<Rightarrow> SIPClient \<times> unit res" where
  "client_start bound c = (case transport_start bound (cl_transport c) of (t, r) \<Rightarrow> (c\<lparr>cl_transport := t\<rparr>, r))"

text \<open>Stopping prints the most recent flow when a call was tracked.\<close>

definition client_stop :: "SIPClient \<Rightarrow> SIPClient \<times> rendering option res" where
  "client_stop c =
     (case transport_stop (cl_transport c) of (t, evs) \<Rightarrow>
        (c\<lparr>cl_transport := t, cl_wire := cl_wire c @ evs\<rparr>,
         if truthy_str (cl_current c) \<and> call_flows (cl_tracker c) \<noteq> [] then render_current_flow (cl_tracker c) else Inr None))"

definition start_call_flow_tracking :: "client_env \<Rightarrow> string option \<Rightarrow> SIPClient \<Rightarrow> SIPClient" where
  "start_call_flow_tracking e cid_arg c =
     (let cid = (if truthy_str cid_arg then the cid_arg else take 8 (ce_uuid e) @ ''@'' @ ag_domain (cl_ua c))
      in c\<lparr>cl_tracker := start_call_flow cid (local_addr_str c) (remote_addr_str c) (cl_tracker c), cl_current := Some cid\<rparr>)"

definition ensure_tracking :: "client_env \<Rightarrow> SIPClient \<Rightarrow> SIPClient" where
  "ensure_tracking e c = (if truthy_str (cl_current c) then c else start_call_flow_tracking e None c)"

text \<open>The handler of received data; a message that does not parse is only logged.\<close>

definition on_message_received :: "client_env \<Rightarrow> byte list \<Rightarrow> addr \<Rightarrow> SIPClient \<Rightarrow> SIPClient" where
  "on_message_received e data a c =
     (let raw = utf8_decode_ignore data in
      case message_parse raw of
        Inl _ \<Rightarrow> c
      | Inr m \<Rightarrow>
          let cid = get_header m ''call-id'';
              c1 = (if truthy_str cid \<and> truthy_str (cl_current c) \<and> cid = cl_current c
                    then c\<lparr>cl_tracker := track_inbound (ce_strf e) (epoch_time (ce_env e)) (the cid) (addr_str a) m None None (cl_tracker c)\<rparr>
                    else c)
          in fst (run_ua e (\<lambda>ue s. (process_incoming_message ue raw s, ())) c1))"

text \<open>An entry for a request of the client, put into the current flow.\<close>

definition client_entry ::
  "client_env \<Rightarrow> SIPClient \<Rightarrow> string \<Rightarrow> string \<Rightarrow> string \<Rightarrow> string option \<Rightarrow> string option \<Rightarrow> SIPFlowEntry" where
  "client_entry e c dst meth tid btype summary =
     \<lparr>fe_timestamp = entry_stamp (ce_strf e), fe_source = local_addr_str c, fe_dest = dst, fe_method = meth, fe_status = None,
      fe_transaction_id = Some tid, fe_body_type = btype, fe_body_summary = summary, fe_direction = ''outbound''\<rparr>"

definition record_entry :: "SIPFlowEntry \<Rightarrow> SIPClient \<Rightarrow> SIPClient" where
  "record_entry en c =
     (if truthy_str (cl_current c)
      then (case get_call_flow (the (cl_current c)) (cl_tracker c) of
              Some f \<Rightarrow> c\<lparr>cl_tracker := (cl_tracker c)\<lparr>call_flows :=
                dict_set (the (cl_current c)) (append_entry en f) (call_flows (cl_tracker c))\<rparr>\<rparr>
            | None \<Rightarrow> c)
      else c)"

definition default_target :: "SIPClient \<Rightarrow> string" where
  "default_target c = ''sip:'' @ remote_addr_str c"

definition client_send_options :: "client_env \<Rightarrow> string option \<Rightarrow> SIPClient \<Rightarrow> SIPClient \<times> string option" where
  "client_send_options e target c =
     (let u = (if truthy_str target then the target else default_target c)
      in case run_ua e (\<lambda>ue. send_options ue u) (ensure_tracking e c) of
           (c1, Inl _) \<Rightarrow> (c1, None)
         | (c1, Inr tid) \<Rightarrow> (record_entry (client_entry e c1 (remote_addr_str c1) ''OPTIONS'' tid None None) c1, Some tid))"

definition client_send_register :: "client_env \<Rightarrow> string option \<Rightarrow> int \<Rightarrow> SIPClient \<Rightarrow> SIPClient \<times> string option" where
  "client_send_register e registrar expires c =
     (let u = (if truthy_str registrar then the registrar else default_target c)
      in case run_ua e (\<lambda>ue. send_register ue (Some u) expires) (ensure_tracking e c) of
           (c1, Inl _) \<Rightarrow> (c1, None)
         | (c1, Inr tid) \<Rightarrow> (record_entry (client_entry e c1 (remote_addr_str c1) ''REGISTER'' tid None None) c1, Some tid))"

text \<open>The summary of the offer; an rtpmap without a space raises.\<close>

definition offer_codec_name :: "SDPAttribute \<Rightarrow> string list \<Rightarrow> string list res" where
  "offer_codec_name a cs =
     (if attr_name a = ''rtpmap'' \<and> truthy_str (attr_value a)
      then (case split_max 1 '' '' (the (attr_value a)) of
              [_, v] \<Rightarrow> Inr (cs @ [hd (split_on ''/'' v)])
            | _ \<Rightarrow> Inl IndexError)
      else Inr cs)"

definition offer_summary :: "SDPSession option \<Rightarrow> string option res" where
  "offer_summary sdp_body =
     (case sdp_body of
        None \<Rightarrow> Inr None
      | Some s \<Rightarrow>
          (case media s of
             [] \<Rightarrow> Inr None
           | md # _ \<Rightarrow>
               map_res (\<lambda>cs. Some (''audio '' @ int_str (port md) @ '' ('' @ (if cs \<noteq> [] then join '', '' (take 2 cs) else ''audio'') @ '')''))
                 (fold_res offer_codec_name (attributes md) [])))"

definition client_send_invite ::
  "client_env \<Rightarrow> string \<Rightarrow> SDPSession option \<Rightarrow> string option \<Rightarrow> SIPClient \<Rightarrow> SIPClient \<times> string option" where
  "client_send_invite e target sdp_arg bd c =
     (let sdp_body = (if sdp_arg = None \<and> \<not> truthy_str bd
            then Some (create_basic_audio_offer (epoch_time (ce_env e)) (fst (local_address (cl_transport c)))) else sdp_arg);
          invite_body = (case sdp_body of Some s \<Rightarrow> Some (session_encode s) | None \<Rightarrow> bd)
      in case run_ua e (\<lambda>ue. send_invite ue target invite_body) (ensure_tracking e c) of
           (c1, Inl _) \<Rightarrow> (c1, None)
         | (c1, Inr tid) \<Rightarrow>
             if truthy_str (cl_current c1)
             then (case offer_summary sdp_body of
                     Inl _ \<Rightarrow> (c1, None)
                   | Inr summary \<Rightarrow>
                       (record_entry (client_entry e c1 (replace ''sip:'' [] target) ''INVITE'' tid
                          (Some (if sdp_body \<noteq> None then ''SDP'' else ''TEXT'')) summary) c1, Some tid))
             else (c1, Some tid))"

definition client_send_bye :: "client_env \<Rightarrow> string \<Rightarrow> SIPClient \<Rightarrow> SIPClient \<times> string option" where
  "client_send_bye e did c =
     (case run_ua e (\<lambda>ue. send_bye ue did) c of (c1, Inl _) \<Rightarrow> (c1, None) | (c1, Inr tid) \<Rightarrow> (c1, Some tid))"

definition client_add_credentials :: "string \<Rightarrow> string \<Rightarrow> string \<Rightarrow> SIPClient \<Rightarrow> SIPClient" where
  "client_add_credentials realm usr pw c = c\<lparr>cl_sip := ua_add_credentials realm usr pw (cl_sip c)\<rparr>"

definition get_sdp_from_response :: "int \<Rightarrow> SIPMessage \<Rightarrow> SDPSession option" where
  "get_sdp_from_response now resp =
     (case body resp of Some b \<Rightarrow> if is_sdp b then get_sdp now b else None | None \<Rightarrow> None)"

section \<open>Asynchronous events and the example programs\<close>

text \<open>What can happen while a program sleeps: data arrives, a timer of a transaction fires, a delayed answer is due,
  a finished transaction is removed.\<close>

datatype async_event =
    Incoming "byte list" addr
  | Timer string TimerType
  | DelayedAnswer string
  | Cleanup string

definition client_async :: "client_env \<times> async_event \<Rightarrow> SIPClient \<Rightarrow> SIPClient" where
  "client_async ev c =
     (case ev of (e, a) \<Rightarrow>
        case a of
          Incoming data src \<Rightarrow> on_message_received e data src c
        | Timer i ty \<Rightarrow> fst (run_ua e (\<lambda>ue s. case ua_fire ue i ty s of Some (s', _) \<Rightarrow> (s', ()) | None \<Rightarrow> (s, ())) c)
        | DelayedAnswer i \<Rightarrow> fst (run_ua e (\<lambda>ue s. case ua_answer ue i s of Some (s', _) \<Rightarrow> (s', ()) | None \<Rightarrow> (s, ())) c)
        | Cleanup i \<Rightarrow> fst (run_ua e (\<lambda>ue s. case ua_cleanup i s of Some s' \<Rightarrow> (s', ()) | None \<Rightarrow> (s, ())) c))"

type_synonym idle = "(client_env \<times> async_event) list"

definition sleep :: "idle \<Rightarrow> SIPClient \<Rightarrow> SIPClient" where
  "sleep evs c = fold client_async evs c"

definition udp_example_agent :: UserAgent where
  "udp_example_agent = \<lparr>ag_domain = ''demo.mizu-voip.com'', ag_port = 37075, ag_realm = ''demo.mizu-voip.com'', ag_username = ''testuser'',
     ag_password = ''testpass'', ag_display_user = [], ag_user_agent = ''TinySIP-UA/1.0'', ag_transport_cfg = None\<rparr>"

text \<open>\<open>example_udp_client\<close>: the outcome of binding the socket, and the events of its three pauses. An exception of
  \<open>start\<close> goes to the error panel; the client is stopped in any case.\<close>

definition example_udp_client :: "client_env \<Rightarrow> binding option \<Rightarrow> idle \<Rightarrow> idle \<Rightarrow> idle \<Rightarrow> SIPClient \<times> rendering option res" where
  "example_udp_client e bound p1 p2 p3 =
     (let ua = udp_example_agent;
          (c0, r) = client_start bound (new_client ua)
      in client_stop
           (case r of
              Inl _ \<Rightarrow> c0
            | Inr _ \<Rightarrow>
                let c1 = sleep p1 (fst (client_send_options e None c0));
                    c2 = client_add_credentials (if ag_realm ua \<noteq> [] then ag_realm ua else ag_domain ua) (ag_username ua) (ag_password ua) c1;
                    (c3, tid) = client_send_register e None 3600 c2;
                    c4 = (if truthy_str tid then sleep p2 c3 else c3);
                    offer = create_basic_audio_offer (epoch_time (ce_env e)) (fst (local_address (cl_transport c4)));
                    c5 = fst (client_send_invite e (''sip:test@'' @ ag_domain ua @ '':'' @ int_str (ag_port ua)) (Some offer) None c4)
                in sleep p3 c5))"

definition fsm_server_agent :: UserAgent where
  "fsm_server_agent = \<lparr>ag_domain = ''localhost'', ag_port = 5060, ag_realm = [], ag_username = ''server'', ag_password = [],
     ag_display_user = [], ag_user_agent = ''TinySIP-Server/1.0'',
     ag_transport_cfg = Some ((udp_config ''0.0.0.0'' 5060)\<lparr>local_port := 5060\<rparr>)\<rparr>"

definition example_fsm_server :: "binding option \<Rightarrow> idle \<Rightarrow> SIPClient \<times> rendering option res" where
  "example_fsm_server bound p =
     (let (c0, r) = client_start bound (new_client fsm_server_agent)
      in client_stop (case r of Inl _ \<Rightarrow> c0 | Inr _ \<Rightarrow> sleep p c0))"

text \<open>\<open>example_tcp_server\<close> prints what its TCP transport receives; its handler sends nothing.\<close>

definition example_tcp_server :: "binding option \<Rightarrow> Transport \<times> net_event list" where
  "example_tcp_server bound =
     transport_stop (fst (transport_start bound (new_transport ((udp_config ''demo.mizu-voip.com'' 37075)\<lparr>transport_type := TCP\<rparr>))))"

section \<open>Delivery over UDP\<close>

definition udp_ready :: "Transport \<Rightarrow> bool" where
  "udp_ready t = (running t \<and> udp_open t \<and> transport_type (cfg t) = UDP)"

definition udp_target :: "Transport \<Rightarrow> addr \<Rightarrow> addr" where
  "udp_target t dst = (case udp_peer t of Some p \<Rightarrow> p | None \<Rightarrow> dst)"

lemma deliver_udp:
  "udp_ready t \<Longrightarrow> deliver connect ms t = (t, map (\<lambda>(raw, dst). Datagram (utf8_encode raw) (udp_target t dst)) ms)"
  by (induction ms) (auto simp: udp_ready_def adapter_send_def transport_send_def base_send_def sendto_def udp_target_def)

lemma adapter_net_udp: "udp_ready t \<Longrightarrow> adapter_net connect t raw dst"
  by (simp add: adapter_net_def udp_ready_def adapter_send_def transport_send_def base_send_def)

text \<open>A request of the user agent that starts a new transaction leaves the client as one datagram.\<close>

lemma run_request:
  assumes "udp_ready (cl_transport c)" and "ua_timers (cl_sip c) = Some tm"
    and "f (ua_env e c) (cl_sip c) = create_client_transaction (ua_env e c) m (cl_sip c)"
    and "i = generate_transaction_id (ua_env e c) m" and "dict_get (transactions (cl_sip c)) i = None"
  shows "\<exists>s. run_ua e f c = (c\<lparr>cl_sip := s, cl_wire := cl_wire c @ [Datagram (message_encode m) (udp_target (cl_transport c) (extract_destination m))]\<rparr>, Inr i)"
proof -
  have n: "net (ua_env e c) raw dst" for raw dst by (simp add: ua_env_def adapter_net_udp[OF assms(1)])
  then have "request_log (ua_env e c) m = [(message_str m, extract_destination m)]" by (simp add: request_log_def)
  with client_transaction_created[OF assms(5,4)] assms(2,3) show ?thesis
    by (auto simp: run_ua_def deliver_udp[OF assms(1)] message_encode_def)
qed

section \<open>A client that has just been started\<close>

definition started_client :: "UserAgent \<Rightarrow> binding \<Rightarrow> SIPClient" where
  "started_client ua b = fst (client_start (Some b) (new_client ua))"

definition agent_target :: "UserAgent \<Rightarrow> bool \<Rightarrow> addr" where
  "agent_target ua linked =
     (if linked \<and> ag_domain ua \<noteq> [] \<and> ag_port ua \<noteq> 0 then (ag_domain ua, ag_port ua) else (''0.0.0.0'', 5060))"

lemma started_client_facts:
  assumes "ag_transport_cfg ua = None"
  shows "udp_ready (cl_transport (started_client ua b))" "cl_sip (started_client ua b) = new_ua (local_uri_of ua) (Some default_timers)"
    "cl_wire (started_client ua b) = []" "cl_ua (started_client ua b) = ua" "cl_current (started_client ua b) = None"
    "local_address (cl_transport (started_client ua b)) = fst b" "cl_tracker (started_client ua b) = new_tracker"
    "udp_target (cl_transport (started_client ua b)) (''0.0.0.0'', 5060) = agent_target ua (snd b)"
  using assms by (cases b; simp add: Let_def started_client_def client_start_def new_client_def transport_start_def new_transport_def
      agent_cfg_def udp_config_def udp_ready_def local_address_def start_udp_def base_start_def udp_target_def agent_target_def)+

lemma ensure_tracking_keeps:
  "cl_transport (ensure_tracking e c) = cl_transport c" "cl_sip (ensure_tracking e c) = cl_sip c"
  "cl_wire (ensure_tracking e c) = cl_wire c" "cl_ua (ensure_tracking e c) = cl_ua c"
  by (simp_all add: ensure_tracking_def start_call_flow_tracking_def Let_def)

lemma record_entry_keeps:
  "cl_wire (record_entry en c) = cl_wire c" "cl_sip (record_entry en c) = cl_sip c" "cl_transport (record_entry en c) = cl_transport c"
  "cl_current (record_entry en c) = cl_current c"
  by (simp_all add: record_entry_def split: option.split)

lemma local_domain:
  assumes "ag_transport_cfg ua = None" and "CHR ''@'' \<notin> set (ag_username ua)"
  shows "uri_domain (local_uri_of ua) = ''0.0.0.0''"
proof -
  let ?n = "''sip:'' @ (if ag_username ua = [] then ''Anonymous'' else ag_username ua)"
  have u: "local_uri_of ua = ?n @ CHR ''@'' # ''0.0.0.0''" using assms(1) by (simp add: local_uri_of_def agent_cfg_def udp_config_def)
  have "CHR ''@'' \<notin> set ?n" using assms(2) by simp
  from partition_at_char[OF this, of "''0.0.0.0''"] have "split_on ''@'' (local_uri_of ua) = ?n # split_on ''@'' ''0.0.0.0''"
    unfolding u by (subst split_on.simps) simp
  moreover have "split_on ''@'' ''0.0.0.0'' = [''0.0.0.0'']" by (subst split_on.simps) simp
  moreover have "has_at (local_uri_of ua)" by (simp add: has_at_def u)
  ultimately show ?thesis by (simp add: uri_domain_def)
qed

lemma own_destination:
  assumes "uri_domain self = ''0.0.0.0''" and "list_all (\<lambda>x. \<not> is_space x) (fresh_hex ue 2)" and "get_header m ''via'' = Some (own_via ue self)"
  shows "extract_destination m = (''0.0.0.0'', 5060)"
proof -
  have "list_all (\<lambda>c. c \<noteq> CHR '';'' \<and> c \<noteq> CHR '':'' \<and> \<not> is_space c) ''0.0.0.0''" by (simp add: char_class_defs)
  with via_address_plain[of "''0.0.0.0''"] assms show ?thesis by (simp add: extract_destination_def own_via_def)
qed

text \<open>The three requests of a client just started.\<close>

lemma first_request:
  assumes ua: "ag_transport_cfg ua = None" "CHR ''@'' \<notin> set (ag_username ua)"
    and hex: "list_all (\<lambda>x. \<not> is_space x) (fresh_hex (ce_env e) 2)"
    and c: "c = ensure_tracking e (started_client ua b)"
    and f: "f (ua_env e c) (cl_sip c) = create_client_transaction (ua_env e c) m (cl_sip c)"
    and via: "get_header m ''via'' = Some (own_via (ua_env e c) (local_uri_of ua))"
  shows "\<exists>s i. run_ua e f c = (c\<lparr>cl_sip := s, cl_wire := [Datagram (message_encode m) (agent_target ua (snd b))]\<rparr>, Inr i)"
proof -
  note k = started_client_facts[OF ua(1), of b] ensure_tracking_keeps[of e "started_client ua b"]
  have hex': "list_all (\<lambda>x. \<not> is_space x) (fresh_hex (ua_env e c) 2)" using hex by (simp add: ua_env_def)
  have d: "extract_destination m = (''0.0.0.0'', 5060)" by (rule own_destination[OF local_domain[OF ua] hex' via])
  show ?thesis using run_request[of c default_timers f e m, OF _ _ f HOL.refl] k d by (simp add: c new_ua_def) blast
qed

lemma options_call_id:
  assumes "stripped (fresh_hex ue 0 @ ''@'' @ uri_domain self)"
  shows "get_header (create_options_request ue self target) ''call-id'' = Some (fresh_hex ue 0 @ ''@'' @ uri_domain self)"
proof -
  have s: "stripped ''Via''" "stripped ''Max-Forwards''" "stripped ''From''" "stripped ''To''" "stripped ''Call-ID''"
    by (simp_all add: stripped_def char_class_defs)
  have l: "lower ''call-id'' = ''call-id''" "lower ''Via'' = ''via''" "lower ''Max-Forwards'' = ''max-forwards''" "lower ''From'' = ''from''"
    "lower ''To'' = ''to''" "lower ''Call-ID'' = ''call-id''" by (simp_all add: lower_eval)
  have n: "get_header (create_request OPTIONS target [] None) ''call-id'' = None"
    by (simp add: create_request_def attach_body_def get_header_def new_message_def)
  have "get_header (add_headers [(''Via'', v), (''Max-Forwards'', w), (''From'', x), (''To'', y), (''Call-ID'', z)]
      (create_request OPTIONS target [] None)) ''call-id'' = Some (strip z)" for v w x y z
    by (simp add: add_headers_def get_header_add n strip_id s l)
  from add_headers_keeps[OF this] have "get_header (add_headers ([(''Via'', v), (''Max-Forwards'', w), (''From'', x), (''To'', y), (''Call-ID'', z)] @ hs)
      (create_request OPTIONS target [] None)) ''call-id'' = Some (strip z)" for v w x y z hs
    by (simp add: add_headers_def)
  then show ?thesis using strip_id[OF assms] by (simp add: create_options_request_def)
qed

section \<open>Reachable clients\<close>

definition tracker_ok :: "SIPCallFlowTracker \<Rightarrow> bool" where
  "tracker_ok t = list_all (\<lambda>(_, f). methods_ok f) (call_flows t)"

lemma methods_ok_append: "methods_ok f \<Longrightarrow> words (fe_method en) \<noteq> [] \<Longrightarrow> methods_ok (append_entry en f)"
  by (simp add: methods_ok_def append_entry_def)

lemma methods_ok_new [simp]: "methods_ok (new_call_flow cid la ra)"
  by (simp add: methods_ok_def new_call_flow_def)

lemma tracker_ok_set: "tracker_ok t \<Longrightarrow> methods_ok f \<Longrightarrow> tracker_ok (t\<lparr>call_flows := dict_set cid f (call_flows t)\<rparr>)"
  by (simp add: tracker_ok_def list_all_dict_set)

lemma tracker_ok_get: "tracker_ok t \<Longrightarrow> dict_get (call_flows t) cid = Some f \<Longrightarrow> methods_ok f"
  by (auto simp: tracker_ok_def dest: dict_get_list_all)

lemma tracker_ok_on_flow:
  assumes "tracker_ok t" and "\<And>f. methods_ok f \<Longrightarrow> methods_ok (g f)"
  shows "tracker_ok (on_flow cid g t)"
  using assms tracker_ok_get[OF assms(1)]
  by (auto simp: on_flow_def get_or_create_call_flow_def Let_def tracker_ok_set split: option.split)

lemma tracker_ok_inbound: "tracker_ok t \<Longrightarrow> tracker_ok (track_inbound strf now cid src m tid summary t)"
  unfolding track_inbound_def
  by (rule tracker_ok_on_flow) (simp_all add: add_inbound_message_def methods_ok_append flow_entry_def flow_method_words)

lemma tracker_ok_outbound: "tracker_ok t \<Longrightarrow> tracker_ok (track_outbound strf now cid src m tid summary t)"
  unfolding track_outbound_def
  by (rule tracker_ok_on_flow) (simp_all add: add_outbound_message_def methods_ok_append flow_entry_def flow_method_words)

lemma tracker_ok_current: "tracker_ok t \<Longrightarrow> \<exists>r. render_current_flow t = Inr r"
proof -
  assume ok: "tracker_ok t"
  have "methods_ok (snd (last (call_flows t)))" if "call_flows t \<noteq> []"
    using ok last_in_set[OF that] by (cases "last (call_flows t)") (auto simp: tracker_ok_def list_all_iff)
  then show ?thesis using render_total[of 25 8] by (fastforce simp: render_current_flow_def)
qed

lemma run_ua_tracker [simp]: "cl_tracker (fst (run_ua e f c)) = cl_tracker c"
  by (simp add: run_ua_def split: prod.split)

lemma run_ua_tracker' [simp]: "run_ua e f c = (c', r) \<Longrightarrow> cl_tracker c' = cl_tracker c"
  using run_ua_tracker[of e f c] by simp

lemma tracker_ok_ensure: "tracker_ok (cl_tracker c) \<Longrightarrow> tracker_ok (cl_tracker (ensure_tracking e c))"
  by (simp add: ensure_tracking_def start_call_flow_tracking_def start_call_flow_def tracker_ok_set Let_def)

lemma tracker_ok_record:
  "tracker_ok (cl_tracker c) \<Longrightarrow> words (fe_method en) \<noteq> [] \<Longrightarrow> tracker_ok (cl_tracker (record_entry en c))"
  by (auto simp: record_entry_def get_call_flow_def split: option.split intro!: tracker_ok_set methods_ok_append dest: tracker_ok_get)

lemma request_words: "words ''OPTIONS'' \<noteq> []" "words ''REGISTER'' \<noteq> []" "words ''INVITE'' \<noteq> []"
  by code_simp+

lemma tracker_ok_requests:
  assumes "tracker_ok (cl_tracker c)"
  shows "tracker_ok (cl_tracker (fst (client_send_options e target c)))"
    and "tracker_ok (cl_tracker (fst (client_send_register e registrar expires c)))"
    and "tracker_ok (cl_tracker (fst (client_send_invite e uri_arg sdp_arg bd c)))"
    and "tracker_ok (cl_tracker (fst (client_send_bye e did c)))"
  using tracker_ok_ensure[OF assms, of e] assms
  by (auto simp: client_send_options_def client_send_register_def client_send_invite_def client_send_bye_def client_entry_def
      Let_def request_words tracker_ok_record split: prod.splits sum.splits)

lemma tracker_ok_received: "tracker_ok (cl_tracker c) \<Longrightarrow> tracker_ok (cl_tracker (on_message_received e data a c))"
  by (simp add: on_message_received_def Let_def tracker_ok_inbound split: sum.split)

lemma tracker_ok_async: "tracker_ok (cl_tracker c) \<Longrightarrow> tracker_ok (cl_tracker (client_async ev c))"
  by (simp add: client_async_def tracker_ok_received split: prod.split async_event.split)

text \<open>Everything a program can do with a client.\<close>

inductive client_step :: "SIPClient \<Rightarrow> SIPClient \<Rightarrow> bool" where
  start: "client_step c (fst (client_start bound c))"
| tracking: "client_step c (start_call_flow_tracking e cid_arg c)"
| options: "client_step c (fst (client_send_options e target c))"
| register: "client_step c (fst (client_send_register e registrar expires c))"
| invite: "client_step c (fst (client_send_invite e uri_arg sdp_arg bd c))"
| bye: "client_step c (fst (client_send_bye e did c))"
| credentials: "client_step c (client_add_credentials realm usr pw c)"
| async: "client_step c (client_async ev c)"

inductive client_reach :: "UserAgent \<Rightarrow> SIPClient \<Rightarrow> bool" for ua where
  new: "client_reach ua (new_client ua)"
| step: "client_reach ua c \<Longrightarrow> client_step c c' \<Longrightarrow> client_reach ua c'"

inductive_cases client_stepE: "client_step c c'"

lemma step_tracker_ok: "client_step c c' \<Longrightarrow> tracker_ok (cl_tracker c) \<Longrightarrow> tracker_ok (cl_tracker c')"
  by (elim client_stepE)
    (auto simp: tracker_ok_requests tracker_ok_async client_start_def client_add_credentials_def start_call_flow_tracking_def
      start_call_flow_def tracker_ok_set Let_def split: prod.split)

lemma reach_tracker_ok: "client_reach ua c \<Longrightarrow> tracker_ok (cl_tracker c)"
proof (induction rule: client_reach.induct)
  case new
  show ?case by (simp add: new_client_def new_tracker_def tracker_ok_def)
qed (rule step_tracker_ok)

section \<open>Properties\<close>

text \<open>C19. Where the requests of a client with the default transport go: after it has been started, its first OPTIONS,
  REGISTER or INVITE leaves as exactly one datagram, whatever the target, and the destination is the agent's domain and port
  if the socket could be connected to them; otherwise it is the wildcard address \<open>0.0.0.0\<close>, port 5060, which the user agent
  reads from its own Via.\<close>

theorem client_requests_destination:
  assumes "ag_transport_cfg ua = None" and "CHR ''@'' \<notin> set (ag_username ua)"
    and "list_all (\<lambda>x. \<not> is_space x) (fresh_hex (ce_env e) 2)" and "c = started_client ua (a, linked)"
    and "c' \<in> {fst (client_send_options e target c), fst (client_send_register e target expires c), fst (client_send_invite e u sdp_arg bd c)}"
  shows "\<exists>raw. cl_wire c' = [Datagram raw (agent_target ua linked)]"
proof -
  let ?c = "ensure_tracking e c"
  have self: "ua_local_uri (cl_sip ?c) = local_uri_of ua"
    using started_client_facts(2)[OF assms(1), of "(a, linked)"] by (simp add: assms(4) ensure_tracking_keeps new_ua_def)
  have hex: "list_all (\<lambda>x. \<not> is_space x) (fresh_hex (ua_env e ?c) 2)" using assms(3) by (simp add: ua_env_def)
  note r = first_request[OF assms(1-3), of ?c "(a, linked)", unfolded assms(4)[symmetric], OF HOL.refl, unfolded snd_conv]
  have o: "\<exists>s i. run_ua e (\<lambda>ue. send_options ue v) ?c = (?c\<lparr>cl_sip := s, cl_wire := [Datagram raw (agent_target ua linked)]\<rparr>, Inr i)"
    if "raw = message_encode (create_options_request (ua_env e ?c) (local_uri_of ua) v)" for v raw
    using r[of "\<lambda>ue. send_options ue v", OF _ request_via(1)[OF hex]] that by (simp add: send_options_def self)
  have g: "\<exists>raw s i. run_ua e (\<lambda>ue. send_register ue (Some v) expires) ?c = (?c\<lparr>cl_sip := s, cl_wire := [Datagram raw (agent_target ua linked)]\<rparr>, Inr i)" for v
    using r[of "\<lambda>ue. send_register ue (Some v) expires", OF _ request_via(2)[OF hex]] by (simp add: send_register_def self Let_def) blast
  have i: "\<exists>raw s i. run_ua e (\<lambda>ue. send_invite ue u b) ?c = (?c\<lparr>cl_sip := s, cl_wire := [Datagram raw (agent_target ua linked)]\<rparr>, Inr i)" for b
  proof -
    have "has_at (local_uri_of ua)" by (simp add: has_at_def local_uri_of_def)
    then obtain m where m: "create_invite_request (ua_env e ?c) (local_uri_of ua) u b = Inr m" by (simp add: create_invite_request_def Let_def)
    from r[of "\<lambda>ue. send_invite ue u b", OF _ request_via(3)[OF hex m]] m show ?thesis by (simp add: send_invite_def self) blast
  qed
  have "\<exists>raw. cl_wire (fst (client_send_options e target c)) = [Datagram raw (agent_target ua linked)]"
    using o[of _ "if truthy_str target then the target else default_target c", OF HOL.refl]
    by (auto simp: client_send_options_def Let_def record_entry_keeps)
  moreover have "\<exists>raw. cl_wire (fst (client_send_register e target expires c)) = [Datagram raw (agent_target ua linked)]"
    using g[of "if truthy_str target then the target else default_target c"]
    by (auto simp: client_send_register_def Let_def record_entry_keeps)
  moreover have "\<exists>raw. cl_wire (fst (client_send_invite e u sdp_arg bd c)) = [Datagram raw (agent_target ua linked)]"
  proof -
    define sdp_body where "sdp_body = (if sdp_arg = None \<and> \<not> truthy_str bd
        then Some (create_basic_audio_offer (epoch_time (ce_env e)) (fst (local_address (cl_transport c)))) else sdp_arg)"
    from i[of "case sdp_body of Some s \<Rightarrow> Some (session_encode s) | None \<Rightarrow> bd"] show ?thesis
      unfolding client_send_invite_def Let_def sdp_body_def[symmetric]
      by (elim exE) (simp add: record_entry_keeps split: sum.split)
  qed
  ultimately show ?thesis using assms(5) by blast
qed

definition example_client_env :: client_env where
  "example_client_env = \<lparr>ce_env = example_env, ce_connect = (\<lambda>_. None), ce_strf = ''10:00:00.%f'', ce_uuid = ''0123456789abcdef''\<rparr>"

lemma example_client_facts:
  "ag_transport_cfg udp_example_agent = None" "CHR ''@'' \<notin> set (ag_username udp_example_agent)"
  "list_all (\<lambda>x. \<not> is_space x) (fresh_hex (ce_env example_client_env) 2)"
  by (simp_all add: udp_example_agent_def example_client_env_def example_env_def char_class_defs)

theorem client_requests_destination_witness:
  "\<exists>raw. cl_wire (fst (client_send_options example_client_env None (started_client udp_example_agent ((''10.0.0.2'', 40000), True)))) =
     [Datagram raw (agent_target udp_example_agent True)]"
  using client_requests_destination[OF example_client_facts HOL.refl insertI1] .

text \<open>The client's flow never shows the answer to its own request: tracking runs under an identifier made up for the
  flow, not under the Call-ID of the request, so a message received with the Call-ID of the OPTIONS just sent leaves the
  tracker as it is.\<close>

theorem client_answer_untracked:
  assumes "ag_transport_cfg ua = None" and "CHR ''@'' \<notin> set (ag_username ua)" and "ag_domain ua \<noteq> ''0.0.0.0''"
    and "CHR ''@'' \<notin> set (ce_uuid e)" and "CHR ''@'' \<notin> set (fresh_hex (ce_env e) 0)"
    and "stripped (fresh_hex (ce_env e) 0 @ ''@'' @ ''0.0.0.0'')"
    and "c = fst (client_send_options e target (started_client ua a))"
    and "message_parse (utf8_decode_ignore data) = Inr m"
    and "get_header m ''call-id'' = get_header (create_options_request (ce_env e) (local_uri_of ua) u) ''call-id''"
  shows "cl_tracker (on_message_received e' data src c) = cl_tracker c"
proof -
  let ?cid = "fresh_hex (ce_env e) 0 @ ''@'' @ ''0.0.0.0''" and ?cur = "take 8 (ce_uuid e) @ ''@'' @ ag_domain ua"
  have k: "cl_current (run_fst) = cl_current c0" if "run_ua e f c0 = (run_fst, r)" for run_fst f r and c0 :: SIPClient
    using that by (auto simp: run_ua_def split: prod.splits)
  have "cl_current (ensure_tracking e (started_client ua a)) = Some ?cur"
    using started_client_facts[OF assms(1), of a] by (simp add: ensure_tracking_def start_call_flow_tracking_def Let_def)
  then have cur: "cl_current c = Some ?cur"
    unfolding assms(7) client_send_options_def Let_def by (auto simp: record_entry_keeps split: prod.split sum.split dest: k)
  have "get_header m ''call-id'' = Some ?cid"
    using assms(6,9) options_call_id[of "ce_env e" "local_uri_of ua" u] local_domain[OF assms(1,2)] by simp
  moreover have "?cid \<noteq> ?cur"
  proof
    assume eq: "?cid = ?cur"
    have "CHR ''@'' \<notin> set (take 8 (ce_uuid e))" using assms(4) in_set_takeD by fast
    from partition_at_char[OF this, of "ag_domain ua"] partition_at_char[OF assms(5), of "''0.0.0.0''"] eq assms(3)
    show False by simp
  qed
  ultimately show ?thesis using assms(8) by (simp add: on_message_received_def Let_def cur)
qed

theorem client_answer_untracked_witness:
  "let c = fst (client_send_options example_client_env None (started_client udp_example_agent ((''10.0.0.2'', 40000), True)))
   in cl_tracker (on_message_received example_client_env (utf8_encode (''SIP/2.0 200 OK'' @ CRLF @ ''Call-ID: 00ff@0.0.0.0'' @ CRLF @ CRLF)) (''h'', 5060) c) = cl_tracker c"
proof -
  let ?raw = "''SIP/2.0 200 OK'' @ CRLF @ ''Call-ID: 00ff@0.0.0.0'' @ CRLF @ CRLF"
  have "case message_parse ?raw of Inr m \<Rightarrow> get_header m ''call-id'' = Some ''00ff@0.0.0.0'' | Inl _ \<Rightarrow> False" by code_simp
  then obtain m where m: "message_parse (utf8_decode_ignore (utf8_encode ?raw)) = Inr m" "get_header m ''call-id'' = Some ''00ff@0.0.0.0''"
    unfolding utf8_roundtrip by (cases "message_parse ?raw") simp_all
  have s: "stripped (fresh_hex (ce_env example_client_env) 0 @ ''@'' @ ''0.0.0.0'')"
    by (simp add: example_client_env_def example_env_def stripped_def char_class_defs)
  have "get_header m ''call-id'' = get_header (create_options_request (ce_env example_client_env) (local_uri_of udp_example_agent) []) ''call-id''"
    using options_call_id[of "ce_env example_client_env" "local_uri_of udp_example_agent" "[]"] s m(2) local_domain[OF example_client_facts(1,2)]
    by (simp add: example_client_env_def example_env_def)
  from client_answer_untracked[OF example_client_facts(1,2) _ _ _ s HOL.refl m(1) this] show ?thesis
    by (simp add: udp_example_agent_def example_client_env_def example_env_def Let_def)
qed



end
