(* ===== verification/Mizu_Client.thy ===== *)
theory Mizu_Client
  imports Sip_Client
begin

text \<open>
  The client of \<open>examples/mizu_example.py\<close>. It differs from \<open>client.py\<close> in its transport adapter, which parses every
  message on its way out and files it under its Call-ID, in its handler of received data, which does the same, and in
  the keep-alive task. The adapter also files messages the transport then refuses; the transaction layer catches that
  error and tells the agent through a callback that does nothing, so the agent runs as if every message were accepted and the
  adapter decides.
\<close>

section \<open>The tracking adapter\<close>

definition track_sent :: "client_env \<Rightarrow> string \<Rightarrow> addr \<Rightarrow> SIPCallFlowTracker \<Rightarrow> SIPCallFlowTracker" where
  "track_sent e raw dst tr =
     (case message_parse raw of
        Inl _ \<Rightarrow> tr
      | Inr m \<Rightarrow>
          (let cid = get_header m ''call-id''
           in if truthy_str cid
              then track_outbound (ce_strf e) (epoch_time (ce_env e)) (the cid) (addr_str dst) m None None tr
              else tr))"

definition mizu_adapter_send ::
  "client_env \<Rightarrow> string \<Rightarrow> addr \<Rightarrow> SIPCallFlowTracker \<times> Transport \<Rightarrow> (SIPCallFlowTracker \<times> Transport) \<times> net_event list \<times> unit res" where
  "mizu_adapter_send e raw dst st =
     (case adapter_send (ce_connect e) raw dst (snd st) of (t, evs, r) \<Rightarrow> ((track_sent e raw dst (fst st), t), evs, r))"

fun mizu_deliver ::
  "client_env \<Rightarrow> (string \<times> addr) list \<Rightarrow> SIPCallFlowTracker \<times> Transport \<Rightarrow> (SIPCallFlowTracker \<times> Transport) \<times> net_event list" where
  "mizu_deliver e [] st = (st, [])"
| "mizu_deliver e ((raw, dst) # ms) st =
     (case mizu_adapter_send e raw dst st of (st1, ev, _) \<Rightarrow>
        case mizu_deliver e ms st1 of (st2, evs) \<Rightarrow> (st2, ev @ evs))"

section \<open>The client\<close>

record MizuClient =
  mz_ua :: UserAgent
  mz_transport :: Transport
  mz_tracker :: SIPCallFlowTracker
  mz_sip :: ua_state
  mz_running :: bool
  mz_keep_alive :: bool
  mz_wire :: "net_event list"

definition new_mizu_client :: "UserAgent \<Rightarrow> MizuClient" where
  "new_mizu_client ua =
     \<lparr>mz_ua = ua, mz_transport = new_transport (agent_cfg ua), mz_tracker = new_tracker,
      mz_sip = new_ua (local_uri_of ua) (Some default_timers), mz_running = False, mz_keep_alive = False, mz_wire = []\<rparr>"

definition mizu_env :: "client_env \<Rightarrow> env" where
  "mizu_env e = (ce_env e)\<lparr>net := (\<lambda>_ _. True)\<rparr>"

definition mizu_run :: "client_env \<Rightarrow> (env \<Rightarrow> ua_state \<Rightarrow> ua_state \<times> 'a) \<Rightarrow> MizuClient \<Rightarrow> MizuClient \<times> 'a" where
  "mizu_run e f c =
     (case f (mizu_env e) (mz_sip c) of (s, r) \<Rightarrow>
        case mizu_deliver e (drop (length (sent_log (mz_sip c))) (sent_log s)) (mz_tracker c, mz_transport c) of ((tr, t), evs) \<Rightarrow>
          (c\<lparr>mz_sip := s, mz_tracker := tr, mz_transport := t, mz_wire := mz_wire c @ evs\<rparr>, r))"

definition mizu_start :: "binding option \<Rightarrow> MizuClient \<Rightarrow> MizuClient \<times> unit res" where
  "mizu_start bound c =
     (case transport_start bound (mz_transport c) of
        (t, Inl err) \<Rightarrow> (c\<lparr>mz_transport := t\<rparr>, Inl err)
      | (t, Inr _) \<Rightarrow>
          (c\<lparr>mz_transport := t, mz_running := True,
             mz_tracker := set_addresses (addr_str (local_address t)) (ag_domain (mz_ua c) @ '':'' @ int_str (ag_port (mz_ua c))) (mz_tracker c)\<rparr>,
           Inr ()))"

definition mizu_stop :: "MizuClient \<Rightarrow> MizuClient \<times> (string \<times> rendering) list res" where
  "mizu_stop c =
     (case transport_stop (mz_transport c) of (t, evs) \<Rightarrow>
        (c\<lparr>mz_running := False, mz_keep_alive := False, mz_transport := t, mz_wire := mz_wire c @ evs\<rparr>,
         if call_flows (mz_tracker c) \<noteq> [] then render_all_flows (mz_tracker c) else Inr []))"

definition track_received :: "client_env \<Rightarrow> SIPMessage \<Rightarrow> addr \<Rightarrow> SIPCallFlowTracker \<Rightarrow> SIPCallFlowTracker" where
  "track_received e m src tr =
     (let cid = get_header m ''call-id''
      in if truthy_str cid
         then track_inbound (ce_strf e) (epoch_time (ce_env e)) (the cid) (addr_str src) m None None tr
         else tr)"

definition mizu_on_message :: "client_env \<Rightarrow> byte list \<Rightarrow> addr \<Rightarrow> MizuClient \<Rightarrow> MizuClient" where
  "mizu_on_message e data src c =
     (let raw = utf8_decode_ignore data in
      case message_parse raw of
        Inl _ \<Rightarrow> c
      | Inr m \<Rightarrow>
          fst (mizu_run e (\<lambda>ue s. (process_incoming_message ue raw s, ()))
            (c\<lparr>mz_tracker := track_received e m src (mz_tracker c)\<rparr>)))"

definition mizu_default_target :: "MizuClient \<Rightarrow> string" where
  "mizu_default_target c = ''sip:'' @ ag_domain (mz_ua c) @ '':'' @ int_str (ag_port (mz_ua c))"

definition caught :: "MizuClient \<times> string res \<Rightarrow> MizuClient \<times> string option" where
  "caught p = (case p of (c, Inl _) \<Rightarrow> (c, None) | (c, Inr tid) \<Rightarrow> (c, Some tid))"

definition mizu_send_options :: "client_env \<Rightarrow> string option \<Rightarrow> MizuClient \<Rightarrow> MizuClient \<times> string option" where
  "mizu_send_options e target c =
     caught (mizu_run e (\<lambda>ue. send_options ue (if truthy_str target then the target else mizu_default_target c)) c)"

definition mizu_send_register :: "client_env \<Rightarrow> string option \<Rightarrow> int \<Rightarrow> MizuClient \<Rightarrow> MizuClient \<times> string option" where
  "mizu_send_register e registrar expires c =
     caught (mizu_run e (\<lambda>ue. send_register ue (Some (if truthy_str registrar then the registrar else mizu_default_target c)) expires) c)"

definition mizu_send_invite ::
  "client_env \<Rightarrow> string \<Rightarrow> SDPSession option \<Rightarrow> string option \<Rightarrow> MizuClient \<Rightarrow> MizuClient \<times> string option" where
  "mizu_send_invite e target sdp_arg bd c =
     (let sdp_body = (if sdp_arg = None \<and> \<not> truthy_str bd
            then Some (create_basic_audio_offer (epoch_time (ce_env e)) (fst (local_address (mz_transport c)))) else sdp_arg);
          invite_body = (case sdp_body of Some s \<Rightarrow> Some (session_encode s) | None \<Rightarrow> bd)
      in caught (mizu_run e (\<lambda>ue. send_invite ue target invite_body) c))"

definition mizu_add_credentials :: "string \<Rightarrow> string \<Rightarrow> string \<Rightarrow> MizuClient \<Rightarrow> MizuClient" where
  "mizu_add_credentials realm usr pw c = c\<lparr>mz_sip := ua_add_credentials realm usr pw (mz_sip c)\<rparr>"

definition start_keep_alive :: "MizuClient \<Rightarrow> MizuClient" where
  "start_keep_alive c = c\<lparr>mz_keep_alive := True\<rparr>"

text \<open>One round of the keep-alive loop, while the client is running; an exception is logged and the loop goes on.\<close>

definition keep_alive_round :: "client_env \<Rightarrow> MizuClient \<Rightarrow> MizuClient" where
  "keep_alive_round e c =
     (if mz_keep_alive c then if mz_running c then fst (mizu_send_options e None c) else c\<lparr>mz_keep_alive := False\<rparr> else c)"

section \<open>The demo programs\<close>

datatype mizu_event = Network async_event | KeepAlive

definition mizu_async :: "client_env \<times> mizu_event \<Rightarrow> MizuClient \<Rightarrow> MizuClient" where
  "mizu_async ev c =
     (case ev of (e, a) \<Rightarrow>
        case a of
          KeepAlive \<Rightarrow> keep_alive_round e c
        | Network (Incoming data src) \<Rightarrow> mizu_on_message e data src c
        | Network (Timer i ty) \<Rightarrow> fst (mizu_run e (\<lambda>ue s. case ua_fire ue i ty s of Some (s', _) \<Rightarrow> (s', ()) | None \<Rightarrow> (s, ())) c)
        | Network (DelayedAnswer i) \<Rightarrow> fst (mizu_run e (\<lambda>ue s. case ua_answer ue i s of Some (s', _) \<Rightarrow> (s', ()) | None \<Rightarrow> (s, ())) c)
        | Network (Cleanup i) \<Rightarrow> fst (mizu_run e (\<lambda>ue s. case ua_cleanup i s of Some s' \<Rightarrow> (s', ()) | None \<Rightarrow> (s, ())) c))"

type_synonym mizu_idle = "(client_env \<times> mizu_event) list"

definition mizu_sleep :: "mizu_idle \<Rightarrow> MizuClient \<Rightarrow> MizuClient" where
  "mizu_sleep evs c = fold mizu_async evs c"

definition mizu_agent :: "string \<Rightarrow> UserAgent" where
  "mizu_agent name = \<lparr>ag_domain = ''demo.mizu-voip.com'', ag_port = 37075, ag_realm = ''demo.mizu-voip.com'', ag_username = ''1111'',
     ag_password = ''1111xxx'', ag_display_user = [], ag_user_agent = name, ag_transport_cfg = None\<rparr>"

definition mizu_login :: "MizuClient \<Rightarrow> MizuClient" where
  "mizu_login c = mizu_add_credentials (ag_realm (mz_ua c)) (ag_username (mz_ua c)) (ag_password (mz_ua c)) c"

text \<open>\<open>MizuSIPDemo.run_demo\<close>, with the events of its three pauses; the last one ends by a signal or after its time.\<close>

definition run_demo :: "client_env \<Rightarrow> binding option \<Rightarrow> mizu_idle \<Rightarrow> mizu_idle \<Rightarrow> mizu_idle \<Rightarrow> MizuClient \<times> (string \<times> rendering) list res" where
  "run_demo e bound p1 p2 p3 =
     (let (c0, r) = mizu_start bound (new_mizu_client (mizu_agent ''TinySIP-Demo/1.0''))
      in mizu_stop
           (case r of
              Inl _ \<Rightarrow> c0
            | Inr _ \<Rightarrow>
                let c1 = mizu_sleep p1 (start_keep_alive (mizu_login c0));
                    c2 = mizu_sleep p2 (fst (mizu_send_register e None 300 c1));
                    offer = create_basic_audio_offer (epoch_time (ce_env e)) (fst (local_address (mz_transport c2)));
                    target = ''sip:100@'' @ ag_domain (mz_ua c2) @ '':'' @ int_str (ag_port (mz_ua c2))
                in mizu_sleep p3 (fst (mizu_send_invite e target (Some offer) None c2))))"

definition run_simple_test :: "client_env \<Rightarrow> binding option \<Rightarrow> mizu_idle \<Rightarrow> mizu_idle \<Rightarrow> mizu_idle \<Rightarrow> MizuClient \<times> (string \<times> rendering) list res" where
  "run_simple_test e bound p1 p2 p3 =
     (let (c0, r) = mizu_start bound (new_mizu_client (mizu_agent ''TinySIP-UA/1.0''))
      in mizu_stop
           (case r of
              Inl _ \<Rightarrow> c0
            | Inr _ \<Rightarrow>
                let c1 = mizu_sleep p1 (fst (mizu_send_options e None (mizu_login c0)));
                    c2 = mizu_sleep p2 (fst (mizu_send_register e None 3600 c1));
                    target = ''sip:100@'' @ ag_domain (mz_ua c2) @ '':'' @ int_str (ag_port (mz_ua c2))
                in mizu_sleep p3 (fst (mizu_send_invite e target None None c2))))"

text \<open>\<open>main\<close>: the line the user types, or None when the input is closed or interrupted.\<close>

definition mizu_main ::
  "string option \<Rightarrow> client_env \<Rightarrow> binding option \<Rightarrow> mizu_idle \<Rightarrow> mizu_idle \<Rightarrow> mizu_idle \<Rightarrow> (MizuClient \<times> (string \<times> rendering) list res) option" where
  "mizu_main answer e bound p1 p2 p3 =
     (case answer of
        None \<Rightarrow> None
      | Some line \<Rightarrow>
          let choice = strip line in
          if choice = ''1'' then Some (run_demo e bound p1 p2 p3)
          else if choice = ''2'' then Some (run_simple_test e bound p1 p2 p3)
          else None)"

section \<open>What the client has seen\<close>

definition seen :: "bool \<Rightarrow> client_env \<Rightarrow> addr \<Rightarrow> SIPMessage res \<Rightarrow> tracked list" where
  "seen outward e peer r =
     (case r of
        Inl _ \<Rightarrow> []
      | Inr m \<Rightarrow>
          if truthy_str (get_header m ''call-id'')
          then [\<lparr>tk_outbound = outward, tk_call = the (get_header m ''call-id''), tk_strf = ce_strf e, tk_now = epoch_time (ce_env e),
            tk_peer = addr_str peer, tk_message = m\<rparr>]
          else [])"

lemma track_sent_seen: "track_sent e raw dst tr = fold track (seen True e dst (message_parse raw)) tr"
  by (simp add: track_sent_def seen_def track_def Let_def split: sum.split)

lemma track_received_seen: "track_received e m src tr = fold track (seen False e src (Inr m)) tr"
  by (simp add: track_received_def seen_def track_def Let_def)

lemma mizu_deliver_seen:
  "fst (fst (mizu_deliver e ms st)) = fold track (concat (map (\<lambda>(raw, dst). seen True e dst (message_parse raw)) ms)) (fst st)"
  by (induction e ms st rule: mizu_deliver.induct)
    (auto simp: mizu_adapter_send_def track_sent_seen split: prod.splits)

lemma mizu_run_tracker:
  "mz_tracker (fst (mizu_run e f c)) =
     fold track (concat (map (\<lambda>(raw, dst). seen True e dst (message_parse raw))
       (drop (length (sent_log (mz_sip c))) (sent_log (fst (f (mizu_env e) (mz_sip c))))))) (mz_tracker c)"
proof -
  let ?new = "drop (length (sent_log (mz_sip c))) (sent_log (fst (f (mizu_env e) (mz_sip c))))"
  have "mz_tracker (fst (mizu_run e f c)) = fst (fst (mizu_deliver e ?new (mz_tracker c, mz_transport c)))"
    by (simp add: mizu_run_def split: prod.split)
  then show ?thesis unfolding mizu_deliver_seen fst_conv .
qed

lemma mizu_run_seen: "\<exists>xs. mz_tracker (fst (mizu_run e f c)) = fold track xs (mz_tracker c)"
  unfolding mizu_run_tracker by (rule exI) (rule HOL.refl)

section \<open>Programs cannot fail to stop\<close>

lemma tracker_ok_track: "tracker_ok t \<Longrightarrow> tracker_ok (track x t)"
  by (simp add: track_def tracker_ok_inbound tracker_ok_outbound)

lemma tracker_ok_fold: "tracker_ok t \<Longrightarrow> tracker_ok (fold track xs t)"
  by (induction xs arbitrary: t) (simp_all add: tracker_ok_track)

definition mizu_ok :: "MizuClient \<Rightarrow> bool" where
  "mizu_ok c = tracker_ok (mz_tracker c)"

lemma mizu_ok_run: "mizu_ok c \<Longrightarrow> mizu_ok (fst (mizu_run e f c))"
  using mizu_run_seen[of e f c] by (auto simp: mizu_ok_def tracker_ok_fold)

lemma caught_fst: "fst (caught p) = fst p"
  by (simp add: caught_def split: prod.split sum.split)

lemma mizu_ok_requests:
  assumes "mizu_ok c"
  shows "mizu_ok (fst (mizu_send_options e target c))" "mizu_ok (fst (mizu_send_register e registrar expires c))"
    "mizu_ok (fst (mizu_send_invite e u sdp_arg bd c))"
  using assms by (simp_all add: mizu_send_options_def mizu_send_register_def mizu_send_invite_def Let_def caught_fst mizu_ok_run)

lemma mizu_ok_message: "mizu_ok c \<Longrightarrow> mizu_ok (mizu_on_message e data src c)"
  by (auto simp: mizu_on_message_def Let_def intro!: mizu_ok_run split: sum.split)
    (simp add: mizu_ok_def track_received_seen tracker_ok_fold)

lemma mizu_ok_small:
  "mizu_ok c \<Longrightarrow> mizu_ok (mizu_login c)" "mizu_ok c \<Longrightarrow> mizu_ok (start_keep_alive c)"
  "mizu_ok (new_mizu_client ua)" "mizu_ok c \<Longrightarrow> mizu_ok (fst (mizu_start bound c))"
  by (simp_all add: mizu_ok_def mizu_login_def mizu_add_credentials_def start_keep_alive_def new_mizu_client_def new_tracker_def
      mizu_start_def set_addresses_def tracker_ok_def split: prod.split sum.split)

lemma mizu_ok_async: "mizu_ok c \<Longrightarrow> mizu_ok (mizu_async ev c)"
  by (auto simp: mizu_async_def keep_alive_round_def mizu_ok_message mizu_ok_run mizu_ok_requests split: prod.split mizu_event.split async_event.split)
    (simp add: mizu_ok_def)

lemma mizu_ok_sleep: "mizu_ok c \<Longrightarrow> mizu_ok (mizu_sleep evs c)"
  unfolding mizu_sleep_def by (induction evs arbitrary: c) (simp_all add: mizu_ok_async)

definition stopped :: "Transport \<Rightarrow> bool" where
  "stopped t = (\<not> running t \<and> \<not> udp_open t \<and> \<not> server_open t \<and> tcp_connections t = [] \<and> sock t = None)"

lemma mizu_stop_tracker: "mz_tracker (fst (mizu_stop c)) = mz_tracker c"
  by (simp add: mizu_stop_def split: prod.split)

lemma mizu_stop_ok:
  assumes "mizu_ok c"
  shows "\<exists>out. snd (mizu_stop c) = Inr out \<and> map fst out = dict_keys (call_flows (mz_tracker c))"
    and "stopped (mz_transport (fst (mizu_stop c)))"
proof -
  have "\<exists>y. (case x of (cid, f) \<Rightarrow> map_res (Pair cid) (render_ladder f 25 8)) = Inr y \<and> fst y = fst x"
    if "x \<in> set (call_flows (mz_tracker c))" for x
    using that assms render_total[of 25 8 "snd x"] by (cases x) (auto simp: mizu_ok_def tracker_ok_def list_all_iff)
  from mapM_res_total[of "call_flows (mz_tracker c)" "\<lambda>(cid, f). map_res (Pair cid) (render_ladder f 25 8)" "\<lambda>x y. fst y = fst x", OF this]
  obtain out where out: "render_all_flows (mz_tracker c) = Inr out" "list_all2 (\<lambda>x y. fst y = fst x) (call_flows (mz_tracker c)) out"
    by (auto simp: render_all_flows_def)
  then have "map fst out = dict_keys (call_flows (mz_tracker c))"
    by (auto simp: dict_keys_def list_all2_conv_all_nth intro!: nth_equalityI)
  with out(1) show "\<exists>out. snd (mizu_stop c) = Inr out \<and> map fst out = dict_keys (call_flows (mz_tracker c))"
    by (auto simp: mizu_stop_def render_all_flows_def dict_keys_def split: prod.split)
  show "stopped (mz_transport (fst (mizu_stop c)))" by (simp add: mizu_stop_def transport_stop_def base_stop_def stopped_def)
qed

section \<open>Properties\<close>

text \<open>C18. An exchange is kept as one flow: on a client just started, a request and the message received afterwards with the
  same Call-ID are the first two entries of the flow of that Call-ID, the request from the local address to the address it
  was sent to and the answer back, whatever the client sends in reply.\<close>

theorem mizu_exchange_tracked:
  assumes "mizu_start (Some a) (new_mizu_client ua) = (c0, Inr ())" and "c1 = fst (mizu_send_options e (Some target) c0)" and "target \<noteq> []"
    and "req = create_options_request (mizu_env e) (local_uri_of ua) target"
    and "message_parse (message_str req) = Inr m" and "get_header m ''call-id'' = Some cid" and "cid \<noteq> []"
    and "message_parse (utf8_decode_ignore data) = Inr m'" and "get_header m' ''call-id'' = Some cid"
  shows "\<exists>f rest. get_call_flow cid (mz_tracker (mizu_on_message e' data src c1)) = Some f \<and>
    cf_local_address f = addr_str (local_address (mz_transport c0)) \<and>
    cf_entries f =
      flow_entry (ce_strf e) (epoch_time (ce_env e)) ''outbound'' (cf_local_address f) (addr_str (extract_destination req)) m None None #
      flow_entry (ce_strf e') (epoch_time (ce_env e')) ''inbound'' (addr_str src) (cf_local_address f) m' None None # rest"
proof -
  have c0: "mz_sip c0 = new_ua (local_uri_of ua) (Some default_timers)" "call_flows (mz_tracker c0) = []"
      "tr_local_address (mz_tracker c0) = addr_str (local_address (mz_transport c0))"
    using assms(1) by (auto simp: mizu_start_def new_mizu_client_def new_tracker_def set_addresses_def split: prod.splits sum.splits)
  have log: "request_log (mizu_env e) req = [(message_str req, extract_destination req)]" by (simp add: request_log_def mizu_env_def)
  have created: "sent_log (fst (send_options (mizu_env e) target (mz_sip c0))) = [(message_str req, extract_destination req)]"
    using client_transaction_created[of "mz_sip c0" "generate_transaction_id (mizu_env e) req" "mizu_env e" req] log
    by (simp add: send_options_def c0(1) new_ua_def assms(4))
  have tr1: "mz_tracker c1 = fold track (seen True e (extract_destination req) (Inr m)) (mz_tracker c0)"
    using created assms(3,5)
    by (simp add: assms(2) mizu_send_options_def caught_fst mizu_run_tracker c0(1)) (simp add: new_ua_def)
  obtain xs where xs: "mz_tracker (mizu_on_message e' data src c1) = fold track xs (track_received e' m' src (mz_tracker c1))"
    using mizu_run_seen[of e' "\<lambda>ue s. (process_incoming_message ue (utf8_decode_ignore data) s, ())"
        "c1\<lparr>mz_tracker := track_received e' m' src (mz_tracker c1)\<rparr>"] assms(8)
    by (auto simp: mizu_on_message_def)
  have all: "mz_tracker (mizu_on_message e' data src c1) =
      fold track (seen True e (extract_destination req) (Inr m) @ seen False e' src (Inr m') @ xs) (mz_tracker c0)"
    by (simp add: xs track_received_seen tr1)
  have new: "flow_or_new cid (mz_tracker c0) = new_call_flow cid (addr_str (local_address (mz_transport c0))) (tr_remote_address (mz_tracker c0))"
    by (simp add: flow_or_new_def get_call_flow_def c0(2,3))
  show ?thesis unfolding all fold_track_get new using assms(6,7,9)
    by (simp add: seen_def tracked_entry_def new_call_flow_def extend_flow_def)
qed

theorem mizu_exchange_tracked_witness:
  "let c1 = fst (mizu_send_options example_client_env (Some ''sip:x'') (fst (mizu_start (Some ((''h'', 1), True)) (new_mizu_client (mizu_agent ''d'')))))
   in \<exists>f. get_call_flow ''00ff@0.0.0.0'' (mz_tracker (mizu_on_message example_client_env
          (utf8_encode (''SIP/2.0 200 OK'' @ CRLF @ ''Call-ID: 00ff@0.0.0.0'' @ CRLF @ CRLF)) (''p'', 2) c1)) = Some f \<and> 2 \<le> length (cf_entries f)"
proof -
  let ?raw = "''SIP/2.0 200 OK'' @ CRLF @ ''Call-ID: 00ff@0.0.0.0'' @ CRLF @ CRLF"
  let ?req = "create_options_request (mizu_env example_client_env) (local_uri_of (mizu_agent ''d'')) ''sip:x''"
  have "case message_parse (message_str ?req) of Inr m \<Rightarrow> get_header m ''call-id'' = Some ''00ff@0.0.0.0'' | Inl _ \<Rightarrow> False" by code_simp
  then obtain m where m: "message_parse (message_str ?req) = Inr m" "get_header m ''call-id'' = Some ''00ff@0.0.0.0''"
    by (cases "message_parse (message_str ?req)") simp_all
  have "case message_parse ?raw of Inr m \<Rightarrow> get_header m ''call-id'' = Some ''00ff@0.0.0.0'' | Inl _ \<Rightarrow> False" by code_simp
  then obtain m' where m': "message_parse (utf8_decode_ignore (utf8_encode ?raw)) = Inr m'" "get_header m' ''call-id'' = Some ''00ff@0.0.0.0''"
    unfolding utf8_roundtrip by (cases "message_parse ?raw") simp_all
  have s: "mizu_start (Some ((''h'', 1), True)) (new_mizu_client (mizu_agent ''d'')) =
      (fst (mizu_start (Some ((''h'', 1), True)) (new_mizu_client (mizu_agent ''d''))), Inr ())"
    by (simp add: mizu_start_def transport_start_def start_udp_def base_start_def new_mizu_client_def new_transport_def mizu_agent_def agent_cfg_def udp_config_def)
  from mizu_exchange_tracked[OF s HOL.refl _ HOL.refl m _ m', of example_client_env "(''p'', 2)"] show ?thesis
    unfolding Let_def by fastforce
qed


end
