(* ===== verification/Dns_Resolver.thy ===== *)
theory Dns_Resolver
  imports Py_Regex "HOL-Library.Product_Lexorder"
begin

text \<open>
  The resolver of SIP targets (\<open>dns.py\<close>): extraction of the domain from a URI, the SRV queries with their
  built-in answers, ordering by priority and weight, and the fallback to an address lookup, whose answer
  (\<open>loop.getaddrinfo\<close>) is an argument.
\<close>

section \<open>Operations\<close>

type_synonym target = "string \<times> int \<times> string"
type_synonym srv_record = "int \<times> int \<times> int \<times> string"

definition re_domain :: rx where
  "re_domain = RSeq (rx_lit_ci ''sip'') (rx_seq [ROpt (rx_lit_ci ''s''), rx_lit '':'',
     ROpt (RSeq (RRep1 (\<lambda>c. c \<noteq> CHR ''@'')) (rx_lit ''@'')), RGrp 1 (RRep1 (not_in '';:/?''))])"

definition extract_domain :: "string \<Rightarrow> string option" where
  "extract_domain u = (case rx_first re_domain u of Some m \<Rightarrow> group_of m 1 | None \<Rightarrow> None)"

definition srv_queries :: "string \<Rightarrow> bool \<Rightarrow> string list" where
  "srv_queries domain secure =
     (if secure then [''_sips._tcp.'' @ domain, ''_sip._tls.'' @ domain]
      else [''_sips._tcp.'' @ domain, ''_sip._tcp.'' @ domain, ''_sip._udp.'' @ domain])"

definition extract_protocol_from_query :: "string \<Rightarrow> string" where
  "extract_protocol_from_query q =
     (if contains ''_sips._tcp'' q then ''TLS'' else if contains ''_sip._tcp'' q then ''TCP''
      else if contains ''_sip._tls'' q then ''TLS'' else if contains ''_sip._udp'' q then ''UDP'' else ''UDP'')"

definition query_srv :: "string \<Rightarrow> srv_record list" where
  "query_srv q =
     (if contains ''_sips._tcp'' q then [(10, 60, 5061, ''sip1.example.com''), (20, 40, 5061, ''sip2.example.com'')]
      else if contains ''_sip._tcp'' q then [(10, 60, 5060, ''sip1.example.com''), (20, 40, 5060, ''sip2.example.com'')]
      else if contains ''_sip._udp'' q then [(30, 60, 5060, ''sip1.example.com'')]
      else [])"

text \<open>The candidates of all queries with their priority and weight, before sorting.\<close>

type_synonym candidate = "string \<times> int \<times> string \<times> int \<times> int"

definition srv_candidates :: "string \<Rightarrow> bool \<Rightarrow> candidate list" where
  "srv_candidates domain secure =
     concat (map (\<lambda>q. map (\<lambda>(prio, weight, p, host). (host, p, extract_protocol_from_query q, prio, weight)) (query_srv q))
       (srv_queries domain secure))"

definition rank :: "candidate \<Rightarrow> int \<times> int" where
  "rank = (\<lambda>(host, p, proto, prio, weight). (prio, - weight))"

definition resolve_srv_records :: "string \<Rightarrow> bool \<Rightarrow> target list" where
  "resolve_srv_records domain secure =
     map (\<lambda>(host, p, proto, _, _). (host, p, proto)) (sort_key rank (srv_candidates domain secure))"

text \<open>The fallback; an exception of the lookup is logged and gives no target.\<close>

definition resolve_fallback :: "string list res \<Rightarrow> bool \<Rightarrow> target list" where
  "resolve_fallback addrs secure =
     (case addrs of
        Inr (ip # _) \<Rightarrow> [(ip, if secure then 5061 else 5060, if secure then ''TLS'' else ''UDP'')]
      | _ \<Rightarrow> [])"

definition resolve_sip_target :: "(string \<Rightarrow> string list res) \<Rightarrow> string \<Rightarrow> target list res" where
  "resolve_sip_target getaddrinfo u =
     (case extract_domain u of
        None \<Rightarrow> Inl ValueError
      | Some domain \<Rightarrow>
          if domain = [] then Inl ValueError
          else
            let secure = starts_with (lower u) ''sips:'';
                srv = resolve_srv_records domain secure
            in Inr (if srv \<noteq> [] then srv else resolve_fallback (getaddrinfo domain) secure))"

section \<open>Facts\<close>

lemma no_marker: "CHR ''_'' \<notin> set d \<Longrightarrow> partition_at (CHR ''_'' # p) d = None"
  by (induction d) auto

lemma srv_tables:
  assumes "CHR ''_'' \<notin> set d"
  shows "srv_candidates d True = [(''sip1.example.com'', 5061, ''TLS'', 10, 60), (''sip2.example.com'', 5061, ''TLS'', 20, 40)]"
    and "srv_candidates d False =
      [(''sip1.example.com'', 5061, ''TLS'', 10, 60), (''sip2.example.com'', 5061, ''TLS'', 20, 40),
       (''sip1.example.com'', 5060, ''TCP'', 10, 60), (''sip2.example.com'', 5060, ''TCP'', 20, 40),
       (''sip1.example.com'', 5060, ''UDP'', 30, 60)]"
  using no_marker[OF assms]
  by (simp_all add: srv_candidates_def srv_queries_def query_srv_def extract_protocol_from_query_def contains_def)

text \<open>Whatever the answers of the queries are, the targets come in order of priority, then of falling weight, and
  candidates of the same rank stay in the order of the queries.\<close>

lemma srv_sorted: "sorted (map rank (sort_key rank (srv_candidates d secure)))"
  by simp

lemma srv_same_rank:
  "filter (\<lambda>c. rank c = r) (sort_key rank (srv_candidates d secure)) = filter (\<lambda>c. rank c = r) (srv_candidates d secure)"
  by (rule sort_key_stable)

definition scheme_text :: "bool \<Rightarrow> string" where
  "scheme_text secure = (if secure then ''sips:'' else ''sip:'')"

lemma scheme_secure: "starts_with (lower (scheme_text secure) @ lower s) ''sips:'' = secure"
  by (simp add: scheme_text_def lower_eval)

definition host_ok :: "string \<Rightarrow> bool" where
  "host_ok h = (h \<noteq> [] \<and> list_all (\<lambda>c. c \<notin> set '';:/?@_'') h)"

definition tail_ok :: "string \<Rightarrow> bool" where
  "tail_ok t = (t = [] \<or> hd t \<in> set '';:/?'')"

lemma domain_group:
  assumes "host_ok h" and "tail_ok t"
  shows "rx_begins (RGrp 1 (RRep1 (not_in '';:/?''))) (h @ t) [] (h, t, [(1, h)])"
proof -
  have "rx_begins (RRep1 (not_in '';:/?'')) (h @ t) [] (h, t, [])"
    using assms by (intro begins_rep1) (auto simp: host_ok_def tail_ok_def not_in_def list_all_iff)
  from begins_grp[OF this, of 1] show ?thesis by simp
qed

lemma at_sign_missing: "CHR ''@'' \<notin> set s \<Longrightarrow> rx_match (RSeq (RRep1 (\<lambda>c. c \<noteq> CHR ''@'')) (rx_lit ''@'')) s g = []"
  by (auto simp: rx_match_lit starts_with_iff) (metis in_set_dropD list.set_intros(1))+

lemma domain_rest:
  assumes "host_ok h" and "tail_ok t"
  shows "CHR ''@'' \<notin> set t \<Longrightarrow>
      rx_begins (rx_seq [ROpt (RSeq (RRep1 (\<lambda>c. c \<noteq> CHR ''@'')) (rx_lit ''@'')), RGrp 1 (RRep1 (not_in '';:/?''))])
        (h @ t) [] ([] @ h, t, [(1, h)])"
    and "usr \<noteq> [] \<Longrightarrow> CHR ''@'' \<notin> set usr \<Longrightarrow>
      rx_begins (rx_seq [ROpt (RSeq (RRep1 (\<lambda>c. c \<noteq> CHR ''@'')) (rx_lit ''@'')), RGrp 1 (RRep1 (not_in '';:/?''))])
        (usr @ ''@'' @ h @ t) [] ((usr @ ''@'') @ h, t, [(1, h)])"
proof -
  note g = domain_group[OF assms]
  show "rx_begins (rx_seq [ROpt (RSeq (RRep1 (\<lambda>c. c \<noteq> CHR ''@'')) (rx_lit ''@'')), RGrp 1 (RRep1 (not_in '';:/?''))])
        (h @ t) [] ([] @ h, t, [(1, h)])" if "CHR ''@'' \<notin> set t"
    unfolding rx_seq.simps using that assms(1)
    by (intro begins_seq[OF begins_opt_none[OF at_sign_missing] g]) (auto simp: host_ok_def list_all_iff)
  show "rx_begins (rx_seq [ROpt (RSeq (RRep1 (\<lambda>c. c \<noteq> CHR ''@'')) (rx_lit ''@'')), RGrp 1 (RRep1 (not_in '';:/?''))])
        (usr @ ''@'' @ h @ t) [] ((usr @ ''@'') @ h, t, [(1, h)])" if "usr \<noteq> []" "CHR ''@'' \<notin> set usr"
    unfolding rx_seq.simps using that
    by (intro begins_seq[OF begins_opt_some[OF begins_seq[OF begins_rep1 begins_lit]] g]) auto
qed

lemma scheme_group:
  assumes "rx_begins (rx_seq [r, q]) s [] m"
  shows "\<exists>v. rx_begins (RSeq (rx_lit_ci ''sip'') (rx_seq [ROpt (rx_lit_ci ''s''), rx_lit '':'', r, q])) (scheme_text secure @ s) []
    (v, snd m)"
proof (cases m)
  case (fields v r' g')
  have o: "rx_begins (ROpt (rx_lit_ci ''s'')) ((if secure then ''s'' else []) @ '':'' @ s) [] (if secure then ''s'' else [], '':'' @ s, [])"
  proof (cases secure)
    case True
    then show ?thesis using begins_opt_some[OF begins_lit_ci[of "''s''" "'':'' @ s" "[]"]] by simp
  next
    case False
    then show ?thesis using begins_opt_none[of "rx_lit_ci ''s''" "'':'' @ s" "[]"] by (simp add: rx_match_lit_ci lower_eval)
  qed
  have "rx_begins (rx_seq [rx_lit '':'', r, q]) ('':'' @ s) [] ('':'' @ v, r', g')"
    using begins_seq[OF begins_lit assms[unfolded fields]] by (simp only: rx_seq.simps)
  from begins_seq[OF begins_lit_ci[of "''sip''"] begins_seq[OF o this]]
  show ?thesis by (auto simp: fields scheme_text_def split: if_splits)
qed

lemma extract_domain_of:
  assumes "host_ok h" and "tail_ok t"
  shows "CHR ''@'' \<notin> set t \<Longrightarrow> extract_domain (scheme_text secure @ h @ t) = Some h"
    and "usr \<noteq> [] \<Longrightarrow> CHR ''@'' \<notin> set usr \<Longrightarrow> extract_domain (scheme_text secure @ usr @ ''@'' @ h @ t) = Some h"
proof -
  have hit: "extract_domain w = Some h" if "\<exists>v. rx_begins re_domain w [] (v, snd (x, t, [(1, h)]))" for w x
    using that begins_first by (auto simp: extract_domain_def group_of_def)
  show "extract_domain (scheme_text secure @ h @ t) = Some h" if "CHR ''@'' \<notin> set t"
    by (rule hit[OF scheme_group[OF domain_rest(1)[OF assms that], folded re_domain_def]])
  show "extract_domain (scheme_text secure @ usr @ ''@'' @ h @ t) = Some h" if "usr \<noteq> []" "CHR ''@'' \<notin> set usr"
    by (rule hit[OF scheme_group[OF domain_rest(2)[OF assms that], folded re_domain_def]])
qed

section \<open>Properties\<close>

text \<open>C40. For every SIP URI with a plain host, with or without user part, port and parameters, resolution gives the
  same fixed targets, whatever the host is and whatever an address lookup would answer: the SRV answers are
  built in, so the fallback is never reached. They are ordered by priority, and for a URI that is not
  secure the first one is the secure port.\<close>

theorem resolution_ignores_host:
  assumes "host_ok h" and "tail_ok t" and "u = h @ t \<and> CHR ''@'' \<notin> set t \<or> u = usr @ ''@'' @ h @ t \<and> usr \<noteq> [] \<and> CHR ''@'' \<notin> set usr"
  shows "resolve_sip_target getaddrinfo (scheme_text secure @ u) =
    Inr (if secure then [(''sip1.example.com'', 5061, ''TLS''), (''sip2.example.com'', 5061, ''TLS'')]
      else [(''sip1.example.com'', 5061, ''TLS''), (''sip1.example.com'', 5060, ''TCP''), (''sip2.example.com'', 5061, ''TLS''),
            (''sip2.example.com'', 5060, ''TCP''), (''sip1.example.com'', 5060, ''UDP'')])"
proof -
  have "extract_domain (scheme_text secure @ u) = Some h" using assms(3) extract_domain_of[OF assms(1,2)] by auto
  moreover have "CHR ''_'' \<notin> set h" "h \<noteq> []" using assms(1) by (auto simp: host_ok_def list_all_iff)
  ultimately show ?thesis
    by (cases secure)
      (simp_all add: resolve_sip_target_def Let_def scheme_secure resolve_srv_records_def srv_tables rank_def)
qed

theorem resolution_ignores_host_witness:
  "resolve_sip_target (\<lambda>_. Inr [''10.0.0.1'']) ''sips:bob@example.org:5061'' =
     Inr [(''sip1.example.com'', 5061, ''TLS''), (''sip2.example.com'', 5061, ''TLS'')]"
  using resolution_ignores_host[of "''example.org''" "'':5061''" "''bob@example.org:5061''" "''bob''" _ True]
  by (simp add: host_ok_def tail_ok_def scheme_text_def)

end
