(* ===== verification/Py_Struct.thy ===== *)
theory Py_Struct
  imports Py_Strings
begin

unbundle bit_operations_syntax

text \<open>
  What the media code uses of Python's \<open>struct\<close> module and of slices of \<open>bytes\<close>: unsigned big-endian
  fields (\<open>!B\<close>, \<open>!H\<close>, \<open>!I\<close>) and the signed little-endian sample \<open><h\<close>. Packing a number that does not
  fit its field raises \<open>struct.error\<close>.
\<close>

section \<open>Unsigned fields in network order\<close>

fun be_bytes :: "nat \<Rightarrow> int \<Rightarrow> byte list" where
  "be_bytes 0 v = []"
| "be_bytes (Suc n) v = be_bytes n (v div 256) @ [nat (v mod 256)]"

definition be_value :: "byte list \<Rightarrow> int" where
  "be_value bs = foldl (\<lambda>a b. a * 256 + int b) 0 bs"

definition pack_be :: "nat \<Rightarrow> int \<Rightarrow> byte list res" where
  "pack_be n v = (if 0 \<le> v \<and> v < 256 ^ n then Inr (be_bytes n v) else Inl StructError)"

definition is_byte :: "byte \<Rightarrow> bool" where
  "is_byte b = (b < 256)"

lemma length_be_bytes [simp]: "length (be_bytes n v) = n"
  by (induction n arbitrary: v) simp_all

lemma be_bytes_bytes: "list_all is_byte (be_bytes n v)"
  by (induction n arbitrary: v) (simp_all add: is_byte_def nat_less_iff)

lemma be_value_simps [simp]: "be_value [] = 0" "be_value (bs @ [b]) = be_value bs * 256 + int b"
  by (simp_all add: be_value_def)

lemma be_value_bytes: "be_value (be_bytes n v) = v mod 256 ^ n"
proof (induction n arbitrary: v)
  case (Suc n)
  have "v mod 256 ^ Suc n = 256 * ((v div 256) mod 256 ^ n) + v mod 256"
    by (simp only: power_Suc) (rule zmod_zmult2_eq, simp)
  with Suc show ?case by simp
qed simp

lemma be_bytes_value: "list_all is_byte bs \<Longrightarrow> be_bytes (length bs) (be_value bs) = bs"
  by (induction bs rule: rev_induct) (simp_all add: is_byte_def)

lemma be_value_range: "list_all is_byte bs \<Longrightarrow> 0 \<le> be_value bs \<and> be_value bs < 256 ^ length bs"
  by (induction bs rule: rev_induct) (auto simp: is_byte_def)

lemma pack_be_mask: "pack_be n (take_bit (8 * n) v) = Inr (be_bytes n (take_bit (8 * n) v))"
proof -
  have "(2 :: int) ^ (8 * n) = 256 ^ n" by (simp add: power_mult)
  then show ?thesis using take_bit_int_less_exp[of "8 * n" v] by (simp add: pack_be_def)
qed

section \<open>Signed samples, little endian\<close>

definition pack_h :: "int \<Rightarrow> byte list res" where
  "pack_h s =
     (if - 32768 \<le> s \<and> s \<le> 32767 then Inr [nat (s mod 256), nat (s mod 65536 div 256)] else Inl StructError)"

definition unpack_h :: "byte \<Rightarrow> byte \<Rightarrow> int" where
  "unpack_h lo hi = (let v = int lo + 256 * int hi in if v \<ge> 32768 then v - 65536 else v)"

lemma unpack_pack_h: "pack_h s = Inr [lo, hi] \<Longrightarrow> unpack_h lo hi = s"
proof -
  assume p: "pack_h s = Inr [lo, hi]"
  then have r: "- 32768 \<le> s" "s \<le> 32767" and b: "lo = nat (s mod 256)" "hi = nat (s mod 65536 div 256)"
    by (auto simp: pack_h_def split: if_splits)
  have "s mod 65536 mod 256 = s mod 256" by (rule mod_mod_cancel) simp
  then have v: "int lo + 256 * int hi = s mod 65536" using b mult_div_mod_eq[of 256 "s mod 65536"] by (simp add: pos_imp_zdiv_nonneg_iff)
  show ?thesis
  proof (cases "0 \<le> s")
    case True
    with r have "s mod 65536 = s" by simp
    with v r show ?thesis by (simp add: unpack_h_def)
  next
    case False
    with r have "s mod 65536 = s + 65536" using mod_add_self2[of s 65536] by (simp add: mod_pos_pos_trivial del: mod_add_self2)
    with v r False show ?thesis by (simp add: unpack_h_def)
  qed
qed

lemma pack_h_total: "- 32768 \<le> s \<Longrightarrow> s \<le> 32767 \<Longrightarrow> \<exists>lo hi. pack_h s = Inr [lo, hi] \<and> lo < 256 \<and> hi < 256"
  by (simp add: pack_h_def nat_less_iff)

lemma unpack_h_range: "is_byte lo \<Longrightarrow> is_byte hi \<Longrightarrow> - 32768 \<le> unpack_h lo hi \<and> unpack_h lo hi \<le> 32767"
  by (auto simp: unpack_h_def is_byte_def Let_def)

end
