(* ===== verification/Media_Rtp.thy ===== *)
theory Media_Rtp
  imports Py_Struct
begin

text \<open>
  RTP packets and sessions (\<open>media/rtp.py\<close>). Header fields are Python integers; packing masks them to
  their width. The socket of a session is open or not; what the kernel answers to a \<open>sendto\<close> is an
  argument.
\<close>

section \<open>Headers and packets\<close>

record RTPHeader =
  rtp_version :: int
  padding :: int
  extension :: int
  csrc_count :: int
  marker :: int
  payload_type :: int
  sequence_number :: int
  timestamp :: int
  ssrc :: int

definition new_rtp_header :: "int \<Rightarrow> int \<Rightarrow> int \<Rightarrow> int \<Rightarrow> int \<Rightarrow> RTPHeader" where
  "new_rtp_header mk pt sq ts src =
     \<lparr>rtp_version = 2, padding = 0, extension = 0, csrc_count = 0, marker = mk, payload_type = pt,
      sequence_number = sq, timestamp = ts, ssrc = src\<rparr>"

definition header_pack :: "RTPHeader \<Rightarrow> byte list res" where
  "header_pack h =
     (let b0 = push_bit 6 (rtp_version h AND 0x3) OR push_bit 5 (padding h AND 0x1)
             OR push_bit 4 (extension h AND 0x1) OR (csrc_count h AND 0xF);
          b1 = push_bit 7 (marker h AND 0x1) OR (payload_type h AND 0x7F)
      in bind_res (pack_be 1 b0) (\<lambda>p0. bind_res (pack_be 1 b1) (\<lambda>p1.
         bind_res (pack_be 2 (sequence_number h AND 0xFFFF)) (\<lambda>p2.
         bind_res (pack_be 4 (timestamp h AND 0xFFFFFFFF)) (\<lambda>p3.
         bind_res (pack_be 4 (ssrc h AND 0xFFFFFFFF)) (\<lambda>p4. Inr (p0 @ p1 @ p2 @ p3 @ p4)))))))"

definition field :: "nat \<Rightarrow> nat \<Rightarrow> byte list \<Rightarrow> int" where
  "field i n buf = be_value (take n (drop i buf))"

definition header_unpack :: "byte list \<Rightarrow> RTPHeader res" where
  "header_unpack buf =
     (if length buf < 12 then Inl ValueError
      else
        let b0 = field 0 1 buf; b1 = field 1 1 buf
        in Inr \<lparr>rtp_version = drop_bit 6 b0 AND 0x03, padding = drop_bit 5 b0 AND 0x01,
             extension = drop_bit 4 b0 AND 0x01, csrc_count = b0 AND 0x0F, marker = drop_bit 7 b1 AND 0x01,
             payload_type = b1 AND 0x7F, sequence_number = field 2 2 buf, timestamp = field 4 4 buf,
             ssrc = field 8 4 buf\<rparr>)"

record RTPPacket =
  rtp_header :: RTPHeader
  payload :: "byte list"

definition packet_to_bytes :: "RTPPacket \<Rightarrow> byte list res" where
  "packet_to_bytes p = bind_res (header_pack (rtp_header p)) (\<lambda>h. Inr (h @ payload p))"

definition packet_from_bytes :: "byte list \<Rightarrow> RTPPacket res" where
  "packet_from_bytes buf =
     bind_res (header_unpack buf) (\<lambda>h. Inr \<lparr>rtp_header = h, payload = drop (nat (12 + 4 * csrc_count h)) buf\<rparr>)"

section \<open>Sessions\<close>

record RTPSession =
  s_ssrc :: int
  s_payload_type :: int
  s_clock_rate :: int
  s_seq :: int
  s_ts :: int
  s_sock :: bool

definition new_rtp_session :: "int \<Rightarrow> int \<Rightarrow> int \<Rightarrow> RTPSession" where
  "new_rtp_session src pt rate =
     \<lparr>s_ssrc = src, s_payload_type = pt, s_clock_rate = rate, s_seq = 0, s_ts = 0, s_sock = False\<rparr>"

text \<open>\<open>bind\<close> with the answer of the operating system: the socket is assigned before it is bound.\<close>

definition rtp_bind :: "bool \<Rightarrow> RTPSession \<Rightarrow> RTPSession \<times> unit res" where
  "rtp_bind ok s = (s\<lparr>s_sock := True\<rparr>, if ok then Inr () else Inl OSError)"

text \<open>\<open>send\<close>: the new state, the datagram handed to the socket, and the result.\<close>

definition rtp_send :: "bool \<Rightarrow> byte list \<Rightarrow> int \<Rightarrow> int \<Rightarrow> RTPSession \<Rightarrow> RTPSession \<times> byte list option \<times> unit res" where
  "rtp_send ok pl mk ts_incr s =
     (if \<not> s_sock s then (s, None, Inl RuntimeError)
      else case packet_to_bytes \<lparr>rtp_header = new_rtp_header mk (s_payload_type s) (s_seq s) (s_ts s) (s_ssrc s), payload = pl\<rparr> of
        Inl e \<Rightarrow> (s, None, Inl e)
      | Inr pkt \<Rightarrow>
          if \<not> ok then (s, Some pkt, Inl OSError)
          else (s\<lparr>s_seq := (s_seq s + 1) AND 0xFFFF, s_ts := (s_ts s + ts_incr) AND 0xFFFFFFFF\<rparr>, Some pkt, Inr ()))"

definition rtp_recv :: "byte list res \<Rightarrow> RTPSession \<Rightarrow> RTPPacket res" where
  "rtp_recv datagram s = (if \<not> s_sock s then Inl RuntimeError else bind_res datagram packet_from_bytes)"

definition rtp_close :: "RTPSession \<Rightarrow> RTPSession" where
  "rtp_close s = s\<lparr>s_sock := False\<rparr>"

text \<open>A caller that sends frames (payload, marker, timestamp increment) one after the other.\<close>

fun rtp_send_all :: "(byte list \<times> int \<times> int) list \<Rightarrow> RTPSession \<Rightarrow> RTPSession \<times> byte list list" where
  "rtp_send_all [] s = (s, [])"
| "rtp_send_all ((pl, mk, inc) # fs) s =
     (case rtp_send True pl mk inc s of (s1, out, _) \<Rightarrow>
        case rtp_send_all fs s1 of (s2, outs) \<Rightarrow> (s2, (case out of Some p \<Rightarrow> p # outs | None \<Rightarrow> outs)))"

section \<open>Bits of the first two octets\<close>

lemma mask_bits:
  "x AND (0x1 :: int) = take_bit 1 x" "x AND (0x3 :: int) = take_bit 2 x" "x AND (0xF :: int) = take_bit 4 x"
  "x AND (0x7F :: int) = take_bit 7 x" "x AND (0xFFFF :: int) = take_bit 16 x" "x AND (0xFFFFFFFF :: int) = take_bit 32 x"
  by (simp_all add: take_bit_eq_mask mask_eq_exp_minus_1)

lemma or_disjoint:
  fixes a b :: int
  assumes "0 \<le> b" and "b < 2 ^ n"
  shows "push_bit n a OR b = a * 2 ^ n + b"
proof -
  have "push_bit n a AND b = 0"
  proof (rule bit_eqI)
    fix k
    have "bit b k \<longleftrightarrow> k < n \<and> bit b k" using assms bit_take_bit_iff[of n b k] by (simp add: take_bit_int_eq_self)
    then show "bit (push_bit n a AND b) k \<longleftrightarrow> bit (0 :: int) k" by (auto simp: bit_and_iff bit_push_bit_iff)
  qed
  then have "push_bit n a OR b = push_bit n a + b" by (rule disjunctive_add_eq_or[symmetric])
  then show ?thesis by (simp add: push_bit_eq_mult)
qed

text \<open>The first octet as a number, and its fields.\<close>

lemma octet0:
  fixes v p e c :: int
  assumes "0 \<le> v" "v < 4" "0 \<le> p" "p < 2" "0 \<le> e" "e < 2" "0 \<le> c" "c < 16"
  defines "b \<equiv> 64 * v + 32 * p + 16 * e + c"
  shows "push_bit 6 v OR push_bit 5 p OR push_bit 4 e OR c = b" "0 \<le> b" "b < 256"
    "b div 64 mod 4 = v" "b div 32 mod 2 = p" "b div 16 mod 2 = e" "b mod 16 = c"
proof -
  have 1: "push_bit 4 e OR c = e * 16 + c" using or_disjoint[of c 4 e] assms by simp
  have 2: "push_bit 5 p OR (e * 16 + c) = p * 32 + (e * 16 + c)" using or_disjoint[of "e * 16 + c" 5 p] assms by simp
  have 3: "push_bit 6 v OR (p * 32 + (e * 16 + c)) = v * 64 + (p * 32 + (e * 16 + c))"
    using or_disjoint[of "p * 32 + (e * 16 + c)" 6 v] assms by simp
  show "push_bit 6 v OR push_bit 5 p OR push_bit 4 e OR c = b"
    unfolding or.assoc 1 2 3 b_def by simp
  show "0 \<le> b" "b < 256" using assms by simp_all
  have "b div 64 = v" "b div 32 = 2 * v + p" "b div 16 = 4 * v + 2 * p + e"
    using assms int_div_pos_eq[of b 64 v "32 * p + 16 * e + c"] int_div_pos_eq[of b 32 "2 * v + p" "16 * e + c"]
      int_div_pos_eq[of b 16 "4 * v + 2 * p + e" c] by simp_all
  then show "b div 64 mod 4 = v" "b div 32 mod 2 = p" "b div 16 mod 2 = e" "b mod 16 = c"
    using assms int_mod_pos_eq[of b 16 "4 * v + 2 * p + e" c] int_mod_pos_eq[of "2 * v + p" 2 v p]
      int_mod_pos_eq[of "4 * v + 2 * p + e" 2 "2 * v + p" e] by simp_all
qed

lemma octet1:
  fixes m t :: int
  assumes "0 \<le> m" "m < 2" "0 \<le> t" "t < 128"
  defines "b \<equiv> 128 * m + t"
  shows "push_bit 7 m OR t = b" "0 \<le> b" "b < 256" "b div 128 mod 2 = m" "b mod 128 = t"
proof -
  show "push_bit 7 m OR t = b" using or_disjoint[of t 7 m] assms by simp
  show "0 \<le> b" "b < 256" "b div 128 mod 2 = m" "b mod 128 = t"
    using assms int_div_pos_eq[of b 128 m t] int_mod_pos_eq[of b 128 m t] by simp_all
qed

text \<open>A header as it is on the wire: every field reduced to its width.\<close>

definition masked :: "RTPHeader \<Rightarrow> RTPHeader" where
  "masked h =
     \<lparr>rtp_version = rtp_version h mod 4, padding = padding h mod 2, extension = extension h mod 2,
      csrc_count = csrc_count h mod 16, marker = marker h mod 2, payload_type = payload_type h mod 128,
      sequence_number = sequence_number h mod 2 ^ 16, timestamp = timestamp h mod 2 ^ 32, ssrc = ssrc h mod 2 ^ 32\<rparr>"

definition octets :: "RTPHeader \<Rightarrow> int \<times> int" where
  "octets h =
     (64 * (rtp_version h mod 4) + 32 * (padding h mod 2) + 16 * (extension h mod 2) + csrc_count h mod 16,
      128 * (marker h mod 2) + payload_type h mod 128)"

lemma octets_facts:
  "push_bit 6 (rtp_version h mod 4) OR push_bit 5 (padding h mod 2) OR push_bit 4 (extension h mod 2) OR (csrc_count h mod 16)
     = fst (octets h)"
  "push_bit 7 (marker h mod 2) OR (payload_type h mod 128) = snd (octets h)"
  "0 \<le> fst (octets h)" "fst (octets h) < 256" "0 \<le> snd (octets h)" "snd (octets h) < 256"
  "fst (octets h) div 64 mod 4 = rtp_version h mod 4" "fst (octets h) div 32 mod 2 = padding h mod 2"
  "fst (octets h) div 16 mod 2 = extension h mod 2" "fst (octets h) mod 16 = csrc_count h mod 16"
  "snd (octets h) div 128 mod 2 = marker h mod 2" "snd (octets h) mod 128 = payload_type h mod 128"
  unfolding octets_def fst_conv snd_conv
  by (rule octet0 octet1; simp)+

lemma header_pack_bytes:
  "header_pack h =
     Inr (be_bytes 1 (fst (octets h)) @ be_bytes 1 (snd (octets h)) @ be_bytes 2 (sequence_number h mod 2 ^ 16) @
          be_bytes 4 (timestamp h mod 2 ^ 32) @ be_bytes 4 (ssrc h mod 2 ^ 32))"
proof -
  have "pack_be 2 (sequence_number h mod 2 ^ 16) = Inr (be_bytes 2 (sequence_number h mod 2 ^ 16))"
    "pack_be 4 (timestamp h mod 2 ^ 32) = Inr (be_bytes 4 (timestamp h mod 2 ^ 32))"
    "pack_be 4 (ssrc h mod 2 ^ 32) = Inr (be_bytes 4 (ssrc h mod 2 ^ 32))"
    by (simp_all add: pack_be_def)
  moreover have "pack_be 1 (fst (octets h)) = Inr (be_bytes 1 (fst (octets h)))" "pack_be 1 (snd (octets h)) = Inr (be_bytes 1 (snd (octets h)))"
    by (simp_all add: pack_be_def octets_facts(3-6))
  moreover have "header_pack h = bind_res (pack_be 1 (fst (octets h))) (\<lambda>p0. bind_res (pack_be 1 (snd (octets h))) (\<lambda>p1.
       bind_res (pack_be 2 (sequence_number h mod 2 ^ 16)) (\<lambda>p2. bind_res (pack_be 4 (timestamp h mod 2 ^ 32)) (\<lambda>p3.
       bind_res (pack_be 4 (ssrc h mod 2 ^ 32)) (\<lambda>p4. Inr (p0 @ p1 @ p2 @ p3 @ p4))))))"
    unfolding header_pack_def Let_def mask_bits take_bit_eq_mod octets_facts(1,2)[symmetric] by simp
  ultimately show ?thesis by (simp only: bind_res_simps)
qed

lemma header_unpack_bytes:
  assumes "list_all is_byte buf" and "12 \<le> length buf"
  shows "header_unpack buf =
     Inr \<lparr>rtp_version = int (buf ! 0) div 64 mod 4, padding = int (buf ! 0) div 32 mod 2,
       extension = int (buf ! 0) div 16 mod 2, csrc_count = int (buf ! 0) mod 16, marker = int (buf ! 1) div 128 mod 2,
       payload_type = int (buf ! 1) mod 128, sequence_number = field 2 2 buf, timestamp = field 4 4 buf, ssrc = field 8 4 buf\<rparr>"
proof -
  have "take 1 (drop i buf) = [buf ! i]" if "i < 12" for i
    using that assms(2) by (simp add: take_Suc_conv_app_nth)
  from this[of 0] this[of 1] have "field 0 1 buf = int (buf ! 0)" "field 1 1 buf = int (buf ! 1)"
    by (simp_all add: field_def be_value_def)
  with assms(2) show ?thesis
    by (simp add: header_unpack_def Let_def mask_bits take_bit_eq_mod drop_bit_eq_div)
qed

lemma unpack_pack:
  assumes "header_pack h = Inr bs"
  shows "header_unpack (bs @ pl) = Inr (masked h)" and "length bs = 12" and "list_all is_byte bs"
proof -
  have bs: "bs = [nat (fst (octets h)), nat (snd (octets h))] @ be_bytes 2 (sequence_number h mod 2 ^ 16) @
          be_bytes 4 (timestamp h mod 2 ^ 32) @ be_bytes 4 (ssrc h mod 2 ^ 32)"
    using assms octets_facts(3-6)[of h] by (simp add: header_pack_bytes)
  then show len: "length bs = 12" by simp
  show "list_all is_byte bs" using octets_facts(3-6)[of h] be_bytes_bytes unfolding bs by (simp add: is_byte_def nat_less_iff)
  have f: "field 2 2 (bs @ pl) = sequence_number h mod 2 ^ 16" "field 4 4 (bs @ pl) = timestamp h mod 2 ^ 32"
      "field 8 4 (bs @ pl) = ssrc h mod 2 ^ 32" "field 0 1 (bs @ pl) = fst (octets h)" "field 1 1 (bs @ pl) = snd (octets h)"
    using octets_facts(3,5)[of h] by (simp_all add: bs field_def be_value_bytes) (simp_all add: be_value_def)
  show "header_unpack (bs @ pl) = Inr (masked h)"
    using len by (simp add: header_unpack_def Let_def f mask_bits take_bit_eq_mod drop_bit_eq_div masked_def octets_facts del: One_nat_def)
qed

lemma octet_split:
  fixes b :: int
  assumes "0 \<le> b" and "b < 256"
  shows "64 * (b div 64 mod 4) + 32 * (b div 32 mod 2) + 16 * (b div 16 mod 2) + b mod 16 = b"
    and "128 * (b div 128 mod 2) + b mod 128 = b"
proof -
  have d: "b div 32 = b div 16 div 2" "b div 64 = b div 32 div 2" using zdiv_zmult2_eq[of 2 b 16] zdiv_zmult2_eq[of 2 b 32] by simp_all
  have "b div 64 mod 4 = b div 64" using assms by (intro mod_pos_pos_trivial) (simp_all add: pos_imp_zdiv_nonneg_iff)
  then show "64 * (b div 64 mod 4) + 32 * (b div 32 mod 2) + 16 * (b div 16 mod 2) + b mod 16 = b"
    using mult_div_mod_eq[of 16 b] mult_div_mod_eq[of 2 "b div 16"] mult_div_mod_eq[of 2 "b div 32"] d by linarith
  have "b div 128 mod 2 = b div 128" using assms by (intro mod_pos_pos_trivial) (simp_all add: pos_imp_zdiv_nonneg_iff)
  then show "128 * (b div 128 mod 2) + b mod 128 = b" using mult_div_mod_eq[of 128 b] by linarith
qed

lemma list_all_nth: "list_all P xs \<Longrightarrow> i < length xs \<Longrightarrow> P (xs ! i)"
  by (simp add: list_all_length)

lemma pack_unpack:
  assumes "list_all is_byte buf" and "header_unpack buf = Inr h"
  shows "header_pack h = Inr (take 12 buf)"
proof -
  have len: "12 \<le> length buf" using assms(2) by (auto simp: header_unpack_def split: if_splits)
  have b: "list_all is_byte (take n (drop i buf))" for n i
    using assms(1) by (auto simp: list_all_iff dest!: in_set_takeD in_set_dropD)
  have f: "be_bytes n (field i n buf mod 2 ^ (8 * n)) = take n (drop i buf)" if "i + n \<le> 12" for i n
  proof -
    have "length (take n (drop i buf)) = n" using that len by simp
    with be_value_range[OF b, of n i] be_bytes_value[OF b, of n i] show ?thesis
      by (simp add: field_def power_mult)
  qed
  have "is_byte (buf ! 0)" "is_byte (buf ! 1)" using list_all_nth[OF assms(1), of 0] list_all_nth[OF assms(1), of 1] len by fastforce+
  then have c: "buf ! 0 < 256" "buf ! 1 < 256" by (simp_all add: is_byte_def)
  note h = Inr_inject[OF trans[OF assms(2)[symmetric] header_unpack_bytes[OF assms(1) len]]]
  have o: "octets h = (int (buf ! 0), int (buf ! 1))"
    unfolding octets_def h RTPHeader.select_convs mod_mod_trivial prod.inject
    using c by (intro conjI octet_split) simp_all
  have "take 12 buf = take 2 (drop 0 buf) @ take 2 (drop 2 buf) @ take 4 (drop 4 buf) @ take 4 (drop 8 buf)"
    using take_add[of 2 2 buf] take_add[of 4 4 buf] take_add[of 8 4 buf] by simp
  moreover have "take 2 buf = [buf ! 0, buf ! 1]" using len by (cases buf; cases "tl buf") auto
  ultimately show ?thesis
    using c f[of 2 2] f[of 4 4] f[of 8 4] unfolding header_pack_bytes o by (simp add: h)
qed

lemma to_bytes_parts:
  "packet_to_bytes p = Inr bs \<Longrightarrow> \<exists>h. header_pack (rtp_header p) = Inr h \<and> bs = h @ payload p"
  by (auto simp: packet_to_bytes_def)

lemma from_to_bytes:
  assumes "packet_to_bytes p = Inr bs"
  shows "packet_from_bytes bs =
    Inr \<lparr>rtp_header = masked (rtp_header p), payload = drop (nat (4 * (csrc_count (rtp_header p) mod 16))) (payload p)\<rparr>"
proof -
  obtain h where h: "header_pack (rtp_header p) = Inr h" "bs = h @ payload p" using to_bytes_parts[OF assms] by blast
  have "nat (12 + 4 * (csrc_count (rtp_header p) mod 16)) = 12 + nat (4 * (csrc_count (rtp_header p) mod 16))"
    by (simp add: nat_add_distrib)
  then show ?thesis using unpack_pack(1,2)[OF h(1)]
    by (simp add: packet_from_bytes_def h(2) masked_def)
qed

lemma to_bytes_total: "\<exists>bs. packet_to_bytes p = Inr bs"
  by (simp add: packet_to_bytes_def header_pack_bytes)

section \<open>Streams\<close>

text \<open>The packet a session sends for a frame, as the receiver sees it.\<close>

definition stream_packet :: "RTPSession \<Rightarrow> byte list \<times> int \<times> int \<Rightarrow> RTPPacket" where
  "stream_packet s f =
     \<lparr>rtp_header = \<lparr>rtp_version = 2, padding = 0, extension = 0, csrc_count = 0, marker = fst (snd f) mod 2,
        payload_type = s_payload_type s mod 128, sequence_number = s_seq s mod 2 ^ 16,
        timestamp = s_ts s mod 2 ^ 32, ssrc = s_ssrc s mod 2 ^ 32\<rparr>, payload = fst f\<rparr>"

definition advance :: "int \<Rightarrow> int \<Rightarrow> RTPSession \<Rightarrow> RTPSession" where
  "advance n t s = s\<lparr>s_seq := (s_seq s + n) mod 2 ^ 16, s_ts := (s_ts s + t) mod 2 ^ 32\<rparr>"

lemma rtp_send_open:
  assumes "s_sock s"
  shows "\<exists>pkt. rtp_send True pl mk inc s = (advance 1 inc s, Some pkt, Inr ()) \<and>
    packet_from_bytes pkt = Inr (stream_packet s (pl, mk, inc))"
proof -
  let ?p = "\<lparr>rtp_header = new_rtp_header mk (s_payload_type s) (s_seq s) (s_ts s) (s_ssrc s), payload = pl\<rparr>"
  obtain pkt where pkt: "packet_to_bytes ?p = Inr pkt" using to_bytes_total by blast
  from from_to_bytes[OF pkt] have "packet_from_bytes pkt = Inr (stream_packet s (pl, mk, inc))"
    by (simp add: stream_packet_def masked_def new_rtp_header_def)
  with assms pkt show ?thesis by (simp add: rtp_send_def advance_def mask_bits take_bit_eq_mod)
qed

lemma advance_sock [simp]: "s_sock (advance n t s) = s_sock s"
  by (simp add: advance_def)

lemma stream_advance:
  "stream_packet (advance a b (advance n t s)) f = stream_packet (advance (n + a) (t + b) s) f"
  by (simp add: stream_packet_def advance_def mod_simps algebra_simps)

lemma stream_advance_0: "stream_packet (advance 0 0 s) f = stream_packet s f"
  by (simp add: stream_packet_def advance_def)

lemma rtp_send_all_stream:
  "s_sock s \<Longrightarrow> rtp_send_all fs s = (s', outs) \<Longrightarrow>
   list_all2 (\<lambda>i pkt. packet_from_bytes pkt =
       Inr (stream_packet (advance (int i) (sum_list (map (snd \<circ> snd) (take i fs))) s) (fs ! i))) [0..<length fs] outs"
proof (induction fs arbitrary: s outs)
  case (Cons f fs)
  obtain pl mk inc where f: "f = (pl, mk, inc)" by (cases f)
  obtain pkt where p: "rtp_send True pl mk inc s = (advance 1 inc s, Some pkt, Inr ())"
    "packet_from_bytes pkt = Inr (stream_packet s f)" using rtp_send_open[OF Cons.prems(1)] f by blast
  obtain outs' where o: "rtp_send_all fs (advance 1 inc s) = (s', outs')" "outs = pkt # outs'"
    using Cons.prems(2) p(1) by (auto simp: f split: prod.splits)
  have "list_all2 (\<lambda>i pkt. packet_from_bytes pkt =
       Inr (stream_packet (advance (int (Suc i)) (sum_list (map (snd \<circ> snd) (take (Suc i) (f # fs)))) s) ((f # fs) ! Suc i)))
     [0..<length fs] outs'"
    using Cons.IH[OF _ o(1)] Cons.prems(1) by (simp add: stream_advance f comp_def)
  moreover have "[0..<length (f # fs)] = 0 # map Suc [0..<length fs]" by (simp add: map_Suc_upt upt_conv_Cons del: upt_Suc)
  ultimately show ?case using p(2) by (simp add: o(2) list_all2_map1 stream_advance_0 comp_def del: upt_Suc)
qed simp

section \<open>Properties\<close>

text \<open>C21. Every packet can be written, and read back it has the same header with every field reduced to its
  width on the wire. The payload is the one sent when the header announces no contributing sources; otherwise the
  reader skips four octets of it for each announced source, since the writer never writes their list.\<close>

theorem rtp_packet_roundtrip:
  "\<exists>bs. packet_to_bytes p = Inr bs \<and> length bs = 12 + length (payload p) \<and>
    packet_from_bytes bs =
      Inr \<lparr>rtp_header = masked (rtp_header p), payload = drop (nat (4 * (csrc_count (rtp_header p) mod 16))) (payload p)\<rparr>"
proof -
  obtain bs where bs: "packet_to_bytes p = Inr bs" using to_bytes_total by blast
  with from_to_bytes[OF bs] to_bytes_parts[OF bs] unpack_pack(2) show ?thesis by fastforce
qed

text \<open>Reading a header and writing it again gives the same twelve octets: no bit of the fixed header is lost.\<close>

theorem rtp_header_repack:
  "list_all is_byte buf \<Longrightarrow> header_unpack buf = Inr h \<Longrightarrow> header_pack h = Inr (take 12 buf)"
  by (rule pack_unpack)

definition example_octets :: "byte list" where
  "example_octets = [0x90, 0x88, 0x12, 0x34, 0, 0, 0, 160, 0xDE, 0xAD, 0xBE, 0xEF, 7]"

theorem rtp_header_repack_witness:
  "\<exists>h. header_unpack example_octets = Inr h \<and> header_pack h = Inr (take 12 example_octets)"
proof -
  have b: "list_all is_byte example_octets" by (simp add: example_octets_def is_byte_def)
  have "12 \<le> length example_octets" by (simp add: example_octets_def)
  from header_unpack_bytes[OF b this] show ?thesis using rtp_header_repack[OF b] by blast
qed

text \<open>C20. The packets of a session number the stream: of the frames sent one after the other over an open socket
  the receiver reads the \<open>i\<close>-th with its payload and marker, a sequence number \<open>i\<close> above the first, modulo two to the
  16, and a timestamp that is the sum of the earlier increments above the first, modulo two to the 32.\<close>

theorem rtp_stream_numbered:
  assumes "s_sock s" and "rtp_send_all fs s = (s', outs)"
  shows "length outs = length fs \<and>
    (\<forall>i < length fs. packet_from_bytes (outs ! i) =
       Inr \<lparr>rtp_header = \<lparr>rtp_version = 2, padding = 0, extension = 0, csrc_count = 0, marker = fst (snd (fs ! i)) mod 2,
              payload_type = s_payload_type s mod 128, sequence_number = (s_seq s + int i) mod 2 ^ 16,
              timestamp = (s_ts s + sum_list (map (snd \<circ> snd) (take i fs))) mod 2 ^ 32, ssrc = s_ssrc s mod 2 ^ 32\<rparr>,
            payload = fst (fs ! i)\<rparr>)"
  using rtp_send_all_stream[OF assms] by (auto simp: list_all2_conv_all_nth stream_packet_def advance_def)

definition example_rtp :: RTPSession where
  "example_rtp = fst (rtp_bind True (new_rtp_session 9 8 8000))"

theorem rtp_stream_numbered_witness:
  "length (snd (rtp_send_all [([1], 1, 160), ([2], 0, 160)] example_rtp)) = 2"
proof -
  have sock: "s_sock example_rtp" by (simp add: example_rtp_def rtp_bind_def)
  obtain s' outs where r: "rtp_send_all [([1], 1, 160), ([2], 0, 160)] example_rtp = (s', outs)" by (rule prod.exhaust)
  from rtp_stream_numbered[OF sock r] have "length outs = length [([1 :: nat], 1 :: int, 160 :: int), ([2], 0, 160)]" by (rule conjunct1)
  then show ?thesis unfolding r by simp
qed

text \<open>Sending before the session is bound raises and sends nothing; a refused datagram raises and leaves
  sequence number and timestamp unchanged, so the next attempt uses the same ones.\<close>

theorem rtp_send_fails:
  "\<not> s_sock s \<or> \<not> ok \<Longrightarrow>
   fst (rtp_send ok pl mk inc s) = s \<and> (\<exists>e. snd (snd (rtp_send ok pl mk inc s)) = Inl e) \<and>
   (\<not> s_sock s \<longrightarrow> fst (snd (rtp_send ok pl mk inc s)) = None)"
  by (auto simp: rtp_send_def split: sum.splits)

theorem rtp_send_fails_witness:
  "fst (rtp_send True [1] 0 160 (new_rtp_session 9 8 8000)) = new_rtp_session 9 8 8000"
  using rtp_send_fails[of "new_rtp_session 9 8 8000" True "[1]" 0 160] by (simp add: new_rtp_session_def)

end
