(* ===== verification/Media_Codecs.thy ===== *)
theory Media_Codecs
  imports Py_Struct
begin

text \<open>
  The G.711 codecs (\<open>media/codecs.py\<close>): mu-law and A-law companding of 16-bit samples on Python integers
  with their bit operations, and the conversions of buffers of samples.
\<close>

section \<open>Samples\<close>

definition clamp16 :: "int \<Rightarrow> int" where
  "clamp16 s = (let s1 = (if s > 32767 then 32767 else s) in if s1 < - 32768 then - 32768 else s1)"

text \<open>The loops \<open>for i in range(7): if sample <= limit: seg = i; break\<close>, with 7 when no segment fits.\<close>

fun first_segment :: "(nat \<Rightarrow> int) \<Rightarrow> nat list \<Rightarrow> int \<Rightarrow> nat" where
  "first_segment limit [] s = 7"
| "first_segment limit (i # is) s = (if s \<le> limit i then i else first_segment limit is s)"

definition ulaw_limit :: "nat \<Rightarrow> int" where
  "ulaw_limit i = push_bit (i + 3) 0x1F"

definition linear2ulaw :: "int \<Rightarrow> int" where
  "linear2ulaw sample =
     (let s0 = clamp16 sample;
          sign = (if s0 \<ge> 0 then 0 else 0x80);
          s1 = (if sign \<noteq> 0 then - s0 else s0);
          s2 = (if s1 > 32635 then 32635 else s1);
          s3 = s2 + 0x84;
          seg = first_segment ulaw_limit [0..<7] s3;
          mant = drop_bit (seg + 3) s3 AND 0x0F
      in NOT (sign OR push_bit 4 (int seg) OR mant) AND 0xFF)"

definition ulaw2linear :: "int \<Rightarrow> int" where
  "ulaw2linear u_val =
     (let u = NOT u_val AND 0xFF;
          sign = u AND 0x80;
          seg = drop_bit 4 u AND 0x07;
          mant = u AND 0x0F;
          sample = push_bit (nat (seg + 3)) (mant OR 0x10) - 0x84
      in if sign \<noteq> 0 then - sample else sample)"

definition alaw_limit :: "nat \<Rightarrow> int" where
  "alaw_limit i = push_bit i 0x20 * 16 - 1"

definition linear2alaw :: "int \<Rightarrow> int" where
  "linear2alaw sample =
     (let s0 = clamp16 sample;
          sign = (if s0 < 0 then 0x80 else 0x00);
          s1 = (if s0 < 0 then - s0 else s0);
          s2 = (if s1 > 32635 then 32635 else s1);
          alaw = (if s2 \<ge> 2048
            then (let seg = first_segment alaw_limit [0..<7] s2
                  in push_bit 4 (int seg) OR (drop_bit (seg + 3) s2 AND 0x0F))
            else drop_bit 4 s2 AND 0x0F)
      in (alaw XOR (sign XOR 0x55)) AND 0xFF)"

definition alaw2linear :: "int \<Rightarrow> int" where
  "alaw2linear a_val =
     (let a = a_val XOR 0x55;
          sign = a AND 0x80;
          seg = drop_bit 4 (a AND 0x70);
          mant = a AND 0x0F;
          sample =
            (if seg = 0 then push_bit 4 mant + 8
             else if seg = 1 then push_bit 5 mant + 0x108
             else push_bit (nat (seg + 3)) mant + push_bit (nat (seg - 1)) 0x108)
      in if sign \<noteq> 0 then - sample else sample)"

section \<open>Buffers\<close>

text \<open>\<open>bytearray.append\<close> takes only bytes; \<open>struct.unpack_from\<close> raises on a buffer that ends too early.\<close>

fun encode_samples :: "(int \<Rightarrow> int) \<Rightarrow> byte list \<Rightarrow> byte list res" where
  "encode_samples f [] = Inr []"
| "encode_samples f [b] = Inl StructError"
| "encode_samples f (lo # hi # buf) =
     (let v = f (unpack_h lo hi) in
      if 0 \<le> v \<and> v < 256 then map_res (Cons (nat v)) (encode_samples f buf) else Inl ValueError)"

fun decode_samples :: "(int \<Rightarrow> int) \<Rightarrow> byte list \<Rightarrow> byte list res" where
  "decode_samples f [] = Inr []"
| "decode_samples f (b # buf) = bind_res (pack_h (f (int b))) (\<lambda>s. map_res ((@) s) (decode_samples f buf))"

definition pcm16_to_pcmu :: "byte list \<Rightarrow> byte list res" where
  "pcm16_to_pcmu buf = encode_samples linear2ulaw buf"

definition pcmu_to_pcm16 :: "byte list \<Rightarrow> byte list res" where
  "pcmu_to_pcm16 buf = decode_samples ulaw2linear buf"

definition pcm16_to_pcma :: "byte list \<Rightarrow> byte list res" where
  "pcm16_to_pcma buf = encode_samples linear2alaw buf"

definition pcma_to_pcm16 :: "byte list \<Rightarrow> byte list res" where
  "pcma_to_pcm16 buf = decode_samples alaw2linear buf"

section \<open>Ranges\<close>

lemma low_byte: "0 \<le> x AND (0xFF :: int)" "x AND (0xFF :: int) < 256"
  using take_bit_int_less_exp[of 8 x] by (simp_all add: take_bit_eq_mask mask_eq_exp_minus_1)

lemma encoders_in_range:
  "0 \<le> linear2ulaw s" "linear2ulaw s < 256" "0 \<le> linear2alaw s" "linear2alaw s < 256"
  unfolding linear2ulaw_def linear2alaw_def Let_def by (rule low_byte)+

lemma decoders_table:
  "list_all (\<lambda>u. - 32768 \<le> ulaw2linear u \<and> ulaw2linear u \<le> 32767 \<and> - 32768 \<le> alaw2linear u \<and> alaw2linear u \<le> 32767) [0..255]"
  by code_simp

lemma decoders_in_range:
  assumes "is_byte b"
  shows "- 32768 \<le> ulaw2linear (int b)" "ulaw2linear (int b) \<le> 32767" "- 32768 \<le> alaw2linear (int b)" "alaw2linear (int b) \<le> 32767"
proof -
  have "int b \<in> set [0..255]" using assms by (simp add: is_byte_def)
  with decoders_table show "- 32768 \<le> ulaw2linear (int b)" "ulaw2linear (int b) \<le> 32767" "- 32768 \<le> alaw2linear (int b)" "alaw2linear (int b) \<le> 32767"
    unfolding list_all_iff by blast+
qed

lemma encode_samples_even:
  assumes "\<And>s. 0 \<le> f s \<and> f s < 256" and "even (length buf)"
  shows "\<exists>out. encode_samples f buf = Inr out \<and> 2 * length out = length buf \<and> list_all is_byte out"
  using assms(2)
proof (induction buf rule: induct_list012)
  case (3 lo hi buf)
  then show ?case using assms(1)[of "unpack_h lo hi"] by (auto simp: Let_def is_byte_def nat_less_iff)
qed simp_all

lemma encode_samples_odd:
  assumes "\<And>s. 0 \<le> f s \<and> f s < 256" and "odd (length buf)"
  shows "encode_samples f buf = Inl StructError"
  using assms(2)
proof (induction buf rule: induct_list012)
  case (3 lo hi buf)
  then show ?case using assms(1)[of "unpack_h lo hi"] by (simp add: Let_def)
qed simp_all

lemma decode_samples_total:
  assumes "\<And>b. is_byte b \<Longrightarrow> - 32768 \<le> f (int b) \<and> f (int b) \<le> 32767"
  shows "list_all is_byte buf \<Longrightarrow> \<exists>out. decode_samples f buf = Inr out \<and> length out = 2 * length buf \<and> list_all is_byte out"
proof (induction buf)
  case (Cons b buf)
  then obtain out where "decode_samples f buf = Inr out" "length out = 2 * length buf" "list_all is_byte out" by auto
  moreover obtain lo hi where "pack_h (f (int b)) = Inr [lo, hi]" "lo < 256" "hi < 256"
    using pack_h_total assms[of b] Cons.prems by (metis list.pred_inject(2))
  ultimately show ?case by (simp add: is_byte_def[abs_def])
qed simp

section \<open>Quantisation\<close>

text \<open>A byte put together from sign, segment and mantissa is decoded from them; checked on all of them.\<close>

definition signs :: "int list" where
  "signs = [0, 0x80]"

lemma ulaw_parts_table:
  "list_all (\<lambda>sign. list_all (\<lambda>seg. list_all (\<lambda>mant.
      ulaw2linear (NOT (sign OR push_bit 4 (int seg) OR mant) AND 0xFF) =
        (if sign = 0 then 1 else - 1) * ((16 + mant) * 2 ^ (seg + 3) - 132)) [0..15]) [0..<8]) signs"
  by code_simp

lemma ulaw_parts:
  "sign \<in> set signs \<Longrightarrow> seg < 8 \<Longrightarrow> 0 \<le> mant \<Longrightarrow> mant < 16 \<Longrightarrow>
   ulaw2linear (NOT (sign OR push_bit 4 (int seg) OR mant) AND 0xFF) =
     (if sign = 0 then 1 else - 1) * ((16 + mant) * 2 ^ (seg + 3) - 132)"
  using ulaw_parts_table unfolding list_all_iff by simp

lemma alaw_parts_table:
  "list_all (\<lambda>sign. list_all (\<lambda>seg. list_all (\<lambda>mant.
      alaw2linear (((push_bit 4 (int seg) OR mant) XOR (sign XOR 0x55)) AND 0xFF) =
        (if sign = 0 then 1 else - 1) *
          (if seg = 0 then 16 * mant + 8 else if seg = 1 then 32 * mant + 264 else (16 * mant + 264) * 2 ^ (seg - 1))) [0..15]) [0..<8]) signs"
  by code_simp

lemma alaw_parts:
  "sign \<in> set signs \<Longrightarrow> seg < 8 \<Longrightarrow> 0 \<le> mant \<Longrightarrow> mant < 16 \<Longrightarrow>
   alaw2linear (((push_bit 4 (int seg) OR mant) XOR (sign XOR 0x55)) AND 0xFF) =
     (if sign = 0 then 1 else - 1) *
       (if seg = 0 then 16 * mant + 8 else if seg = 1 then 32 * mant + 264 else (16 * mant + 264) * 2 ^ (seg - 1))"
  using alaw_parts_table unfolding list_all_iff by simp

lemma low_nibble: "x AND (0xF :: int) = x mod 16"
  by (simp add: take_bit_eq_mod[of 4, simplified, symmetric] take_bit_eq_mask mask_eq_exp_minus_1)

lemma segments:
  "first_segment ulaw_limit [0..<7] t =
     (if t \<le> 248 then 0 else if t \<le> 496 then 1 else if t \<le> 992 then 2 else if t \<le> 1984 then 3
      else if t \<le> 3968 then 4 else if t \<le> 7936 then 5 else if t \<le> 15872 then 6 else 7)"
  "first_segment alaw_limit [0..<7] t =
     (if t \<le> 511 then 0 else if t \<le> 1023 then 1 else if t \<le> 2047 then 2 else if t \<le> 4095 then 3
      else if t \<le> 8191 then 4 else if t \<le> 16383 then 5 else if t \<le> 32767 then 6 else 7)"
  by (simp_all add: upt_rec ulaw_limit_def alaw_limit_def)

text \<open>The magnitude a sample comes back with.\<close>

definition ulaw_level :: "int \<Rightarrow> int" where
  "ulaw_level t = (let k = first_segment ulaw_limit [0..<7] t + 3 in (16 + t div 2 ^ k mod 16) * 2 ^ k - 132)"

lemma ulaw_roundtrip_level:
  assumes "\<bar>s\<bar> \<le> 32635"
  shows "ulaw2linear (linear2ulaw s) = (if s < 0 then - 1 else 1) * ulaw_level (\<bar>s\<bar> + 132)"
proof -
  let ?t = "\<bar>s\<bar> + 132" and ?sign = "if s < 0 then 0x80 else 0 :: int"
  let ?seg = "first_segment ulaw_limit [0..<7] ?t"
  let ?mant = "drop_bit (?seg + 3) ?t AND 0x0F"
  have "linear2ulaw s = NOT (?sign OR push_bit 4 (int ?seg) OR ?mant) AND 0xFF"
    using assms by (auto simp: linear2ulaw_def clamp16_def Let_def abs_if)
  moreover have "?seg < 8" by (simp add: segments)
  moreover have m: "?mant = ?t div 2 ^ (?seg + 3) mod 16" by (simp only: low_nibble drop_bit_eq_div)
  moreover have "?sign \<in> set signs" by (simp add: signs_def)
  ultimately have "ulaw2linear (linear2ulaw s) = (if ?sign = 0 then 1 else - 1) * ((16 + ?mant) * 2 ^ (?seg + 3) - 132)"
    by (simp only:) (rule ulaw_parts, simp_all only: m pos_mod_sign pos_mod_bound zero_less_numeral)
  then show ?thesis unfolding m ulaw_level_def Let_def by (cases "s < 0") simp_all
qed

definition ulaw_gap :: "nat \<Rightarrow> int \<Rightarrow> bool" where
  "ulaw_gap i t = (31 * 2 ^ (i + 3) < t \<and> t < 32 * 2 ^ (i + 3))"

lemma level_below:
  fixes t :: int
  assumes "16 * 2 ^ k \<le> t" and "t < 32 * 2 ^ k"
  shows "(16 + t div 2 ^ k mod 16) * 2 ^ k = t - t mod 2 ^ k" and "16 * (t mod 2 ^ k) < t"
proof -
  have p: "(0 :: int) < 2 ^ k" by simp
  have "2 ^ k * (t div 2 ^ k) < 2 ^ k * 32"
    using mult_div_mod_eq[of "2 ^ k" t] pos_mod_sign[OF p, of t] assms(2) by linarith
  then have "16 \<le> t div 2 ^ k" "t div 2 ^ k < 32" using zdiv_mono1[OF assms(1) p] by simp_all
  then have "t div 2 ^ k mod 16 = t div 2 ^ k - 16" by (intro int_mod_pos_eq[where q = 1]) simp_all
  then show "(16 + t div 2 ^ k mod 16) * 2 ^ k = t - t mod 2 ^ k"
    by (simp add: minus_mod_eq_div_mult)
  show "16 * (t mod 2 ^ k) < t" using pos_mod_bound[OF p, of t] assms(1) by linarith
qed

lemma ulaw_level_fine:
  assumes "132 \<le> t" and "t \<le> 32767" and "\<forall>i < 7. \<not> ulaw_gap i t"
  shows "ulaw_level t \<le> t - 132 \<and> 16 * (t - 132 - ulaw_level t) < t"
proof -
  define k where "k = first_segment ulaw_limit [0..<7] t + 3"
  have "\<not> ulaw_gap i t" if "i < 7" for i using that assms(3) by blast
  from this[of 0] this[of 1] this[of 2] this[of 3] this[of 4] this[of 5] this[of 6]
  have "t \<le> 248 \<or> 256 \<le> t" "t \<le> 496 \<or> 512 \<le> t" "t \<le> 992 \<or> 1024 \<le> t" "t \<le> 1984 \<or> 2048 \<le> t"
    "t \<le> 3968 \<or> 4096 \<le> t" "t \<le> 7936 \<or> 8192 \<le> t" "t \<le> 15872 \<or> 16384 \<le> t"
    by (simp_all add: ulaw_gap_def not_less)
  with assms(1,2) have "16 * 2 ^ k \<le> t \<and> t < 32 * 2 ^ k"
    unfolding k_def segments by (simp split: if_split) presburger
  then show ?thesis using level_below[of k t] by (simp add: ulaw_level_def k_def[symmetric] Let_def)
qed

lemma ulaw_level_gap:
  assumes "i < 7" and "ulaw_gap i t"
  shows "ulaw_level t = 62 * 2 ^ (i + 3) - 132"
proof -
  have i: "i \<in> {0, 1, 2, 3, 4, 5, 6}" using assms(1) by auto
  have s: "first_segment ulaw_limit [0..<7] t = i + 1"
    using i assms(2) by (auto simp: segments ulaw_gap_def)
  have "t div 2 ^ (i + 4) = 15"
    using assms(2) by (intro int_div_pos_eq[where r = "t - 15 * 2 ^ (i + 4)"]) (simp_all add: ulaw_gap_def power_add)
  then show ?thesis by (simp add: ulaw_level_def s power_add ac_simps)
qed

definition alaw_level :: "int \<Rightarrow> int" where
  "alaw_level t =
     (let k = first_segment alaw_limit [0..<7] t in
      if t < 2048 then 16 * (t div 16 mod 16) + 8 else (16 * (t div 2 ^ (k + 3) mod 16) + 264) * 2 ^ (k - 1))"

lemma alaw_roundtrip_level:
  assumes "\<bar>s\<bar> \<le> 32635"
  shows "alaw2linear (linear2alaw s) = (if s < 0 then - 1 else 1) * alaw_level \<bar>s\<bar>"
proof -
  let ?t = "\<bar>s\<bar>" and ?sign = "if s < 0 then 0x80 else 0 :: int"
  let ?seg = "if ?t < 2048 then 0 else first_segment alaw_limit [0..<7] ?t"
  let ?mant = "if ?t < 2048 then drop_bit 4 ?t AND 0x0F else drop_bit (?seg + 3) ?t AND 0x0F"
  have "linear2alaw s = ((push_bit 4 (int ?seg) OR ?mant) XOR (?sign XOR 0x55)) AND 0xFF"
    using assms by (auto simp: linear2alaw_def clamp16_def Let_def abs_if)
  moreover have "?seg < 8" "?t \<ge> 2048 \<Longrightarrow> ?seg > 1" by (simp_all add: segments)
  moreover have m: "?mant = (if ?t < 2048 then ?t div 16 else ?t div 2 ^ (?seg + 3)) mod 16"
    by (simp only: low_nibble drop_bit_eq_div) simp
  moreover have "?sign \<in> set signs" by (simp add: signs_def)
  ultimately have "alaw2linear (linear2alaw s) = (if ?sign = 0 then 1 else - 1) *
      (if ?seg = 0 then 16 * ?mant + 8 else if ?seg = 1 then 32 * ?mant + 264 else (16 * ?mant + 264) * 2 ^ (?seg - 1))"
    by (simp only:) (rule alaw_parts, simp_all only: m pos_mod_sign pos_mod_bound zero_less_numeral)
  moreover have "\<not> ?t < 2048 \<Longrightarrow> first_segment alaw_limit [0..<7] ?t > 1" by (simp add: segments)
  ultimately show ?thesis unfolding m alaw_level_def Let_def by (cases "s < 0"; cases "?t < 2048") simp_all
qed

lemma alaw_level_small: "0 \<le> t \<Longrightarrow> t < 2048 \<Longrightarrow> alaw_level t = t mod 256 - t mod 16 + 8"
proof -
  assume t: "0 \<le> t" "t < 2048"
  have "t mod 256 = 16 * (t div 16 mod 16) + t mod 16" using zmod_zmult2_eq[of 16 t 16] by simp
  with t show ?thesis by (simp add: alaw_level_def Let_def)
qed

lemma alaw_level_large:
  assumes "2048 \<le> t" and "t \<le> 32767"
  shows "alaw_level t + 8 \<le> t"
proof -
  define k where "k = first_segment alaw_limit [0..<7] t"
  have k: "512 * 2 ^ (k - 1) \<le> t \<and> 1 < k" using assms unfolding k_def segments by (simp split: if_split)
  have "t div 2 ^ (k + 3) mod 16 \<le> 15" using pos_mod_bound[of 16 "t div 2 ^ (k + 3)"] by linarith
  then have "(16 * (t div 2 ^ (k + 3) mod 16) + 264) * 2 ^ (k - 1) \<le> 504 * 2 ^ (k - 1)" by (intro mult_right_mono) simp_all
  moreover have "(1 :: int) \<le> 2 ^ (k - 1)" by simp
  moreover have "alaw_level t = (16 * (t div 2 ^ (k + 3) mod 16) + 264) * 2 ^ (k - 1)"
    using assms(1) unfolding alaw_level_def k_def[symmetric] Let_def by (simp only: not_less[symmetric] if_False)
  ultimately show ?thesis using k by linarith
qed

section \<open>Properties\<close>

text \<open>C23. The types of the conversions: every encoder gives a byte for every integer and every decoder a 16-bit
  sample for every byte, so no conversion of a buffer raises except for one that ends in half a sample, and the
  results have one byte per sample and two bytes per code.\<close>

theorem g711_types:
  "(\<forall>buf. if even (length buf)
      then \<exists>u a. pcm16_to_pcmu buf = Inr u \<and> pcm16_to_pcma buf = Inr a \<and> list_all is_byte u \<and> list_all is_byte a \<and>
        2 * length u = length buf \<and> 2 * length a = length buf
      else pcm16_to_pcmu buf = Inl StructError \<and> pcm16_to_pcma buf = Inl StructError) \<and>
   (\<forall>buf. list_all is_byte buf \<longrightarrow>
      (\<exists>u a. pcmu_to_pcm16 buf = Inr u \<and> pcma_to_pcm16 buf = Inr a \<and> list_all is_byte u \<and> list_all is_byte a \<and>
        length u = 2 * length buf \<and> length a = 2 * length buf))"
proof -
  have e: "0 \<le> linear2ulaw s \<and> linear2ulaw s < 256" "0 \<le> linear2alaw s \<and> linear2alaw s < 256" for s
    by (simp_all add: encoders_in_range)
  have d: "is_byte b \<Longrightarrow> - 32768 \<le> ulaw2linear (int b) \<and> ulaw2linear (int b) \<le> 32767"
    "is_byte b \<Longrightarrow> - 32768 \<le> alaw2linear (int b) \<and> alaw2linear (int b) \<le> 32767" for b
    by (simp_all add: decoders_in_range)
  show ?thesis
    unfolding pcm16_to_pcmu_def pcm16_to_pcma_def pcmu_to_pcm16_def pcma_to_pcm16_def
    using encode_samples_even[of linear2ulaw, OF e(1)] encode_samples_even[of linear2alaw, OF e(2)]
      encode_samples_odd[of linear2ulaw, OF e(1)] encode_samples_odd[of linear2alaw, OF e(2)]
      decode_samples_total[of ulaw2linear, OF d(1)] decode_samples_total[of alaw2linear, OF d(2)]
    by (simp split: if_split) blast
qed

theorem g711_types_witness:
  "pcm16_to_pcmu [1] = Inl StructError \<and> (\<exists>u. pcmu_to_pcm16 [0, 255] = Inr u \<and> length u = 4)"
proof -
  have "list_all is_byte [0, 255]" by (simp add: is_byte_def)
  moreover note conjunct2[OF g711_types, rule_format, of "[0, 255]"]
  ultimately have "\<exists>u. pcmu_to_pcm16 [0, 255] = Inr u \<and> length u = 4" by auto
  with conjunct1[OF g711_types, rule_format, of "[1]"] show ?thesis by simp
qed



text \<open>Mu-law codes are stable: decoding and encoding gives the same code for every byte but the two codes of
  magnitude zero, which decode to four with the wrong sign.\<close>

theorem ulaw_recode:
  "\<forall>u \<in> {0..255}. if u = 0x7F \<or> u = 0xFF then ulaw2linear u = (if u = 0xFF then - 4 else 4)
     else linear2ulaw (ulaw2linear u) = u"
proof -
  have "list_all (\<lambda>u. if u = 0x7F \<or> u = 0xFF then ulaw2linear u = (if u = 0xFF then - 4 else 4)
     else linear2ulaw (ulaw2linear u) = u) [0..255]" by code_simp
  then show ?thesis unfolding list_all_iff by simp
qed

theorem ulaw_recode_witness: "linear2ulaw (ulaw2linear 0) = 0 \<and> ulaw2linear 255 = - 4"
  using ulaw_recode[rule_format, of 0] ulaw_recode[rule_format, of 255] by simp

text \<open>A-law loses the magnitude of every sample of 256 and above: below 2048 only the magnitude modulo 256
  survives, up to eight, and above, the decoded magnitude is always too small. Smaller samples come back within
  eight.\<close>

theorem alaw_loses_magnitude:
  assumes "\<bar>s\<bar> \<le> 32635"
  shows "\<exists>y. alaw2linear (linear2alaw s) = (if s < 0 then - y else y) \<and>
    (\<bar>s\<bar> < 2048 \<longrightarrow> y = \<bar>s\<bar> mod 256 - \<bar>s\<bar> mod 16 + 8) \<and> (\<bar>s\<bar> < 256 \<longrightarrow> \<bar>y - \<bar>s\<bar>\<bar> \<le> 8) \<and>
    (2048 \<le> \<bar>s\<bar> \<longrightarrow> y + 8 \<le> \<bar>s\<bar>)"
proof (intro exI conjI impI)
  show "alaw2linear (linear2alaw s) = (if s < 0 then - alaw_level \<bar>s\<bar> else alaw_level \<bar>s\<bar>)"
    by (simp add: alaw_roundtrip_level[OF assms])
  show "alaw_level \<bar>s\<bar> = \<bar>s\<bar> mod 256 - \<bar>s\<bar> mod 16 + 8" if "\<bar>s\<bar> < 2048" using that by (simp add: alaw_level_small)
  show "\<bar>alaw_level \<bar>s\<bar> - \<bar>s\<bar>\<bar> \<le> 8" if "\<bar>s\<bar> < 256"
    using that pos_mod_bound[of 16 "\<bar>s\<bar>"] pos_mod_sign[of 16 "\<bar>s\<bar>"] by (simp add: alaw_level_small)
  show "alaw_level \<bar>s\<bar> + 8 \<le> \<bar>s\<bar>" if "2048 \<le> \<bar>s\<bar>" using that assms by (intro alaw_level_large) simp_all
qed

theorem alaw_loses_magnitude_witness: "alaw2linear (linear2alaw (- 1024)) = - 8"
  using alaw_loses_magnitude[of "- 1024"] by auto

end
