(* ===== verification/Media_Dtmf.thy ===== *)
theory Media_Dtmf
  imports Py_Struct Complex_Main
begin

text \<open>
  Tones of telephone keys (\<open>media/dtmf.py\<close>): the frequency table, the samples of a tone with its linear ramps, and the
  sequence of tones and pauses. Floating-point numbers are rationals without rounding; the oscillator
  \<open>0.5 * (sin(2 pi f1 t) + sin(2 pi f2 t))\<close> of the mathematics library is an argument of the frequencies, the sample
  number and the sampling rate.
\<close>

section \<open>Tones\<close>

definition dtmf_freqs :: "(string, int \<times> int) dict" where
  "dtmf_freqs =
     [(''1'', (697, 1209)), (''2'', (697, 1336)), (''3'', (697, 1477)), (''A'', (697, 1633)),
      (''4'', (770, 1209)), (''5'', (770, 1336)), (''6'', (770, 1477)), (''B'', (770, 1633)),
      (''7'', (852, 1209)), (''8'', (852, 1336)), (''9'', (852, 1477)), (''C'', (852, 1633)),
      (''*'', (941, 1209)), (''0'', (941, 1336)), (''#'', (941, 1477)), (''D'', (941, 1633))]"

text \<open>\<open>int(x)\<close> of a float.\<close>

definition trunc :: "rat \<Rightarrow> int" where
  "trunc x = (if 0 \<le> x then \<lfloor>x\<rfloor> else \<lceil>x\<rceil>)"

definition sample_count :: "int \<Rightarrow> int \<Rightarrow> int" where
  "sample_count fs ms = trunc (rat_of_int (fs * ms) / 1000)"

definition ramp_gain :: "int \<Rightarrow> int \<Rightarrow> int \<Rightarrow> rat" where
  "ramp_gain n_all ramp n =
     (if n < ramp then rat_of_int n / rat_of_int ramp
      else if n > n_all - ramp then rat_of_int (n_all - n) / rat_of_int ramp
      else 1)"

type_synonym oscillator = "int \<Rightarrow> int \<Rightarrow> int \<Rightarrow> int \<Rightarrow> rat"

definition tone_sample :: "oscillator \<Rightarrow> int \<times> int \<Rightarrow> int \<Rightarrow> int \<Rightarrow> int \<Rightarrow> int \<Rightarrow> int \<Rightarrow> int" where
  "tone_sample osc freqs fs amplitude n_all ramp n =
     (let s = ramp_gain n_all ramp n * osc (fst freqs) (snd freqs) n fs
      in trunc (max (- 1) (min 1 s) * rat_of_int amplitude))"

definition generate_dtmf_tone :: "oscillator \<Rightarrow> string \<Rightarrow> int \<Rightarrow> int \<Rightarrow> int \<Rightarrow> int \<Rightarrow> byte list res" where
  "generate_dtmf_tone osc digit duration_ms fs amplitude ramp_ms =
     (case dict_get dtmf_freqs (upper digit) of
        None \<Rightarrow> Inl ValueError
      | Some freqs \<Rightarrow>
          let n_all = sample_count fs duration_ms;
              ramp = max 1 (sample_count fs ramp_ms)
          in map_res concat (mapM_res (\<lambda>n. pack_h (tone_sample osc freqs fs amplitude n_all ramp n)) [0..n_all - 1]))"

definition silence :: "int \<Rightarrow> int \<Rightarrow> byte list" where
  "silence fs pause_ms = concat (replicate (nat (sample_count fs pause_ms)) [0, 0])"

text \<open>\<open>generate_dtmf_tone(d, tone_ms, fs)\<close> is called with the default amplitude and ramp.\<close>

fun sequence_to_pcm :: "oscillator \<Rightarrow> string \<Rightarrow> int \<Rightarrow> int \<Rightarrow> int \<Rightarrow> byte list res" where
  "sequence_to_pcm osc [] tone_ms pause_ms fs = Inr []"
| "sequence_to_pcm osc (d # ds) tone_ms pause_ms fs =
     (if strip [d] = [] then sequence_to_pcm osc ds tone_ms pause_ms fs
      else bind_res (generate_dtmf_tone osc [d] tone_ms fs 14000 5) (\<lambda>tone.
        map_res (\<lambda>rest. tone @ silence fs pause_ms @ rest) (sequence_to_pcm osc ds tone_ms pause_ms fs)))"

section \<open>Bounds\<close>

lemma trunc_bound:
  assumes "\<bar>x\<bar> \<le> rat_of_int a"
  shows "- a \<le> trunc x \<and> trunc x \<le> a"
proof (cases "0 \<le> x")
  case True
  then have "0 \<le> \<lfloor>x\<rfloor>" "\<lfloor>x\<rfloor> \<le> a" using assms floor_mono[of x "rat_of_int a"] by simp_all
  then show ?thesis unfolding trunc_def if_P[OF True] by linarith
next
  case False
  then have "0 \<le> \<lfloor>- x\<rfloor>" "\<lfloor>- x\<rfloor> \<le> a" using assms floor_mono[of "- x" "rat_of_int a"] by simp_all
  then show ?thesis unfolding trunc_def if_not_P[OF False] ceiling_def by linarith
qed

lemma tone_sample_bound:
  assumes "0 \<le> amplitude"
  shows "- amplitude \<le> tone_sample osc freqs fs amplitude n_all ramp n \<and> tone_sample osc freqs fs amplitude n_all ramp n \<le> amplitude"
proof -
  have "\<bar>max (- 1) (min 1 s) * rat_of_int amplitude\<bar> \<le> rat_of_int amplitude" for s :: rat
    using mult_right_mono[of "\<bar>max (- 1) (min 1 s)\<bar>" 1 "rat_of_int amplitude"] assms by (simp add: abs_mult)
  from trunc_bound[OF this] show ?thesis by (simp add: tone_sample_def)
qed

lemma tone_total:
  assumes "0 \<le> amplitude" and "amplitude \<le> 32767"
  shows "\<exists>buf. map_res concat (mapM_res (\<lambda>n. pack_h (tone_sample osc freqs fs amplitude n_all ramp n)) ns) = Inr buf \<and>
    length buf = 2 * length ns"
proof (induction ns)
  case (Cons n ns)
  obtain lo hi where "pack_h (tone_sample osc freqs fs amplitude n_all ramp n) = Inr [lo, hi]"
    using pack_h_total[of "tone_sample osc freqs fs amplitude n_all ramp n"] tone_sample_bound[OF assms(1), of osc freqs fs n_all ramp n] assms(2)
    by auto
  with Cons show ?case by auto
qed simp

lemma length_silence: "length (silence fs ms) = 2 * nat (sample_count fs ms)"
  by (simp add: silence_def length_concat comp_def sum_list_replicate)

definition key_ok :: "char \<Rightarrow> bool" where
  "key_ok d = (strip [d] = [] \<or> dict_get dtmf_freqs (upper [d]) \<noteq> None)"

lemma generate_total:
  assumes "dict_get dtmf_freqs (upper digit) = Some freqs" and "0 \<le> amplitude" and "amplitude \<le> 32767"
  shows "\<exists>buf. generate_dtmf_tone osc digit ms fs amplitude ramp_ms = Inr buf \<and> length buf = 2 * nat (sample_count fs ms)"
  using tone_total[OF assms(2,3), of osc freqs fs "sample_count fs ms" "max 1 (sample_count fs ramp_ms)" "[0..sample_count fs ms - 1]"]
  by (simp add: generate_dtmf_tone_def assms(1) Let_def)

lemma sequence_total:
  "list_all key_ok ds \<Longrightarrow>
   \<exists>pcm. sequence_to_pcm osc ds tone_ms pause_ms fs = Inr pcm \<and>
     length pcm = length (filter (\<lambda>d. strip [d] \<noteq> []) ds) * (2 * nat (sample_count fs tone_ms) + 2 * nat (sample_count fs pause_ms))"
proof (induction ds)
  case (Cons d ds)
  show ?case
  proof (cases "strip [d] = []")
    case False
    with Cons.prems obtain freqs where "dict_get dtmf_freqs (upper [d]) = Some freqs" by (auto simp: key_ok_def)
    from generate_total[OF this, of 14000 osc tone_ms fs 5] Cons False show ?thesis
      by (auto simp: length_silence)
  qed (use Cons in simp)
qed simp

section \<open>Properties\<close>

text \<open>The samples of a sequence always fit 16 bits: for keys of the table and blanks, whatever the oscillator gives, every
  tone and pause is written in full, two bytes per sample, and blanks take no time.\<close>

theorem dtmf_sequence_length:
  "list_all key_ok ds \<Longrightarrow>
   \<exists>pcm. sequence_to_pcm osc ds tone_ms pause_ms fs = Inr pcm \<and>
     length pcm = length (filter (\<lambda>d. strip [d] \<noteq> []) ds) * (2 * nat (sample_count fs tone_ms) + 2 * nat (sample_count fs pause_ms))"
  by (rule sequence_total)

theorem dtmf_sequence_length_witness:
  "\<exists>pcm. sequence_to_pcm (\<lambda>_ _ _ _. 2) ''1 a'' 100 50 8000 = Inr pcm \<and> length pcm = 4800"
proof -
  have k: "list_all key_ok ''1 a''" by code_simp
  have "sample_count 8000 100 = 800" "sample_count 8000 50 = 400" by (simp_all add: sample_count_def trunc_def)
  moreover have "length (filter (\<lambda>d. strip [d] \<noteq> []) ''1 a'') = 2" by code_simp
  ultimately show ?thesis using dtmf_sequence_length[OF k, of "\<lambda>_ _ _ _. 2" 100 50 8000] by simp
qed

text \<open>A digit that is not in the table raises, and so does a sequence that contains one, unless it is blank.\<close>

theorem dtmf_invalid_digit:
  "\<exists>d \<in> set ds. \<not> key_ok d \<Longrightarrow> \<exists>err. sequence_to_pcm osc ds tone_ms pause_ms fs = Inl err"
proof (induction ds)
  case (Cons d ds)
  show ?case
  proof (cases "key_ok d")
    case False
    then show ?thesis by (cases "dict_get dtmf_freqs (upper [d])") (auto simp: key_ok_def generate_dtmf_tone_def)
  next
    case True
    with Cons obtain err where "sequence_to_pcm osc ds tone_ms pause_ms fs = Inl err" by auto
    then show ?thesis by (cases "generate_dtmf_tone osc [d] tone_ms fs 14000 5") auto
  qed
qed simp

theorem dtmf_invalid_digit_witness: "\<exists>err. sequence_to_pcm (\<lambda>_ _ _ _. 0) ''x'' 100 50 8000 = Inl err"
proof -
  have "\<not> key_ok CHR ''x''" by code_simp
  then show ?thesis using dtmf_invalid_digit[of "''x''"] by simp
qed

end
