(* ===== verification/Media_Audio.thy ===== *)
theory Media_Audio
  imports Media_Dtmf
begin

text \<open>
  Playing and recording (\<open>media/audio.py\<close>, and the file and device functions at the end of \<open>media/dtmf.py\<close>). A WAV
  file is what the \<open>wave\<close> module keeps of it: its parameters and its sample bytes. PyAudio is an argument: whether it is
  installed, the stream it opens for a request, and the bytes it records; what the code asks of it is the list of
  its calls. The facts show that a file is played in full and in order, that a recording or a tone sequence comes out of
  the player as it went in, and what the stream wrapper does before and after it is closed.
\<close>

section \<open>WAV files\<close>

record wav =
  wav_channels :: nat
  wav_width :: nat
  wav_rate :: int
  wav_frames :: "byte list"

text \<open>A file that was opened for writing and got no complete header cannot be read. The second component says which
  files can be written.\<close>

record files =
  file_table :: "(string, wav option) dict"
  writable :: "string \<Rightarrow> bool"

definition wav_open :: "files \<Rightarrow> string \<Rightarrow> wav res" where
  "wav_open fls name =
     (case dict_get (file_table fls) name of
        None \<Rightarrow> Inl OSError
      | Some None \<Rightarrow> Inl EOFError
      | Some (Some w) \<Rightarrow> if wav_channels w = 0 \<or> wav_width w = 0 then Inl WaveError else Inr w)"

text \<open>The fields of the header have fixed widths.\<close>

definition header_fits :: "int \<Rightarrow> int \<Rightarrow> byte list \<Rightarrow> bool" where
  "header_fits channels fs data =
     (channels * 2 < 2 ^ 16 \<and> fs < 2 ^ 32 \<and> channels * fs * 2 < 2 ^ 32 \<and> 36 + int (length data) < 2 ^ 32)"

text \<open>The block \<open>with wave.open(filename, "wb")\<close>: set the parameters, 16 bits per sample, and write all frames.\<close>

definition write_wav :: "string \<Rightarrow> int \<Rightarrow> int \<Rightarrow> byte list \<Rightarrow> files \<Rightarrow> files \<times> unit res" where
  "write_wav name channels fs data fls =
     (let put = (\<lambda>w. fls\<lparr>file_table := dict_set name w (file_table fls)\<rparr>) in
      if \<not> writable fls name then (fls, Inl OSError)
      else if channels < 1 \<or> fs \<le> 0 then (put None, Inl WaveError)
      else if \<not> header_fits channels fs data then (put None, Inl StructError)
      else (put (Some \<lparr>wav_channels = nat channels, wav_width = 2, wav_rate = fs, wav_frames = data\<rparr>), Inr ()))"

section \<open>The audio device\<close>

datatype direction = Input | Output

record stream_spec =
  sp_direction :: direction
  sp_width :: nat
  sp_channels :: int
  sp_rate :: int
  sp_buffer :: "nat option"

type_synonym stream = nat

record pyaudio =
  installed :: bool
  pa_open :: "stream_spec \<Rightarrow> stream option"
  pa_input :: "nat \<Rightarrow> nat \<Rightarrow> byte list"

datatype audio_event =
    Init
  | OpenStream stream stream_spec
  | WriteStream stream "byte list"
  | ReadStream stream nat
  | StopStream stream
  | CloseStream stream
  | Terminate

text \<open>The loop of \<open>play_wav\<close>; the first argument is the length of a chunk in bytes.\<close>

function play_chunks :: "nat \<Rightarrow> stream \<Rightarrow> byte list \<Rightarrow> audio_event list" where
  "play_chunks chunk h rest =
     (let data = take chunk rest in if data = [] then [] else WriteStream h data # play_chunks chunk h (drop chunk rest))"
  by auto

termination
  by (relation "measure (\<lambda>(_, _, rest). length rest)") auto

definition play_wav :: "pyaudio \<Rightarrow> files \<Rightarrow> string \<Rightarrow> audio_event list \<times> unit res" where
  "play_wav pa fls name =
     (if \<not> installed pa then ([], Inl ImportError)
      else case wav_open fls name of
        Inl err \<Rightarrow> ([], Inl err)
      | Inr w \<Rightarrow>
          if wav_width w > 4 then ([Init], Inl ValueError)
          else
            let spec = \<lparr>sp_direction = Output, sp_width = wav_width w, sp_channels = int (wav_channels w),
                  sp_rate = wav_rate w, sp_buffer = None\<rparr>
            in case pa_open pa spec of
                 None \<Rightarrow> ([Init], Inl OSError)
               | Some h \<Rightarrow>
                   ([Init, OpenStream h spec] @ play_chunks (1024 * (wav_width w * wav_channels w)) h (wav_frames w)
                      @ [StopStream h, CloseStream h, Terminate], Inr ()))"

text \<open>\<open>int(fs / 1024 * seconds)\<close>; a division by 1024 is exact, so there is no rounding below \<open>2 ^ 53\<close>.\<close>

definition block_count :: "int \<Rightarrow> int \<Rightarrow> nat" where
  "block_count fs seconds = nat (trunc (rat_of_int fs / 1024 * rat_of_int seconds))"

definition record_wav :: "pyaudio \<Rightarrow> string \<Rightarrow> int \<Rightarrow> int \<Rightarrow> int \<Rightarrow> files \<Rightarrow> files \<times> audio_event list \<times> unit res" where
  "record_wav pa name seconds fs channels fls =
     (if \<not> installed pa then (fls, [], Inl ImportError)
      else
        let spec = \<lparr>sp_direction = Input, sp_width = 2, sp_channels = channels, sp_rate = fs, sp_buffer = Some 1024\<rparr>
        in case pa_open pa spec of
             None \<Rightarrow> (fls, [Init], Inl OSError)
           | Some h \<Rightarrow>
               let blocks = map (\<lambda>i. pa_input pa i 1024) [0..<block_count fs seconds];
                   evs = [Init, OpenStream h spec] @ replicate (length blocks) (ReadStream h 1024) @ [StopStream h, CloseStream h, Terminate]
               in case write_wav name channels fs (concat blocks) fls of (fls', r) \<Rightarrow> (fls', evs, r))"

text \<open>The two functions of \<open>media/dtmf.py\<close>.\<close>

definition save_wav :: "string \<Rightarrow> byte list \<Rightarrow> int \<Rightarrow> files \<Rightarrow> files \<times> unit res" where
  "save_wav name pcm16 fs fls = write_wav name 1 fs pcm16 fls"

definition play_pyaudio :: "pyaudio \<Rightarrow> byte list \<Rightarrow> int \<Rightarrow> audio_event list \<times> unit res" where
  "play_pyaudio pa pcm16 fs =
     (if \<not> installed pa then ([], Inl RuntimeError)
      else
        let spec = \<lparr>sp_direction = Output, sp_width = 2, sp_channels = 1, sp_rate = fs, sp_buffer = None\<rparr>
        in case pa_open pa spec of
             None \<Rightarrow> ([Init], Inl OSError)
           | Some h \<Rightarrow> ([Init, OpenStream h spec, WriteStream h pcm16, StopStream h, CloseStream h, Terminate], Inr ()))"

section \<open>The stream wrapper\<close>

record AudioIO =
  au_fs :: int
  au_channels :: int
  au_p :: bool
  au_in :: "stream option"
  au_out :: "stream option"

definition new_audio :: "int \<Rightarrow> int \<Rightarrow> AudioIO" where
  "new_audio fs channels = \<lparr>au_fs = fs, au_channels = channels, au_p = False, au_in = None, au_out = None\<rparr>"

definition wrapper_spec :: "direction \<Rightarrow> AudioIO \<Rightarrow> stream_spec" where
  "wrapper_spec d s = \<lparr>sp_direction = d, sp_width = 2, sp_channels = au_channels s, sp_rate = au_fs s, sp_buffer = Some 160\<rparr>"

definition open_output :: "pyaudio \<Rightarrow> bool \<Rightarrow> AudioIO \<Rightarrow> AudioIO \<times> audio_event list \<times> unit res" where
  "open_output pa output s =
     (if \<not> output then (s, [], Inr ())
      else case pa_open pa (wrapper_spec Output s) of
        None \<Rightarrow> (s, [], Inl OSError)
      | Some h \<Rightarrow> (s\<lparr>au_out := Some h\<rparr>, [OpenStream h (wrapper_spec Output s)], Inr ()))"

definition audio_open :: "pyaudio \<Rightarrow> bool \<Rightarrow> bool \<Rightarrow> AudioIO \<Rightarrow> AudioIO \<times> audio_event list \<times> unit res" where
  "audio_open pa inp output s =
     (if \<not> installed pa then (s, [], Inl ImportError)
      else
        let s1 = s\<lparr>au_p := True\<rparr> in
        if \<not> inp then (case open_output pa output s1 of (s2, evs, r) \<Rightarrow> (s2, Init # evs, r))
        else case pa_open pa (wrapper_spec Input s1) of
          None \<Rightarrow> (s1, [Init], Inl OSError)
        | Some h \<Rightarrow>
            (case open_output pa output (s1\<lparr>au_in := Some h\<rparr>) of
               (s2, evs, r) \<Rightarrow> (s2, [Init, OpenStream h (wrapper_spec Input s1)] @ evs, r)))"

text \<open>What the device returns for a number of frames is an argument.\<close>

definition audio_read :: "(nat \<Rightarrow> byte list) \<Rightarrow> nat \<Rightarrow> AudioIO \<Rightarrow> audio_event list \<times> byte list res" where
  "audio_read device n s = (case au_in s of None \<Rightarrow> ([], Inl RuntimeError) | Some h \<Rightarrow> ([ReadStream h n], Inr (device n)))"

definition audio_write :: "byte list \<Rightarrow> AudioIO \<Rightarrow> audio_event list \<times> unit res" where
  "audio_write pcm16 s = (case au_out s of None \<Rightarrow> ([], Inl RuntimeError) | Some h \<Rightarrow> ([WriteStream h pcm16], Inr ()))"

definition close_stream :: "stream option \<Rightarrow> audio_event list" where
  "close_stream st = (case st of None \<Rightarrow> [] | Some h \<Rightarrow> [StopStream h, CloseStream h])"

definition audio_close :: "AudioIO \<Rightarrow> AudioIO \<times> audio_event list" where
  "audio_close s = (s\<lparr>au_p := False\<rparr>, close_stream (au_in s) @ close_stream (au_out s) @ (if au_p s then [Terminate] else []))"

text \<open>A program that uses the wrapper.\<close>

datatype audio_op =
    Open pyaudio bool bool
  | Read "nat \<Rightarrow> byte list" nat
  | Send "byte list"
  | Close

definition audio_step :: "audio_op \<Rightarrow> AudioIO \<times> audio_event list \<Rightarrow> AudioIO \<times> audio_event list" where
  "audio_step op st =
     (case st of (s, tr) \<Rightarrow>
        case op of
          Open pa i out \<Rightarrow> (case audio_open pa i out s of (s', evs, _) \<Rightarrow> (s', tr @ evs))
        | Read device n \<Rightarrow> (s, tr @ fst (audio_read device n s))
        | Send pcm16 \<Rightarrow> (s, tr @ fst (audio_write pcm16 s))
        | Close \<Rightarrow> (case audio_close s of (s', evs) \<Rightarrow> (s', tr @ evs)))"

section \<open>Playing a file\<close>

declare play_chunks.simps [simp del]

fun written :: "audio_event \<Rightarrow> byte list" where
  "written (WriteStream h data) = data"
| "written _ = []"

lemma play_chunks_blocks:
  "0 < chunk \<Longrightarrow>
   \<exists>blocks. play_chunks chunk h rest = map (WriteStream h) blocks \<and> concat blocks = rest \<and> list_all (\<lambda>b. b \<noteq> [] \<and> length b \<le> chunk) blocks"
proof (induction chunk h rest rule: play_chunks.induct)
  case (1 chunk h rest)
  show ?case
  proof (cases "rest = []")
    case True
    then have "play_chunks chunk h rest = map (WriteStream h) []" by (simp add: play_chunks.simps)
    with True show ?thesis by (intro exI[of _ "[]"]) simp
  next
    case False
    with 1 obtain blocks where "play_chunks chunk h (drop chunk rest) = map (WriteStream h) blocks" "concat blocks = drop chunk rest"
      "list_all (\<lambda>b. b \<noteq> [] \<and> length b \<le> chunk) blocks" by auto
    with False 1(2) show ?thesis
      by (intro exI[of _ "take chunk rest # blocks"]) (subst play_chunks.simps, simp)
  qed
qed

definition player_spec :: "wav \<Rightarrow> stream_spec" where
  "player_spec w = \<lparr>sp_direction = Output, sp_width = wav_width w, sp_channels = int (wav_channels w), sp_rate = wav_rate w, sp_buffer = None\<rparr>"

lemma wav_played:
  assumes "installed pa" and "dict_get (file_table fls) name = Some (Some w)" and "0 < wav_channels w" and "0 < wav_width w" and "wav_width w \<le> 4"
    and "pa_open pa (player_spec w) = Some h"
  shows "\<exists>blocks. play_wav pa fls name =
      ([Init, OpenStream h (player_spec w)] @ map (WriteStream h) blocks @ [StopStream h, CloseStream h, Terminate], Inr ()) \<and>
    concat blocks = wav_frames w \<and> list_all (\<lambda>b. b \<noteq> [] \<and> length b \<le> 1024 * (wav_width w * wav_channels w)) blocks"
proof -
  obtain blocks where "play_chunks (1024 * (wav_width w * wav_channels w)) h (wav_frames w) = map (WriteStream h) blocks"
    "concat blocks = wav_frames w" "list_all (\<lambda>b. b \<noteq> [] \<and> length b \<le> 1024 * (wav_width w * wav_channels w)) blocks"
    using play_chunks_blocks[of "1024 * (wav_width w * wav_channels w)" h "wav_frames w"] assms by auto
  with assms show ?thesis by (auto simp: play_wav_def wav_open_def player_spec_def Let_def)
qed

lemma written_blocks: "concat (map written (map (WriteStream h) blocks)) = concat blocks"
  by (simp add: comp_def)

text \<open>A file written by the code, played back.\<close>

lemma write_wav_played:
  assumes "installed pa" and "writable fls name" and "1 \<le> channels" and "0 < fs" and "header_fits channels fs data"
    and "pa_open pa \<lparr>sp_direction = Output, sp_width = 2, sp_channels = channels, sp_rate = fs, sp_buffer = None\<rparr> = Some h"
    and "write_wav name channels fs data fls = (fls', r)"
  shows "r = Inr () \<and> (\<exists>evs. play_wav pa fls' name = (evs, Inr ()) \<and> concat (map written evs) = data \<and> last evs = Terminate)"
proof -
  let ?w = "\<lparr>wav_channels = nat channels, wav_width = 2, wav_rate = fs, wav_frames = data\<rparr>"
  have w: "dict_get (file_table fls') name = Some (Some ?w)" "r = Inr ()" using assms by (auto simp: write_wav_def Let_def)
  have "pa_open pa (player_spec ?w) = Some h" using assms(3,6) by (simp add: player_spec_def)
  from wav_played[OF assms(1) w(1) _ _ _ this] assms(3) obtain blocks where
    "play_wav pa fls' name = ([Init, OpenStream h (player_spec ?w)] @ map (WriteStream h) blocks @ [StopStream h, CloseStream h, Terminate], Inr ())"
    "concat blocks = data" by auto
  with w(2) written_blocks[of h blocks] show ?thesis by simp
qed

lemma block_count_div:
  assumes "0 \<le> fs" and "0 \<le> seconds"
  shows "block_count fs seconds = nat (fs * seconds div 1024)"
proof -
  have "rat_of_int fs / 1024 * rat_of_int seconds = rat_of_int (fs * seconds) / rat_of_int 1024" by simp
  moreover have "0 \<le> rat_of_int (fs * seconds) / rat_of_int 1024" using assms by simp
  ultimately show ?thesis unfolding block_count_def trunc_def by (simp only: floor_divide_of_int_eq if_True)
qed

section \<open>The wrapper's streams\<close>

definition opens_input :: "audio_op \<Rightarrow> AudioIO \<Rightarrow> stream option" where
  "opens_input op s =
     (case op of
        Open pa i _ \<Rightarrow> if installed pa \<and> i then pa_open pa \<lparr>sp_direction = Input, sp_width = 2, sp_channels = au_channels s, sp_rate = au_fs s, sp_buffer = Some 160\<rparr> else None
      | _ \<Rightarrow> None)"

lemma open_output_keeps: "open_output pa output s = (s', evs, r) \<Longrightarrow> au_in s' = au_in s \<and> au_fs s' = au_fs s \<and> au_channels s' = au_channels s"
  by (auto simp: open_output_def split: if_splits option.splits)

lemma audio_step_in:
  "au_in (fst (audio_step op st)) = (case opens_input op (fst st) of Some h \<Rightarrow> Some h | None \<Rightarrow> au_in (fst st))"
  "au_fs (fst (audio_step op st)) = au_fs (fst st)" "au_channels (fst (audio_step op st)) = au_channels (fst st)"
  by (auto simp: audio_step_def opens_input_def audio_open_def audio_close_def wrapper_spec_def Let_def
      split: prod.splits audio_op.splits option.splits if_splits dest: open_output_keeps)

lemma audio_run_in:
  "au_in (fst (fold audio_step ops st)) =
     fold (\<lambda>op cur. case opens_input op (fst st) of Some h \<Rightarrow> Some h | None \<Rightarrow> cur) ops (au_in (fst st))"
proof (induction ops arbitrary: st)
  case (Cons op ops)
  have "opens_input x (fst (audio_step op st)) = opens_input x (fst st)" for x
    by (simp add: opens_input_def audio_step_in split: audio_op.split)
  with Cons[of "audio_step op st"] show ?case by (simp add: audio_step_in(1))
qed simp

lemma last_opened_None:
  "fold (\<lambda>op cur. case f op of Some h \<Rightarrow> Some h | None \<Rightarrow> cur) ops cur = None \<longleftrightarrow> cur = None \<and> list_all (\<lambda>op. f op = None) ops"
  by (induction ops arbitrary: cur) (auto split: option.splits)

definition example_pyaudio :: pyaudio where
  "example_pyaudio = \<lparr>installed = True, pa_open = (\<lambda>_. Some 3), pa_input = (\<lambda>i n. replicate (2 * n) i)\<rparr>"

definition no_files :: files where
  "no_files = \<lparr>file_table = [], writable = (\<lambda>_. True)\<rparr>"

section \<open>Properties\<close>

text \<open>C24. A recording is played back as it was recorded: if the device gives the documented number of bytes for every
  read, then after \<open>record_wav\<close> the player writes exactly the recorded bytes, in order, and releases the device; there are
  \<open>1024 * (fs * seconds div 1024)\<close> frames of them, so the end of the requested time that does not fill a block of 1024
  frames is never recorded.\<close>

theorem recording_played:
  assumes "installed pa" and "writable fls name" and "1 \<le> channels" and "0 < fs" and "0 \<le> seconds"
    and "\<forall>i. length (pa_input pa i 1024) = nat (1024 * channels * 2)"
    and "pa_open pa \<lparr>sp_direction = Input, sp_width = 2, sp_channels = channels, sp_rate = fs, sp_buffer = Some 1024\<rparr> = Some h"
    and "pa_open pa \<lparr>sp_direction = Output, sp_width = 2, sp_channels = channels, sp_rate = fs, sp_buffer = None\<rparr> = Some h'"
    and "header_fits channels fs (concat (map (\<lambda>i. pa_input pa i 1024) [0..<block_count fs seconds]))"
    and "record_wav pa name seconds fs channels fls = (fls', evs, r)"
  shows "r = Inr () \<and> last evs = Terminate \<and>
    (\<exists>evs'. play_wav pa fls' name = (evs', Inr ()) \<and> last evs' = Terminate \<and>
       concat (map written evs') = concat (map (\<lambda>i. pa_input pa i 1024) [0..<block_count fs seconds]) \<and>
       int (length (concat (map written evs'))) = fs * seconds div 1024 * (1024 * channels * 2))"
proof -
  let ?data = "concat (map (\<lambda>i. pa_input pa i 1024) [0..<block_count fs seconds])"
  obtain fls1 r1 where w: "write_wav name channels fs ?data fls = (fls1, r1)" by fastforce
  with assms(1,7,10) have e: "fls' = fls1" "r = r1" "last evs = Terminate" by (auto simp: record_wav_def Let_def)
  have "length ?data = block_count fs seconds * nat (1024 * channels * 2)"
    using assms(6) by (simp add: length_concat comp_def sum_list_triv)
  then have "int (length ?data) = fs * seconds div 1024 * (1024 * channels * 2)"
    using assms(3-5) by (simp add: block_count_div pos_imp_zdiv_nonneg_iff)
  with write_wav_played[OF assms(1-4,9,8) w] e show ?thesis by auto
qed

theorem recording_played_witness:
  "case record_wav example_pyaudio ''a.wav'' 1 2048 1 no_files of (fls', evs, r) \<Rightarrow>
     \<exists>evs'. play_wav example_pyaudio fls' ''a.wav'' = (evs', Inr ()) \<and> int (length (concat (map written evs'))) = 2048 * 1 div 1024 * (1024 * 1 * 2)"
proof -
  have "block_count 2048 1 = 2" by (simp add: block_count_div)
  then have "header_fits 1 2048 (concat (map (\<lambda>i. pa_input example_pyaudio i 1024) [0..<block_count 2048 1]))"
    by (simp only: header_fits_def example_pyaudio_def pyaudio.simps length_concat map_map comp_def length_replicate sum_list_triv length_map length_upt) simp
  moreover obtain fls' evs r where "record_wav example_pyaudio ''a.wav'' 1 2048 1 no_files = (fls', evs, r)" using prod_cases3 by blast
  ultimately show ?thesis
    using recording_played[of example_pyaudio no_files "''a.wav''" 1 2048 1 3 3 fls' evs r]
    by (auto simp: example_pyaudio_def no_files_def)
qed

text \<open>C25. Tones reach the loudspeaker: a sequence of keys of the table, saved as a WAV file and played, is written to the
  device as exactly the samples of its tones and pauses, and playing the samples directly writes the same bytes.\<close>

theorem tones_played:
  assumes "list_all key_ok ds" and "installed pa" and "writable fls name" and "0 < fs" and "sequence_to_pcm osc ds tone_ms pause_ms fs = Inr pcm"
    and "header_fits 1 fs pcm"
    and "pa_open pa \<lparr>sp_direction = Output, sp_width = 2, sp_channels = 1, sp_rate = fs, sp_buffer = None\<rparr> = Some h"
    and "save_wav name pcm fs fls = (fls', r)"
  shows "r = Inr () \<and>
    (\<exists>evs evs'. play_wav pa fls' name = (evs, Inr ()) \<and> play_pyaudio pa pcm fs = (evs', Inr ()) \<and>
       concat (map written evs) = pcm \<and> concat (map written evs') = pcm \<and> last evs = Terminate \<and> last evs' = Terminate \<and>
       length pcm = length (filter (\<lambda>d. strip [d] \<noteq> []) ds) * (2 * nat (sample_count fs tone_ms) + 2 * nat (sample_count fs pause_ms)))"
proof -
  have w: "write_wav name 1 fs pcm fls = (fls', r)" using assms(8) by (simp add: save_wav_def)
  have "length pcm = length (filter (\<lambda>d. strip [d] \<noteq> []) ds) * (2 * nat (sample_count fs tone_ms) + 2 * nat (sample_count fs pause_ms))"
    using sequence_total[OF assms(1), of osc tone_ms pause_ms fs] assms(5) by auto
  with write_wav_played[OF assms(2,3) _ assms(4,6,7) w] assms(2,7) show ?thesis by (auto simp: play_pyaudio_def Let_def)
qed

theorem tones_played_witness:
  "\<exists>pcm. sequence_to_pcm (\<lambda>_ _ _ _. 2) ''1'' 1 1 1000 = Inr pcm \<and>
     (\<exists>evs. play_wav example_pyaudio (fst (save_wav ''t.wav'' pcm 1000 no_files)) ''t.wav'' = (evs, Inr ()) \<and> concat (map written evs) = pcm)"
proof -
  have k: "list_all key_ok ''1''" by code_simp
  obtain pcm where pcm: "sequence_to_pcm (\<lambda>_ _ _ _. 2) ''1'' 1 1 1000 = Inr pcm" "length pcm =
      length (filter (\<lambda>d. strip [d] \<noteq> []) ''1'') * (2 * nat (sample_count 1000 1) + 2 * nat (sample_count 1000 1))"
    using sequence_total[OF k, of "\<lambda>_ _ _ _. 2" 1 1 1000] by blast
  have "length (filter (\<lambda>d. strip [d] \<noteq> []) ''1'') = 1" by code_simp
  with pcm(2) have "header_fits 1 1000 pcm" by (simp add: header_fits_def sample_count_def trunc_def)
  then show ?thesis
    using tones_played[OF k _ _ _ pcm(1), of example_pyaudio no_files "''t.wav''" 3 "fst (save_wav ''t.wav'' pcm 1000 no_files)"
        "snd (save_wav ''t.wav'' pcm 1000 no_files)"] pcm(1)
    by (auto simp: example_pyaudio_def no_files_def)
qed

text \<open>The wrapper refuses to read only before an input stream was ever opened: after any use of it, reading raises
  \<open>RuntimeError\<close> exactly if no \<open>open\<close> so far has opened one. Closing does not forget the stream, so once the wrapper has been
  closed a read still goes to the closed stream, and closing again stops and closes it a second time.\<close>

theorem audio_read_guard:
  assumes "fold audio_step ops (new_audio fs channels, []) = (s, tr)"
  shows "(snd (audio_read device n s) = Inl RuntimeError \<longleftrightarrow> list_all (\<lambda>op. opens_input op (new_audio fs channels) = None) ops) \<and>
    (case au_in s of
       None \<Rightarrow> True
     | Some h \<Rightarrow> {StopStream h, CloseStream h} \<subseteq> set (snd (audio_close s)) \<and>
         audio_read device n (fst (audio_close s)) = ([ReadStream h n], Inr (device n)) \<and>
         {StopStream h, CloseStream h} \<subseteq> set (snd (audio_close (fst (audio_close s)))))"
proof
  have "au_in s = None \<longleftrightarrow> list_all (\<lambda>op. opens_input op (new_audio fs channels) = None) ops"
    using audio_run_in[of ops "(new_audio fs channels, [])"] last_opened_None[of "\<lambda>op. opens_input op (new_audio fs channels)" ops None] assms
    by (simp add: new_audio_def)
  moreover have "snd (audio_read device n s) = Inl RuntimeError \<longleftrightarrow> au_in s = None" by (simp add: audio_read_def split: option.split)
  ultimately show "snd (audio_read device n s) = Inl RuntimeError \<longleftrightarrow> list_all (\<lambda>op. opens_input op (new_audio fs channels) = None) ops" by simp
qed (auto simp: audio_close_def close_stream_def audio_read_def split: option.split)

theorem audio_read_guard_witness:
  "snd (audio_read (\<lambda>n. []) 160 (fst (fold audio_step [Send [1], Close] (new_audio 8000 1, [])))) = Inl RuntimeError"
  using audio_read_guard[OF surjective_pairing[of "fold audio_step [Send [1], Close] (new_audio 8000 1, [])"], of "\<lambda>n. []" 160]
  by (simp add: opens_input_def)

end
