(* ===== verification/Logging_Utils.thy ===== *)
theory Logging_Utils
  imports Py_Strings
begin

text \<open>
  Logging (\<open>logging_utils.py\<close>): the console handler, the panels and lines the SIP logger makes, and the configuration
  of loggers. Of the standard library's \<open>logging\<close> the model has what decides whether a message is printed: the table of
  loggers with their handlers, levels and propagation, the walk to the parents, and the handler of last resort. Rich
  objects are what is given to the console; symbols outside Latin-1 are named. The facts show that no message is printed
  twice, however the loggers have been set up.
\<close>

section \<open>Messages\<close>

datatype glyph = Outbox | Inbox | RightArrow | LeftArrow | Cycle | Cross | Check

datatype span = Lit string | Glyph glyph

record panel =
  pn_text :: string
  pn_title :: "span list"
  pn_border :: string

text \<open>A line of styled spans.\<close>

type_synonym styled = "(span list \<times> string) list"

datatype log_msg =
    PanelMsg panel
  | TextMsg styled
  | RichMsg string
  | PlainMsg string

text \<open>What \<open>RichConsoleHandler.emit\<close> gives to the console: the object itself for panels, texts and other objects with a
  rich rendering, the formatted message otherwise.\<close>

datatype printed = PrintObject log_msg | PrintText string

definition emit :: "log_msg \<Rightarrow> printed" where
  "emit m = (case m of PlainMsg s \<Rightarrow> PrintText s | _ \<Rightarrow> PrintObject m)"

definition endpoint :: "string \<times> int \<Rightarrow> string" where
  "endpoint a = fst a @ '':'' @ int_str (snd a)"

definition log_sip_message_sent :: "string \<Rightarrow> string \<times> int \<Rightarrow> string option \<Rightarrow> log_msg" where
  "log_sip_message_sent msg dst meth =
     PanelMsg \<lparr>pn_text = strip msg,
       pn_title = [Glyph Outbox, Lit ('' SIP '' @ or_str meth ''MESSAGE'' @ '' SENT ''), Glyph RightArrow, Lit ('' '' @ endpoint dst)],
       pn_border = ''green''\<rparr>"

definition log_sip_message_received :: "string \<Rightarrow> string \<times> int \<Rightarrow> string option \<Rightarrow> int option \<Rightarrow> log_msg" where
  "log_sip_message_received msg src meth status =
     (case status of
        Some sc \<Rightarrow>
          if sc \<noteq> 0
          then PanelMsg \<lparr>pn_text = strip msg,
            pn_title = [Glyph Inbox, Lit ('' SIP '' @ int_str sc @ '' RESPONSE ''), Glyph LeftArrow, Lit ('' '' @ endpoint src)],
            pn_border = (if 200 \<le> sc \<and> sc < 300 then ''blue'' else if sc < 400 then ''yellow'' else ''red'')\<rparr>
          else PanelMsg \<lparr>pn_text = strip msg,
            pn_title = [Glyph Inbox, Lit ('' SIP '' @ or_str meth ''MESSAGE'' @ '' REQUEST ''), Glyph LeftArrow, Lit ('' '' @ endpoint src)],
            pn_border = ''cyan''\<rparr>
      | None \<Rightarrow> PanelMsg \<lparr>pn_text = strip msg,
            pn_title = [Glyph Inbox, Lit ('' SIP '' @ or_str meth ''MESSAGE'' @ '' REQUEST ''), Glyph LeftArrow, Lit ('' '' @ endpoint src)],
            pn_border = ''cyan''\<rparr>)"

definition log_transaction :: "string \<Rightarrow> string \<Rightarrow> string \<Rightarrow> string \<Rightarrow> log_msg" where
  "log_transaction tid meth target status =
     TextMsg [([Glyph Cycle, Lit '' ''], ''bold cyan''), ([Lit (''Transaction '' @ status @ '': '')], ''bold''), ([Lit tid], ''bold blue''),
       ([Lit ('' ['' @ meth @ ''] ''), Glyph RightArrow, Lit ('' '' @ target)], ''dim'')]"

text \<open>The arguments are the name of the exception's class and its text.\<close>

definition log_error :: "string \<Rightarrow> string \<Rightarrow> string option \<Rightarrow> log_msg" where
  "log_error cls txt ctx =
     PanelMsg \<lparr>pn_text = cls @ '': '' @ txt,
       pn_title = [Glyph Cross, Lit '' ERROR''] @ (if truthy_str ctx then [Lit ('' in '' @ the ctx)] else []), pn_border = ''red''\<rparr>"

definition log_info :: "string \<Rightarrow> string \<Rightarrow> log_msg" where
  "log_info msg style = TextMsg [([Lit msg], style)]"

definition log_success :: "string \<Rightarrow> log_msg" where
  "log_success msg = TextMsg [([Glyph Check, Lit '' ''], ''bold green''), ([Lit msg], ''green'')]"

section \<open>Loggers\<close>

datatype handler = RichConsole | Stream | LastResort

record logger =
  lg_handlers :: "handler list"
  lg_level :: nat
  lg_propagate :: bool

record logging =
  root_logger :: logger
  loggers :: "(string, logger) dict"

definition fresh_logging :: logging where
  "fresh_logging = \<lparr>root_logger = \<lparr>lg_handlers = [], lg_level = 30, lg_propagate = True\<rparr>, loggers = []\<rparr>"

definition is_root :: "string \<Rightarrow> bool" where
  "is_root name = (name = [] \<or> name = ''root'')"

text \<open>\<open>logging.getLogger\<close>: the logger is made if it does not exist.\<close>

definition fetch :: "string \<Rightarrow> logging \<Rightarrow> logger" where
  "fetch name l =
     (if is_root name then root_logger l
      else case dict_get (loggers l) name of Some g \<Rightarrow> g | None \<Rightarrow> \<lparr>lg_handlers = [], lg_level = 0, lg_propagate = True\<rparr>)"

definition put_logger :: "string \<Rightarrow> logger \<Rightarrow> logging \<Rightarrow> logging" where
  "put_logger name g l = (if is_root name then l\<lparr>root_logger := g\<rparr> else l\<lparr>loggers := dict_set name g (loggers l)\<rparr>)"

definition getLogger :: "string \<Rightarrow> logging \<Rightarrow> logging" where
  "getLogger name l = put_logger name (fetch name l) l"

text \<open>\<open>get_logger\<close>, and the same lines in \<open>RichSIPLogger.__init__\<close>.\<close>

definition get_logger :: "string \<Rightarrow> logging \<Rightarrow> logging" where
  "get_logger name l =
     (let g = fetch name l in
      put_logger name (if lg_handlers g = [] then g\<lparr>lg_handlers := [RichConsole], lg_level := 10, lg_propagate := False\<rparr> else g) l)"

definition new_sip_logger :: "string \<Rightarrow> logging \<Rightarrow> logging" where
  "new_sip_logger name l = get_logger name l"

definition level_of :: "string \<Rightarrow> nat option" where
  "level_of name =
     dict_get [(''CRITICAL'', 50), (''FATAL'', 50), (''ERROR'', 40), (''WARN'', 30), (''WARNING'', 30), (''INFO'', 20), (''DEBUG'', 10), (''NOTSET'', 0)] name"

text \<open>The handlers of the root are removed and replaced before the level is looked at.\<close>

definition setup_logging :: "string \<Rightarrow> logging \<Rightarrow> logging \<times> unit res" where
  "setup_logging level l =
     (let l1 = l\<lparr>root_logger := (root_logger l)\<lparr>lg_handlers := [RichConsole]\<rparr>\<rparr> in
      case level_of level of
        None \<Rightarrow> (l1, Inl ValueError)
      | Some n \<Rightarrow> (l1\<lparr>root_logger := (root_logger l1)\<lparr>lg_level := n\<rparr>\<rparr>, Inr ()))"

text \<open>\<open>logging.basicConfig(level=...)\<close> of the example servers.\<close>

definition basic_config :: "nat \<Rightarrow> logging \<Rightarrow> logging" where
  "basic_config n l =
     (if lg_handlers (root_logger l) = [] then l\<lparr>root_logger := (root_logger l)\<lparr>lg_handlers := [Stream], lg_level := n\<rparr>\<rparr> else l)"

section \<open>Printing a message\<close>

text \<open>A logger followed by its existing ancestors up to the root.\<close>

definition ancestors :: "string \<Rightarrow> string list" where
  "ancestors name = (let ps = split_on ''.'' name in map (\<lambda>k. join ''.'' (take k ps)) (rev [1..<length ps]))"

definition chain :: "string \<Rightarrow> logging \<Rightarrow> logger list" where
  "chain name l =
     (if is_root name then [root_logger l]
      else fetch name l # List.map_filter (dict_get (loggers l)) (ancestors name) @ [root_logger l])"

fun effective_level :: "logger list \<Rightarrow> nat" where
  "effective_level [] = 0"
| "effective_level (g # gs) = (if lg_level g \<noteq> 0 then lg_level g else effective_level gs)"

fun call_handlers :: "logger list \<Rightarrow> handler list" where
  "call_handlers [] = []"
| "call_handlers (g # gs) = lg_handlers g @ (if lg_propagate g then call_handlers gs else [])"

definition handled :: "string \<Rightarrow> nat \<Rightarrow> logging \<Rightarrow> handler list" where
  "handled name level l =
     (if level < effective_level (chain name l) then []
      else let hs = call_handlers (chain name l) in if hs = [] then if level \<ge> 30 then [LastResort] else [] else hs)"

text \<open>What the console shows of a message logged with a level.\<close>

definition console_output :: "string \<Rightarrow> nat \<Rightarrow> log_msg \<Rightarrow> logging \<Rightarrow> printed list" where
  "console_output name level m l = map (\<lambda>_. emit m) (filter (\<lambda>h. h = RichConsole) (handled name level l))"

section \<open>Configurations\<close>

inductive log_reach :: "logging \<Rightarrow> string set \<Rightarrow> bool" where
  fresh: "log_reach fresh_logging {}"
| bare: "log_reach l ns \<Longrightarrow> log_reach (getLogger name l) ns"
| rich: "log_reach l ns \<Longrightarrow> log_reach (get_logger name l) (insert name ns)"
| sip: "log_reach l ns \<Longrightarrow> log_reach (new_sip_logger name l) (insert name ns)"
| global: "log_reach l ns \<Longrightarrow> log_reach (fst (setup_logging level l)) ns"
| basic: "log_reach l ns \<Longrightarrow> log_reach (basic_config n l) ns"

definition logger_ok :: "logger \<Rightarrow> bool" where
  "logger_ok g = (lg_handlers g = [] \<or> (lg_handlers g = [RichConsole] \<and> lg_level g = 10 \<and> \<not> lg_propagate g))"

definition logging_ok :: "logging \<Rightarrow> string set \<Rightarrow> bool" where
  "logging_ok l ns =
     ((\<forall>name. is_root name \<longrightarrow> dict_get (loggers l) name = None) \<and>
      length (lg_handlers (root_logger l)) \<le> 1 \<and> (\<forall>name. \<not> is_root name \<longrightarrow> logger_ok (fetch name l)) \<and>
      (\<forall>name \<in> ns. \<not> is_root name \<longrightarrow> lg_handlers (fetch name l) \<noteq> []))"

lemma fetch_put: "\<not> is_root n \<Longrightarrow> fetch n (put_logger name g l) = (if n = name then g else fetch n l)"
  by (auto simp: fetch_def put_logger_def)

lemma no_root_put: "is_root n \<Longrightarrow> dict_get (loggers (put_logger name g l)) n = dict_get (loggers l) n"
  by (auto simp: put_logger_def)

lemma root_put: "root_logger (put_logger name g l) = (if is_root name then g else root_logger l)"
  by (simp add: put_logger_def)

lemma fetch_root_update: "\<not> is_root n \<Longrightarrow> fetch n (l\<lparr>root_logger := g\<rparr>) = fetch n l"
  by (simp add: fetch_def)

lemma logging_ok_get:
  assumes "logging_ok l ns"
  shows "logging_ok (get_logger name l) (insert name ns)"
proof -
  let ?g = "let g = fetch name l in if lg_handlers g = [] then g\<lparr>lg_handlers := [RichConsole], lg_level := 10, lg_propagate := False\<rparr> else g"
  have eq: "get_logger name l = put_logger name ?g l" by (simp add: get_logger_def Let_def)
  have "\<not> is_root name \<Longrightarrow> logger_ok ?g" "lg_handlers ?g \<noteq> []" "is_root name \<Longrightarrow> length (lg_handlers ?g) \<le> 1"
    using assms by (auto simp: logging_ok_def logger_ok_def Let_def fetch_def)
  with assms show ?thesis unfolding eq logging_ok_def root_put by (auto simp: fetch_put no_root_put simp del: Let_def)
qed

lemma reach_ok: "log_reach l ns \<Longrightarrow> logging_ok l ns"
proof (induction rule: log_reach.induct)
  case fresh
  show ?case by (simp add: logging_ok_def fresh_logging_def logger_ok_def fetch_def)
next
  case (bare l ns name)
  then show ?case by (auto simp: logging_ok_def getLogger_def fetch_put no_root_put root_put fetch_def[of name] split: if_splits)
next
  case (rich l ns name)
  then show ?case by (rule_tac logging_ok_get)
next
  case (sip l ns name)
  then show ?case unfolding new_sip_logger_def by (rule_tac logging_ok_get)
qed (auto simp: logging_ok_def setup_logging_def basic_config_def Let_def fetch_root_update split: option.split)

lemma chain_handlers:
  assumes "list_all logger_ok gs" and "length (lg_handlers r) \<le> 1"
  shows "length (call_handlers (gs @ [r])) \<le> 1"
  using assms by (induction gs) (auto simp: logger_ok_def)

lemma list_all_map_filter: "(\<And>x y. x \<in> set xs \<Longrightarrow> f x = Some y \<Longrightarrow> P y) \<Longrightarrow> list_all P (List.map_filter f xs)"
  by (auto simp: List.map_filter_def list_all_iff)

lemma chain_ok:
  assumes "logging_ok l ns" and "\<not> is_root name"
  shows "\<exists>gs. chain name l = gs @ [root_logger l] \<and> list_all logger_ok gs \<and> hd gs = fetch name l \<and> gs \<noteq> []"
proof -
  have "logger_ok g" if "dict_get (loggers l) n = Some g" for n g
    using assms(1) that by (cases "is_root n") (auto simp: logging_ok_def fetch_def dest!: spec[of _ n])
  then have "list_all logger_ok (List.map_filter (dict_get (loggers l)) (ancestors name))" by (intro list_all_map_filter)
  moreover have "logger_ok (fetch name l)" using assms by (simp add: logging_ok_def)
  ultimately show ?thesis using assms(2)
    by (intro exI[of _ "fetch name l # List.map_filter (dict_get (loggers l)) (ancestors name)"]) (simp add: chain_def)
qed

lemma handled_once: "length (call_handlers (chain name l)) \<le> 1 \<Longrightarrow> length (handled name level l) \<le> 1"
  by (simp add: handled_def Let_def)

section \<open>Properties\<close>

text \<open>C29. No message is printed twice: however loggers have been fetched, given their console handler by \<open>get_logger\<close> or a SIP
  logger, and the root set up by \<open>setup_logging\<close> or \<open>basicConfig\<close>, in any order and any number of times, a message reaches at
  most one handler. On a logger from \<open>get_logger\<close> or of a SIP logger every message from DEBUG on is printed exactly once,
  whatever level \<open>setup_logging\<close> has set.\<close>

theorem logged_at_most_once:
  assumes "log_reach l ns"
  shows "length (handled name level l) \<le> 1 \<and>
    (name \<in> ns \<longrightarrow> \<not> is_root name \<longrightarrow> 10 \<le> level \<longrightarrow> console_output name level m l = [emit m])"
proof
  note ok = reach_ok[OF assms]
  have root: "length (lg_handlers (root_logger l)) \<le> 1" using ok by (simp add: logging_ok_def)
  show "length (handled name level l) \<le> 1"
  proof (cases "is_root name")
    case True
    with root show ?thesis by (intro handled_once) (simp add: chain_def)
  next
    case False
    from chain_ok[OF ok this] obtain gs where "chain name l = gs @ [root_logger l]" "list_all logger_ok gs" by blast
    with chain_handlers[OF _ root, of gs] show ?thesis by (intro handled_once) simp
  qed
  show "name \<in> ns \<longrightarrow> \<not> is_root name \<longrightarrow> 10 \<le> level \<longrightarrow> console_output name level m l = [emit m]"
  proof (intro impI)
    assume n: "name \<in> ns" "\<not> is_root name" "10 \<le> level"
    then have "lg_handlers (fetch name l) = [RichConsole] \<and> lg_level (fetch name l) = 10 \<and> \<not> lg_propagate (fetch name l)"
      using ok by (auto simp: logging_ok_def logger_ok_def)
    with n show "console_output name level m l = [emit m]" by (simp add: console_output_def handled_def chain_def)
  qed
qed

theorem logged_at_most_once_witness:
  "console_output ''SIPClient'' 20 (log_success ''started'') (fst (setup_logging ''WARNING'' (new_sip_logger ''SIPClient'' fresh_logging)))
     = [PrintObject (log_success ''started'')]"
proof -
  have "log_reach (fst (setup_logging ''WARNING'' (new_sip_logger ''SIPClient'' fresh_logging))) {''SIPClient''}"
    by (intro log_reach.intros)
  from logged_at_most_once[OF this, of "''SIPClient''" 20 "log_success ''started''"] show ?thesis
    by (simp add: is_root_def emit_def log_success_def)
qed

end
