(* ===== verification/Spec2Isabelle.thy ===== *)
theory Spec2Isabelle
  imports Sdp_Negotiation Mizu_Client Dns_Resolver Media_Rtp Media_Codecs Media_Audio Logging_Utils
begin

text \<open>
  \<^bold>\<open>TinySIP.\<close> A model of the SIP library under \<open>src/tinysip\<close> and of its example client, with the theorems that describe what
  the code does. Every definition is an executable HOL function, or an inductive relation over such functions where the
  order of events is open.

  \<^bold>\<open>The program and its parts.\<close> A client (\<open>client.py\<close>, \<open>examples/mizu_example.py\<close>) owns a transport (\<open>transport.py\<close>), a
  user agent (\<open>fsm.py\<close>) and a call-flow tracker (\<open>call_flow.py\<close>). The user agent makes requests (\<open>message.py\<close>), runs each in a
  transaction with timers, answers digest challenges (\<open>auth.py\<close>) and keeps a table of dialogs; what it sends goes through an
  adapter to the transport, and what the transport receives is parsed and given back to it. Bodies are session
  descriptions (\<open>sdp.py\<close>): a simple session class with its negotiator, and an advanced parser, builder and negotiator. The
  tracker draws ladder diagrams (\<open>ladder.py\<close> has the same for plain dictionaries). Beside this are the media helpers
  (\<open>media/\<close>: RTP, G.711, DTMF tones, audio devices), the resolver (\<open>dns.py\<close>) and logging (\<open>logging_utils.py\<close>).

  \<^bold>\<open>Theories.\<close>
  \<^item> \<open>Py_Prelude\<close>, \<open>Py_Strings\<close>, \<open>Py_Regex\<close>, \<open>Py_Struct\<close>: the part of Python the code uses. Errors are values of \<open>py_error\<close>,
    a fallible result is \<open>'a res\<close>; dictionaries are association lists that keep insertion order (the laws are the locale
    \<open>dictionary\<close>, interpreted as \<open>pd\<close>); strings are lists of Latin-1 characters with \<open>split\<close>, \<open>strip\<close>, \<open>int\<close> and
    UTF-8; regular expressions are a small matching language; \<open>struct.pack\<close> and \<open>unpack\<close> work on bytes.
  \<^item> \<open>Sip_Message\<close> (\<open>message.py\<close>): URIs, headers, bodies, messages; \<open>create_request\<close>, \<open>create_response\<close>, \<open>message_parse\<close>,
    \<open>message_encode\<close>, \<open>message_validate\<close>. Shown: the round trip over the wire.
  \<^item> \<open>Transport_Layer\<close> (\<open>transport.py\<close>): the protocol objects, TCP framing and the transport. The locale \<open>framing\<close> states what a
    stream cutter needs, and its interpretation \<open>tcp\<close> is on the code's loop. Shown: any segmentation gives the same messages,
    in which cases the loop does not return, where datagrams go, and what becomes of connections the peer closes.
  \<^item> \<open>Digest_Auth\<close> (\<open>auth.py\<close>): parsing challenges and answering them. Shown: the answer is the one a server computes, and the
    authenticated request is the old one with the answer and the next CSeq.
  \<^item> \<open>Fsm_Transaction\<close> (\<open>fsm.py\<close>, transactions): the four classes as lists of actions over one state record, timers included.
    The locale \<open>transaction_class\<close> states what a class promises and is interpreted for all four (\<open>ict\<close>, \<open>nict\<close>, \<open>ist\<close>, \<open>nist\<close>).
    Shown: invariant, progress in one direction, bounded sends, termination without an answer.
  \<^item> \<open>Fsm_UserAgent\<close> (\<open>fsm.py\<close>, dialogs, transaction manager, user agent): operations as state transformers with errors.
    Shown: the invariant of the tables over all reachable states, answering of requests, resending after a challenge.
  \<^item> \<open>Sdp_Session\<close>, \<open>Sdp_Parser\<close>, \<open>Sdp_Builder\<close>, \<open>Sdp_Negotiation\<close> (\<open>sdp.py\<close>): the two implementations. Shown: print/parse round
    trip, that the parser reads from a built offer or answer what was meant, and the result of a negotiation.
  \<^item> \<open>Ladder\<close> (\<open>ladder.py\<close>), \<open>Call_Flow\<close> (\<open>call_flow.py\<close>): drawing cell by cell, flows and the tracker. Shown: diagrams are
    always drawn and show every message; the tracker is one log per call.
  \<^item> \<open>Sip_Client\<close> (\<open>client.py\<close>), \<open>Mizu_Client\<close> (\<open>examples/mizu_example.py\<close>): the composition of the above and the example programs.
    Shown: where requests go, what is tracked, and that a client can always be stopped.
  \<^item> \<open>Media_Rtp\<close>, \<open>Media_Codecs\<close>, \<open>Media_Dtmf\<close>, \<open>Media_Audio\<close> (\<open>media/\<close>), \<open>Dns_Resolver\<close> (\<open>dns.py\<close>), \<open>Logging_Utils\<close>
    (\<open>logging_utils.py\<close>). Shown: packet round trip and numbering, accuracy of the codecs, lengths of tones, playing what was
    recorded, what resolution depends on, and that no message is logged twice.
  \<^item> This theory: properties that span components. An INVITE carries its offer to the other side, and voice goes through codec,
    RTP and the audio device.

  \<^bold>\<open>How state and effects correspond.\<close> An object is a record with the source's attributes, a method a function that takes
  and returns it. Sends, socket calls and device calls are lists of events in order. A coroutine is a function that runs to its end;
  what can happen between two of them (a datagram, a timer, a delayed answer, a cleanup, a keep-alive round) is an explicit
  event, and the invariants are proved for every sequence of events. An exception is an error value together with
  the state reached at that point.

  \<^bold>\<open>What is a parameter.\<close> Hash functions, random identifiers and the clock (\<open>env\<close>, \<open>client_env\<close>), the answers of sockets and of the
  event loop, the sine oscillator, \<open>getaddrinfo\<close>, and PyAudio. Hypotheses about them say only what their documentation does, e.g. that a
  stream returns as many bytes as were asked for.

  \<^bold>\<open>Bounds and termination.\<close> Loops are structural recursion or have a termination proof. The receive loop of TCP may not return and is a
  \<open>partial_function\<close> with an optional result; for well-formed input it is proved to return, and an input is given for which it does not. No
  definition uses fuel. Python integers are \<open>int\<close>; widths appear where the code masks (RTP fields, G.711 bytes) or packs. Floats
  occur in tone generation, block counts and timer values and are exact rationals or reals, without rounding.

  \<^bold>\<open>Not modelled.\<close> The text of log lines inside other modules and the rendering of panels by the rich library, because they are output
  only; the interactive menu of \<open>client.py\<close> and signal handlers, which only choose a program or end a pause;
  \<open>__init__.py\<close>, which holds version strings; abstract methods, protocol classes and aliases without a body. Characters beyond
  Latin-1 in messages are not represented. Which datagrams the operating system hands to a connected socket, and tasks that run between
  two awaits of one handler, are outside the model. \<open>wait_for_termination\<close> only awaits the event whose setting is modelled.
\<close>

section \<open>Offers in requests\<close>

lemma encoded_session_text:
  assumes "session_ok s"
  shows "\<exists>t. session_encode s = t @ CRLF \<and> t \<noteq> [] \<and> rstripped t \<and> session_parse now t = Inr s"
proof -
  let ?ls = "session_lines s @ concat (map media_lines (media s))"
  have ls: "?ls \<noteq> []" by (simp add: session_lines_def)
  from last_in_set[OF this] have l: "text_line (last ?ls)" by (rule encode_text_lines[OF assms])
  then have j: "last (join CRLF ?ls) = last (last ?ls)" "join CRLF ?ls \<noteq> []" using last_join[OF ls, of CRLF] by (auto simp only: text_line_def)
  then have r: "rstripped (join CRLF ?ls)" using l by (auto simp: rstripped_def text_line_def stripped_def)
  have "strip (join CRLF ?ls @ CRLF) = strip (join CRLF ?ls)" by (rule strip_append_spaces) simp
  then have "session_parse now (join CRLF ?ls) = Inr s"
    using parse_session_encode[OF assms, of now] by (simp add: session_parse_def session_encode_lines)
  with j r show ?thesis unfolding session_encode_lines by blast
qed

lemma set_body_start:
  "method (set_body arg ct m) = method m" "uri (set_body arg ct m) = uri m" "status_code (set_body arg ct m) = status_code m"
  "reason_phrase (set_body arg ct m) = reason_phrase m"
  by (simp_all add: set_body_def Let_def)

lemma add_headers_start:
  "method (add_headers hs m) = method m" "uri (add_headers hs m) = uri m" "status_code (add_headers hs m) = status_code m"
  "reason_phrase (add_headers hs m) = reason_phrase m"
  by (induction hs arbitrary: m) (auto simp: add_headers_def add_header_def)

lemma create_request_method: "method (create_request meth u [] None) = Some meth"
  by (simp add: create_request_def attach_body_def)

lemma sdp_request_received:
  assumes "session_ok s" and "m = set_body (BStr (session_encode s)) ''application/sdp'' m0" and "start_ok m" and "list_all header_ok (headers m)"
  shows "\<exists>b. message_parse (message_str m) = Inr (m\<lparr>body := Some b\<rparr>) \<and> is_sdp b \<and> get_sdp now b = Some s"
proof -
  let ?ct = "''application/sdp''"
  have "stripped ?ct" by (simp add: stripped_def char_class_defs)
  then have st: "stripped (content_type (to_body (BStr (session_encode s)) ?ct))" by (simp add: body_of_str_def)
  from set_body_announced[OF st, of m0] have m: "body m = Some (body_of_str (session_encode s) ?ct)"
    "get_header m ''content-type'' = Some ?ct" "truthy_str (get_header m ''content-length'')"
    by (simp_all add: assms(2) body_of_str_def nat_str_nonempty)
  obtain t where t: "session_encode s = t @ CRLF" "t \<noteq> []" "rstripped t" "session_parse now t = Inr s"
    using encoded_session_text[OF assms(1)] by blast
  let ?b = "body_of_str (session_encode s) ?ct"
  let ?m = "m\<lparr>body := Some (?b\<lparr>content := t\<rparr>)\<rparr>"
  have ok: "message_ok ?m" using assms(3,4) t by (simp add: message_ok_def start_ok_def cong: option.case_cong)
  have "m\<lparr>body := Some (?b\<lparr>content := t @ CRLF\<rparr>)\<rparr> = m" using m(1) t(1) by (simp add: body_of_str_def)
  with body_line_end_lost[OF ok m(3)] have p: "message_parse (message_str m) = Inr (received ?m)" by simp
  have w: "wire_headers ?m = headers m" using m(3) by (simp add: wire_headers_def get_header_def)
  have "header_lookup ''content-type'' (headers m) = Some ?ct" using m(2) by (simp add: get_header_def lower_eval)
  then have "received ?m = m\<lparr>body := Some (body_of_str t ?ct)\<rparr>" unfolding received_def w by simp
  with p t(4) show ?thesis by (intro exI[of _ "body_of_str t ?ct"]) (simp add: is_sdp_def get_sdp_def body_of_str_def)
qed

text \<open>Header values that fit on a line.\<close>

definition line_value :: "string \<Rightarrow> bool" where
  "line_value v = (v \<noteq> [] \<and> \<not> is_space (hd v) \<and> \<not> is_space (last v) \<and> CR \<notin> set v)"

lemma header_ok_new:
  assumes "line_value n" and "CHR '':'' \<notin> set n" and "line_value v"
  shows "header_ok (new_header n v)"
  using assms by (simp add: header_ok_def new_header_def line_value_def stripped_def strip_id)

lemma add_headers_ok:
  "list_all header_ok (headers m) \<Longrightarrow> list_all (\<lambda>(n, v). header_ok (new_header n v)) hs \<Longrightarrow> list_all header_ok (headers (add_headers hs m))"
  by (induction hs arbitrary: m) (auto simp: add_headers_def add_header_def)

lemma header_update_ok:
  "list_all header_ok hs \<Longrightarrow> line_value v \<Longrightarrow> header_update n v hs = Some hs' \<Longrightarrow> list_all header_ok hs'"
  by (induction n v hs arbitrary: hs' rule: header_update.induct) (auto simp: header_ok_def line_value_def stripped_def split: if_splits)

lemma set_header_ok:
  assumes "list_all header_ok (headers m)" and "line_value n" and "CHR '':'' \<notin> set n" and "line_value v"
  shows "list_all header_ok (headers (set_header n v m))"
  using assms header_update_ok[OF assms(1,4)] header_ok_new[OF assms(2-4)] by (auto simp: set_header_def add_header_def split: option.split)

lemma nat_str_value: "line_value (nat_str n)"
proof -
  have "\<not> is_digit CR" by (simp add: char_class_defs)
  then show ?thesis using nat_str_stripped[of n] nat_str_digits[of n] by (auto simp: line_value_def stripped_def)
qed

text \<open>What the caller of \<open>send_invite\<close> and the random identifiers have to satisfy: addresses without blanks.\<close>

definition invite_args_ok :: "env \<Rightarrow> string \<Rightarrow> string \<Rightarrow> bool" where
  "invite_args_ok e self target =
     (has_at self \<and> word_ok self \<and> word_ok target \<and> list_all (\<lambda>c. \<not> is_space c) (uri_domain self) \<and> (\<forall>i. list_all (\<lambda>c. \<not> is_space c) (fresh_hex e i)))"

lemma no_space_CR: "list_all (\<lambda>c. \<not> is_space c) w \<Longrightarrow> CR \<notin> set w"
  by (auto simp: list_all_iff)

lemma invite_request_ok:
  assumes "invite_args_ok e self target" and "b \<noteq> []"
  shows "\<exists>m0. create_invite_request e self target (Some b) = Inr (set_body (BStr b) ''application/sdp'' m0) \<and> method m0 = Some INVITE \<and>
    start_ok (set_body (BStr b) ''application/sdp'' m0) \<and> list_all header_ok (headers (set_body (BStr b) ''application/sdp'' m0))"
proof -
  define hs where "hs = [(''Via'', ''SIP/2.0/UDP '' @ uri_domain self @ '';branch='' @ branch_of (fresh_hex e 2)), (''Max-Forwards'', ''70''),
     (''From'', angle self @ '';tag='' @ take 8 (fresh_hex e 1)), (''To'', angle target), (''Call-ID'', fresh_hex e 0 @ ''@'' @ uri_domain self),
     (''CSeq'', ''1 INVITE''), (''Contact'', angle self)]"
  let ?base = "add_headers hs (create_request INVITE target [] None)"
  let ?m = "set_body (BStr b) ''application/sdp'' ?base"
  have hex: "list_all (\<lambda>c. \<not> is_space c) (fresh_hex e i)" "list_all (\<lambda>c. \<not> is_space c) (take n (fresh_hex e i))"
      "list_all (\<lambda>c. \<not> is_space c) (uri_domain self)" for i n
    using assms(1) by (auto simp: invite_args_ok_def list_all_iff dest: in_set_takeD)
  have w: "CR \<notin> set self" "CR \<notin> set target" "CR \<notin> set (uri_domain self)" "CR \<notin> set (fresh_hex e i)" "CR \<notin> set (take n (fresh_hex e i))" for i n
    using assms(1) no_space_CR[OF hex(1)] no_space_CR[OF hex(2)] no_space_CR[OF hex(3)]
    by (auto simp: invite_args_ok_def word_ok_def list_all_iff)
  have l: "\<not> is_space (last v)" "\<not> is_space (hd v)" if "list_all (\<lambda>c. \<not> is_space c) v" "v \<noteq> []" for v
    using that by (auto simp: list_all_iff)
  have vals: "line_value (''SIP/2.0/UDP '' @ uri_domain self @ '';branch='' @ branch_of (fresh_hex e 2))" "line_value (angle self @ '';tag='' @ take 8 (fresh_hex e 1))"
      "line_value (fresh_hex e 0 @ ''@'' @ uri_domain self)"
    using w l(1)[OF hex(2)] l(1)[OF hex(3)] l(2)[OF hex(1)]
    by (auto simp: line_value_def branch_of_def angle_def last_append hd_append char_class_defs split: if_splits)
  have "line_value (angle self)" "line_value (angle target)" using w by (auto simp: line_value_def angle_def char_class_defs)
  note vals = vals this
  have fixed: "line_value ''Via''" "line_value ''Max-Forwards''" "line_value ''From''" "line_value ''To''" "line_value ''Call-ID''"
      "line_value ''CSeq''" "line_value ''Contact''" "line_value ''70''" "line_value ''1 INVITE''" "line_value ''Content-Length''" "line_value ''Content-Type''" "line_value ''application/sdp''"
    by (simp_all add: line_value_def char_class_defs)
  have "list_all (\<lambda>(n, v). header_ok (new_header n v)) hs"
    unfolding hs_def list.pred_inject prod.case by (intro conjI header_ok_new vals fixed TrueI) simp_all
  then have "list_all header_ok (headers ?base)"
    by (intro add_headers_ok) (simp_all add: create_request_def attach_body_def new_message_def)
  then have "list_all header_ok (headers ?m)"
    unfolding set_body_def Let_def by (intro set_header_ok nat_str_value fixed) (simp_all add: body_of_str_def fixed)
  moreover have "start_ok ?m"
  proof -
    have "word_ok target" using assms(1) by (simp add: invite_args_ok_def)
    moreover from this have "strip target = target" by (intro strip_id) (auto simp: word_ok_def stripped_def)
    ultimately show ?thesis
      by (simp add: start_ok_def set_body_start add_headers_start create_request_def attach_body_def new_message_def)
  qed
  moreover have "create_invite_request e self target (Some b) = Inr ?m"
    using assms unfolding create_invite_request_def hs_def[symmetric] Let_def by (simp add: invite_args_ok_def)
  ultimately show ?thesis by (intro exI[of _ ?base]) (simp add: add_headers_start create_request_method)
qed

section \<open>Voice\<close>

fun samples :: "byte list \<Rightarrow> int list" where
  "samples (lo # hi # buf) = unpack_h lo hi # samples buf"
| "samples _ = []"

lemma decode_encode_samples:
  assumes "\<And>x. 0 \<le> f x \<and> f x < 256" and "\<And>b. is_byte b \<Longrightarrow> - 32768 \<le> g (int b) \<and> g (int b) \<le> 32767" and "even (length pcm)"
  shows "\<exists>u out. encode_samples f pcm = Inr u \<and> decode_samples g u = Inr out \<and> samples out = map (\<lambda>x. g (f x)) (samples pcm)"
  using assms(3)
proof (induction pcm rule: induct_list012)
  case (3 lo hi buf)
  then obtain u out where r: "encode_samples f buf = Inr u" "decode_samples g u = Inr out" "samples out = map (\<lambda>x. g (f x)) (samples buf)"
    by auto
  let ?v = "f (unpack_h lo hi)"
  have v: "0 \<le> ?v" "?v < 256" "is_byte (nat ?v)" using assms(1)[of "unpack_h lo hi"] by (simp_all add: is_byte_def nat_less_iff)
  obtain l h where p: "pack_h (g ?v) = Inr [l, h]" using pack_h_total[of "g ?v"] assms(2)[OF v(3)] v(1) by auto
  from r v p unpack_pack_h[OF p] show ?case by (simp add: Let_def)
qed simp_all

section \<open>Properties\<close>

text \<open>C15. An INVITE carries its offer: if the user agent makes an INVITE for a well-formed session description, and the addresses and
  identifiers put into it have no blanks, then the message parsed by the other side from the bytes sent is the same request with the
  same headers, its body is recognised as a session description, and reading it gives exactly the offered session.\<close>

theorem invite_offer_received:
  assumes "session_ok s" and "invite_args_ok e self target"
  shows "\<exists>m b. create_invite_request e self target (Some (session_encode s)) = Inr m \<and> method m = Some INVITE \<and>
    message_parse (utf8_decode_ignore (message_encode m)) = Inr (m\<lparr>body := Some b\<rparr>) \<and> is_sdp b \<and> get_sdp now b = Some s"
proof -
  have "session_encode s \<noteq> []" by (simp add: session_encode_def)
  from invite_request_ok[OF assms(2) this] obtain m0 where
    m0: "create_invite_request e self target (Some (session_encode s)) = Inr (set_body (BStr (session_encode s)) ''application/sdp'' m0)"
      "method m0 = Some INVITE" "start_ok (set_body (BStr (session_encode s)) ''application/sdp'' m0)"
      "list_all header_ok (headers (set_body (BStr (session_encode s)) ''application/sdp'' m0))" by blast
  from sdp_request_received[OF assms(1) HOL.refl m0(3,4), of now] m0(1,2) show ?thesis
    by (auto simp: message_encode_def set_body_start)
qed

theorem invite_offer_received_witness:
  "\<exists>m b. create_invite_request example_env ''sip:a@h'' ''sip:b@h'' (Some (session_encode (negotiator_create_offer 5 ''10.0.0.1'' 4000))) = Inr m \<and>
     message_parse (utf8_decode_ignore (message_encode m)) = Inr (m\<lparr>body := Some b\<rparr>) \<and>
     get_sdp 0 b = Some (negotiator_create_offer 5 ''10.0.0.1'' 4000)"
proof -
  have s: "session_ok (negotiator_create_offer 5 ''10.0.0.1'' 4000)" by (rule offer_ok) (simp_all add: word_ok_def char_class_defs)
  have "uri_domain ''sip:a@h'' = ''h''" by code_simp
  then have "invite_args_ok example_env ''sip:a@h'' ''sip:b@h''"
    by (simp add: invite_args_ok_def has_at_def word_ok_def example_env_def char_class_defs)
  from invite_offer_received[OF s this, of 0] show ?thesis by blast
qed



end
